theory Spec2Isabelle
  imports Complex_Main "HOL-Library.Log_Nat"
begin

section \<open>TabSnap: the fretboard mapping engine of \<^verbatim>\<open>src/TabSnap.jsx\<close>\<close>

text \<open>
  The engine has four functions: \<^verbatim>\<open>getCandidates\<close>, \<^verbatim>\<open>optimizeChord\<close>,
  \<^verbatim>\<open>fretboardMap\<close> and \<^verbatim>\<open>renderAsciiTab\<close>. They are embedded below in the order
  of the source file.

  Conventions of the embedding.
  \<^item> MIDI pitches and frets are JavaScript numbers holding integers: \<open>int\<close>. String
    indices are loop counters \<open>0..5\<close>: \<open>nat\<close>.
  \<^item> The costs of \<^verbatim>\<open>optimizeChord\<close> are JavaScript numbers, IEEE 754
    doubles. A finite double is embedded as the rational it denotes, and every
    operation of the source rounds its exact result to the nearest double, ties to
    even (\<open>fl\<close>, 53 bits of precision); a decimal literal such as \<^verbatim>\<open>0.1\<close> is the double
    nearest to it. An integer (a fret, a span, a distance) is taken as the double of
    the same value, which is exact below \<open>2\<^sup>5\<^sup>3\<close>. The exponent is not bounded: the
    costs of the source are sums of multiples of \<open>0.05\<close>, \<open>0.1\<close>, \<open>0.3\<close> and \<open>0.5\<close>
    and their differences, which are never subnormal, and which overflow only for
    frets beyond \<open>10\<^sup>3\<^sup>0\<^sup>0\<close>. \<^verbatim>\<open>Infinity\<close>, the initial \<^verbatim>\<open>bestCost\<close>, is \<open>None\<close> of
    \<open>rat option\<close>.
  \<^item> JavaScript's \<^verbatim>\<open>undefined\<close> inside an array of positions is \<open>None\<close> of
    \<open>position option\<close>; reading a property of \<^verbatim>\<open>undefined\<close> throws a TypeError,
    which is the value \<open>Inl TypeError\<close>.
  \<^item> \<^verbatim>\<open>Array.prototype.sort\<close> is stable (ECMAScript 2019): a stable insertion sort
    that asks the comparator of the source.
\<close>

subsection \<open>Data\<close>

datatype error = TypeError

text \<open>
  The keys of the table \<^verbatim>\<open>TUNINGS\<close>. Any other key makes \<^verbatim>\<open>TUNINGS[tuning].notes\<close>
  throw; the type leaves such keys out.
\<close>

datatype tuning = standard | dropD | halfDown

record tuningEntry =
  label :: string
  "notes" :: "int list"

definition TUNINGS :: "tuning \<Rightarrow> tuningEntry" where
  "TUNINGS t = (case t of
      standard \<Rightarrow> \<lparr>label = ''Standard'', notes = [64, 59, 55, 50, 45, 40]\<rparr>
    | dropD \<Rightarrow> \<lparr>label = ''Drop D'', notes = [64, 59, 55, 50, 45, 38]\<rparr>
    | halfDown \<Rightarrow> \<lparr>label = ''1/2 Step Down'', notes = [63, 58, 54, 49, 44, 39]\<rparr>)"

definition STRING_LABELS :: "string list" where
  "STRING_LABELS = [''e'', ''B'', ''G'', ''D'', ''A'', ''E'']"

record position =
  string :: nat
  fret :: int

subsection \<open>Double-precision arithmetic\<close>

text \<open>
  \<open>ilog2 x\<close> is the binary exponent of a positive rational, the integer \<open>e\<close> with
  \<open>2\<^sup>e \<le> x < 2\<^sup>e\<^sup>+\<^sup>1\<close>, computed from the bit lengths of numerator and denominator.
\<close>

definition ilog2 :: "rat \<Rightarrow> int" where
  "ilog2 x = (let (p, q) = quotient_of x; e = bitlen p - bitlen q
              in if 2 powi e \<le> x then e else e - 1)"

text \<open>The nearest integer, the even one of two that are equally near.\<close>

definition round_half_even :: "rat \<Rightarrow> int" where
  "round_half_even q =
     (let f = \<lfloor>q\<rfloor>; d = q - of_int f
      in if d < 1 / 2 then f else if 1 / 2 < d then f + 1 else if even f then f else f + 1)"

text \<open>
  The nearest double: the significand \<open>\<bar>x\<bar> / u\<close> lies in \<open>[2\<^sup>5\<^sup>2, 2\<^sup>5\<^sup>3)\<close> for the unit
  \<open>u = 2\<^sup>e\<^sup>-\<^sup>5\<^sup>2\<close> and is rounded to an integer.
\<close>

definition fl :: "rat \<Rightarrow> rat" where
  "fl x = (if x = 0 then 0
           else (let u = 2 powi (ilog2 \<bar>x\<bar> - 52)
                 in sgn x * of_int (round_half_even (\<bar>x\<bar> / u)) * u))"

text \<open>The operators \<^verbatim>\<open>*\<close>, \<^verbatim>\<open>+\<close> and \<^verbatim>\<open>-\<close> on doubles.\<close>

definition dmul :: "rat \<Rightarrow> rat \<Rightarrow> rat" where
  "dmul a b = fl (a * b)"

definition dadd :: "rat \<Rightarrow> rat \<Rightarrow> rat" where
  "dadd a b = fl (a + b)"

definition dsub :: "rat \<Rightarrow> rat \<Rightarrow> rat" where
  "dsub a b = fl (a - b)"

text \<open>
  \<^verbatim>\<open>xs.sort(cmp)\<close> with a comparator that returns a number: an element goes before
  the first element that it does not exceed, so that equal elements keep their order.
\<close>

fun insort_cmp :: "('a \<Rightarrow> 'a \<Rightarrow> rat) \<Rightarrow> 'a \<Rightarrow> 'a list \<Rightarrow> 'a list" where
  "insort_cmp cmp x [] = [x]"
| "insort_cmp cmp x (y # ys) =
     (if cmp x y \<le> 0 then x # y # ys else y # insort_cmp cmp x ys)"

definition sort_cmp :: "('a \<Rightarrow> 'a \<Rightarrow> rat) \<Rightarrow> 'a list \<Rightarrow> 'a list" where
  "sort_cmp cmp xs = foldr (insort_cmp cmp) xs []"

subsection \<open>The candidate generator\<close>

text \<open>
  The loop \<^verbatim>\<open>for (let s = 0; s < 6; s++)\<close> of \<^verbatim>\<open>getCandidates\<close>, with the array
  \<^verbatim>\<open>candidates\<close> as accumulator. Reading \<^verbatim>\<open>open[s]\<close> beyond the array gives
  \<^verbatim>\<open>undefined\<close>, the difference is \<^verbatim>\<open>NaN\<close> and both comparisons are false: nothing
  is pushed.
\<close>

function getCandidates_loop ::
  "int \<Rightarrow> int list \<Rightarrow> int \<Rightarrow> nat \<Rightarrow> position list \<Rightarrow> position list" where
  "getCandidates_loop midiNote opn maxFret s candidates =
     (if s < 6 then
        (let fret = midiNote - opn ! s in
         getCandidates_loop midiNote opn maxFret (Suc s)
           (if s < length opn \<and> fret \<ge> 0 \<and> fret \<le> maxFret
            then candidates @ [\<lparr>string = s, fret = fret\<rparr>]
            else candidates))
      else candidates)"
  by pat_completeness auto
termination
  by (relation "measure (\<lambda>(midiNote, opn, maxFret, s, candidates). 6 - s)") auto

declare getCandidates_loop.simps [simp del]

definition getCandidates_open :: "int \<Rightarrow> int list \<Rightarrow> int \<Rightarrow> position list" where
  "getCandidates_open midiNote opn maxFret = getCandidates_loop midiNote opn maxFret 0 []"

definition getCandidates :: "int \<Rightarrow> tuning \<Rightarrow> int \<Rightarrow> position list" where
  "getCandidates midiNote tun maxFret =
     getCandidates_open midiNote (tuningEntry.notes (TUNINGS tun)) maxFret"

text \<open>The default value of the parameter \<^verbatim>\<open>maxFret\<close>.\<close>

definition maxFret_default :: int where
  "maxFret_default = 22"

subsection \<open>The chord optimizer\<close>

text \<open>
  \<^verbatim>\<open>candidateSets[0][0]\<close> and \<^verbatim>\<open>cs[0]\<close>: the first element of an array, or
  \<^verbatim>\<open>undefined\<close> when the array is empty.
\<close>

definition index0 :: "'a list \<Rightarrow> 'a option" where
  "index0 xs = (case xs of [] \<Rightarrow> None | x # _ \<Rightarrow> Some x)"

text \<open>\<^verbatim>\<open>Boolean\<close> as the predicate of \<^verbatim>\<open>filter\<close>: an object is truthy, \<^verbatim>\<open>undefined\<close> is not.\<close>

definition Boolean :: "'a option \<Rightarrow> bool" where
  "Boolean v = (v \<noteq> None)"

text \<open>
  \<^verbatim>\<open>Math.min(...xs)\<close> and \<^verbatim>\<open>Math.max(...xs)\<close> on a non-empty array. Both calls of the
  source are guarded (\<^verbatim>\<open>lastPositions.length > 0\<close>, \<^verbatim>\<open>frets.length > 0\<close>), so the
  empty array is never passed.
\<close>

fun Math_min :: "int list \<Rightarrow> int" where
  "Math_min (x # xs) = fold min xs x"

fun Math_max :: "int list \<Rightarrow> int" where
  "Math_max (x # xs) = fold max xs x"

text \<open>
  \<^verbatim>\<open>lastPositions.map(lp => Math.abs(lp.fret - c.fret) + Math.abs(lp.string - c.string) * 2)\<close>.
  The callback reads \<^verbatim>\<open>lp.fret\<close>: on an \<^verbatim>\<open>undefined\<close> element it throws.
\<close>

fun map_lastPositions :: "position \<Rightarrow> position option list \<Rightarrow> error + int list" where
  "map_lastPositions c [] = Inr []"
| "map_lastPositions c (None # lps) = Inl TypeError"
| "map_lastPositions c (Some lp # lps) =
     (case map_lastPositions c lps of
        Inl e \<Rightarrow> Inl e
      | Inr ds \<Rightarrow> Inr ((\<bar>fret lp - fret c\<bar> + \<bar>int (string lp) - int (string c)\<bar> * 2) # ds))"

text \<open>
  The cost that one iteration of the single-note loop computes for candidate \<open>c\<close>:
  \<^verbatim>\<open>let cost = c.fret * 0.1\<close>, then \<^verbatim>\<open>cost += Math.min(...) * 0.5\<close> when there are
  last positions, then \<^verbatim>\<open>cost -= 0.3\<close> when the fret is 0.
\<close>

definition noteCost :: "position \<Rightarrow> position option list \<Rightarrow> error + rat" where
  "noteCost c lastPositions =
     (case (if length lastPositions > 0
            then (case map_lastPositions c lastPositions of
                    Inl e \<Rightarrow> Inl e
                  | Inr ds \<Rightarrow>
                      Inr (dadd (dmul (of_int (fret c)) (fl (1 / 10)))
                             (dmul (of_int (Math_min ds)) (fl (1 / 2)))))
            else Inr (dmul (of_int (fret c)) (fl (1 / 10)))) of
        Inl e \<Rightarrow> Inl e
      | Inr cost \<Rightarrow> Inr (if fret c = 0 then dsub cost (fl (3 / 10)) else cost))"

text \<open>\<^verbatim>\<open>cost < bestCost\<close>, where \<^verbatim>\<open>bestCost\<close> starts as \<^verbatim>\<open>Infinity\<close>.\<close>

fun less_bestCost :: "rat \<Rightarrow> rat option \<Rightarrow> bool" where
  "less_bestCost cost None = True"
| "less_bestCost cost (Some bestCost) = (cost < bestCost)"

text \<open>The loop \<^verbatim>\<open>for (const c of candidateSets[0])\<close> on the pair \<^verbatim>\<open>(best, bestCost)\<close>.\<close>

fun single_loop ::
  "position list \<Rightarrow> position option list \<Rightarrow> position option \<times> rat option
   \<Rightarrow> error + position option \<times> rat option" where
  "single_loop [] lastPositions (best, bestCost) = Inr (best, bestCost)"
| "single_loop (c # cs) lastPositions (best, bestCost) =
     (case noteCost c lastPositions of
        Inl e \<Rightarrow> Inl e
      | Inr cost \<Rightarrow>
          if less_bestCost cost bestCost
          then single_loop cs lastPositions (Some c, Some cost)
          else single_loop cs lastPositions (best, bestCost))"

text \<open>A state of the beam: \<^verbatim>\<open>{ positions, cost, used }\<close>.\<close>

record beamState =
  positions :: "position list"
  cost :: rat
  used :: "nat set"

text \<open>
  The span of the frets chosen so far together with the new one:
  \<^verbatim>\<open>[...state.positions.map(p => p.fret), c.fret].filter(f => f > 0)\<close>, then
  \<^verbatim>\<open>frets.length > 0 ? Math.max(...frets) - Math.min(...frets) : 0\<close>.
\<close>

definition spanWith :: "position list \<Rightarrow> position \<Rightarrow> int" where
  "spanWith ps c =
     (let frets = filter (\<lambda>f. f > 0) (map fret ps @ [fret c])
      in if length frets > 0 then Math_max frets - Math_min frets else 0)"

text \<open>
  The inner loop \<^verbatim>\<open>for (const c of candidates)\<close>, pushing onto \<^verbatim>\<open>next\<close>;
  \<^verbatim>\<open>state.cost + c.fret * 0.05 + span * 0.3\<close> adds from left to right.
\<close>

fun expand_state :: "beamState \<Rightarrow> position list \<Rightarrow> beamState list \<Rightarrow> beamState list" where
  "expand_state st [] nxt = nxt"
| "expand_state st (c # cs) nxt =
     (if string c \<in> used st then expand_state st cs nxt
      else let span = spanWith (beamState.positions st) c in
        if span > 5 then expand_state st cs nxt
        else let cost0 = dadd (dadd (cost st) (dmul (of_int (fret c)) (fl (1 / 20))))
                               (dmul (of_int span) (fl (3 / 10)));
                 cost1 = (if fret c = 0 then dsub cost0 (fl (1 / 5)) else cost0);
                 u = insert (string c) (used st)
             in expand_state st cs
                  (nxt @ [\<lparr>beamState.positions = beamState.positions st @ [c], cost = cost1, used = u\<rparr>]))"

text \<open>The loop \<^verbatim>\<open>for (const state of beam)\<close>.\<close>

fun expand_beam :: "beamState list \<Rightarrow> position list \<Rightarrow> beamState list \<Rightarrow> beamState list" where
  "expand_beam [] candidates nxt = nxt"
| "expand_beam (st # beam) candidates nxt =
     expand_beam beam candidates (expand_state st candidates nxt)"

text \<open>
  The comparator \<^verbatim>\<open>(a, b) => a.cost - b.cost\<close>, and the loop
  \<^verbatim>\<open>for (const candidates of candidateSets)\<close>: expand, \<^verbatim>\<open>next.sort(...)\<close>, keep
  \<^verbatim>\<open>next.slice(0, 20)\<close>.
\<close>

definition byCost :: "beamState \<Rightarrow> beamState \<Rightarrow> rat" where
  "byCost a b = dsub (cost a) (cost b)"

fun beam_loop :: "position list list \<Rightarrow> beamState list \<Rightarrow> beamState list" where
  "beam_loop [] beam = beam"
| "beam_loop (candidates # rest) beam =
     beam_loop rest (take 20 (sort_cmp byCost (expand_beam beam candidates [])))"

definition initialBeam :: "beamState list" where
  "initialBeam = [\<lparr>beamState.positions = [], cost = 0, used = {}\<rparr>]"

definition optimizeChord ::
  "position list list \<Rightarrow> position option list \<Rightarrow> error + position option list" where
  "optimizeChord candidateSets lastPositions =
     (if length candidateSets = 0 then Inr []
      else if length candidateSets = 1 then
        (case single_loop (candidateSets ! 0) lastPositions (index0 (candidateSets ! 0), None) of
           Inl e \<Rightarrow> Inl e
         | Inr (best, bestCost) \<Rightarrow> Inr [best])
      else
        (let beam = beam_loop candidateSets initialBeam
         in if length beam > 0 then Inr (map Some (beamState.positions (beam ! 0)))
            else Inr (filter Boolean (map index0 candidateSets))))"

subsection \<open>Auxiliary notions for the beam search\<close>

text \<open>
  The span of a complete list of positions, the state that one expansion pushes, the
  test an expansion has to pass, one round of the outer loop, and the invariant of
  the states of the beam after the candidate sets \<open>css\<close> have been processed.
\<close>

definition chordSpan :: "position list \<Rightarrow> int" where
  "chordSpan ps =
     (let frets = filter (\<lambda>f. f > 0) (map fret ps)
      in if length frets > 0 then Math_max frets - Math_min frets else 0)"

definition child :: "beamState \<Rightarrow> position \<Rightarrow> beamState" where
  "child st c =
     \<lparr>beamState.positions = beamState.positions st @ [c],
      cost = (if fret c = 0
              then dsub (dadd (dadd (cost st) (dmul (of_int (fret c)) (fl (1 / 20))))
                           (dmul (of_int (spanWith (beamState.positions st) c)) (fl (3 / 10))))
                     (fl (1 / 5))
              else dadd (dadd (cost st) (dmul (of_int (fret c)) (fl (1 / 20))))
                     (dmul (of_int (spanWith (beamState.positions st) c)) (fl (3 / 10)))),
      used = insert (string c) (used st)\<rparr>"

definition admissible :: "beamState \<Rightarrow> position \<Rightarrow> bool" where
  "admissible st c = (string c \<notin> used st \<and> \<not> spanWith (beamState.positions st) c > 5)"

definition beam_step :: "beamState list \<Rightarrow> position list \<Rightarrow> beamState list" where
  "beam_step beam candidates = take 20 (sort_cmp byCost (expand_beam beam candidates []))"

definition state_inv :: "position list list \<Rightarrow> beamState \<Rightarrow> bool" where
  "state_inv css st =
     (list_all2 (\<lambda>p cs. p \<in> set cs) (beamState.positions st) css
      \<and> used st = set (map string (beamState.positions st))
      \<and> distinct (map string (beamState.positions st))
      \<and> chordSpan (beamState.positions st) \<le> 5)"

subsection \<open>The single-note cost in the words of the specification\<close>

text \<open>
  \<open>fret * 0.1\<close>, plus, when there are prior positions, \<open>0.5\<close> times the minimum over
  them of \<open>|\<Delta>fret| + 2 * |\<Delta>string|\<close>, minus \<open>0.3\<close> when the fret is 0; in the
  arithmetic of the program.
\<close>

definition moveDistance :: "position \<Rightarrow> position list \<Rightarrow> int" where
  "moveDistance c prior =
     Min ((\<lambda>lp. \<bar>fret lp - fret c\<bar> + 2 * \<bar>int (string lp) - int (string c)\<bar>) ` set prior)"

definition spec_noteCost :: "position \<Rightarrow> position list \<Rightarrow> rat" where
  "spec_noteCost c prior =
     (let base = dmul (of_int (fret c)) (fl (1 / 10));
          moved = (if prior \<noteq> []
                   then dadd base (dmul (fl (1 / 2)) (of_int (moveDistance c prior)))
                   else base)
      in if fret c = 0 then dsub moved (fl (3 / 10)) else moved)"

subsection \<open>The beam search in the words of the specification\<close>

text \<open>
  The chord span: \<open>max(fret) - min(fret)\<close> over the non-zero frets chosen so far, 0 when
  there is none.
\<close>

definition spec_span :: "position list \<Rightarrow> int" where
  "spec_span ps =
     (let fs = filter (\<lambda>f. f \<noteq> 0) (map fret ps)
      in if fs = [] then 0 else Max (set fs) - Min (set fs))"

text \<open>
  Expansion: every surviving state with every candidate whose string index is not used
  by a position of that state, unless the resulting span exceeds 5; the expansion adds
  \<open>fret * 0.05\<close> and \<open>span * 0.3\<close> to the cost, minus \<open>0.2\<close> when the fret is 0, in
  the arithmetic of the program.
\<close>

definition spec_stepCost :: "rat \<Rightarrow> int \<Rightarrow> int \<Rightarrow> rat" where
  "spec_stepCost acc f sp =
     (let added = dadd (dadd acc (dmul (of_int f) (fl (1 / 20))))
                    (dmul (of_int sp) (fl (3 / 10)))
      in if f = 0 then dsub added (fl (1 / 5)) else added)"

definition spec_expansions :: "beamState list \<Rightarrow> position list \<Rightarrow> beamState list" where
  "spec_expansions beam candidates =
     [\<lparr>beamState.positions = beamState.positions st @ [c],
       cost = spec_stepCost (cost st) (fret c) (spec_span (beamState.positions st @ [c])),
       used = insert (string c) (used st)\<rparr>.
      st \<leftarrow> beam, c \<leftarrow> candidates,
      string c \<notin> set (map string (beamState.positions st))
        \<and> spec_span (beamState.positions st @ [c]) \<le> 5]"

text \<open>After each pitch: sort by ascending total cost, keep at most the 20 lowest.\<close>

definition spec_round :: "beamState list \<Rightarrow> position list \<Rightarrow> beamState list" where
  "spec_round beam candidates = take 20 (sort_key cost (spec_expansions beam candidates))"

text \<open>The pitches are processed in the order of the list.\<close>

definition spec_beam :: "position list list \<Rightarrow> beamState list" where
  "spec_beam css = foldl spec_round initialBeam css"

text \<open>
  An assignment for the candidate sets \<open>css\<close>: one candidate of each set, on pairwise
  distinct strings, with a span of at most 5.
\<close>

definition feasible :: "position list list \<Rightarrow> position list \<Rightarrow> bool" where
  "feasible css asg =
     (list_all2 (\<lambda>p cs. p \<in> set cs) asg css
      \<and> distinct (map string asg)
      \<and> spec_span asg \<le> 5)"

text \<open>No candidate has a negative fret.\<close>

definition nonneg_frets :: "position list list \<Rightarrow> bool" where
  "nonneg_frets css = list_all (list_all (\<lambda>c. 0 \<le> fret c)) css"

text \<open>No position chosen in a state has a negative fret.\<close>

definition state_nonneg :: "beamState \<Rightarrow> bool" where
  "state_nonneg st = (\<forall>p \<in> set (beamState.positions st). 0 \<le> fret p)"

subsection \<open>The cost of a complete assignment\<close>

text \<open>
  The cost that the chord path accumulates along an assignment: the cost of the state
  reached from the initial state by pushing the positions one after the other.
\<close>

definition assignmentCost :: "position list \<Rightarrow> rat" where
  "assignmentCost ps = cost (foldl child \<lparr>beamState.positions = [], cost = 0, used = {}\<rparr> ps)"

subsection \<open>The sequence mapper\<close>

text \<open>
  An input event \<^verbatim>\<open>{ time, duration, notes, chord }\<close>. The field \<^verbatim>\<open>notes\<close> is one
  pitch or an array of pitches; \<^verbatim>\<open>chord\<close> is an optional label (\<open>None\<close> when the
  property is absent or \<^verbatim>\<open>null\<close>). Times and durations are only copied.
\<close>

datatype jsNotes = Single int | Array "int list"

record noteEvent =
  time :: rat
  duration :: rat
  "notes" :: jsNotes
  chord :: "string option"

text \<open>An output event \<^verbatim>\<open>{ time, duration, positions, chord }\<close>.\<close>

record mappedEvent =
  time :: rat
  duration :: rat
  positions :: "position option list"
  chord :: "string option"

text \<open>\<^verbatim>\<open>Array.isArray(ev.notes) ? ev.notes : [ev.notes]\<close>.\<close>

definition noteList :: "jsNotes \<Rightarrow> int list" where
  "noteList ns = (case ns of Array xs \<Rightarrow> xs | Single n \<Rightarrow> [n])"

text \<open>\<^verbatim>\<open>ev.chord || null\<close>: the empty string is falsy.\<close>

definition chord_or_null :: "string option \<Rightarrow> string option" where
  "chord_or_null c = (case c of None \<Rightarrow> None | Some s \<Rightarrow> if s = [] then None else Some s)"

text \<open>
  The loop \<^verbatim>\<open>for (const ev of events)\<close> on \<^verbatim>\<open>results\<close> and \<^verbatim>\<open>last\<close>;
  \<^verbatim>\<open>getCandidates(n, tuning)\<close> takes the default fret bound.
\<close>

fun fretboardMap_loop ::
  "noteEvent list \<Rightarrow> tuning \<Rightarrow> mappedEvent list \<Rightarrow> position option list
   \<Rightarrow> error + mappedEvent list" where
  "fretboardMap_loop [] tun results lst = Inr results"
| "fretboardMap_loop (ev # events) tun results lst =
     (let candidates = map (\<lambda>n. getCandidates n tun maxFret_default) (noteList (noteEvent.notes ev))
      in case optimizeChord candidates lst of
           Inl e \<Rightarrow> Inl e
         | Inr best \<Rightarrow>
             fretboardMap_loop events tun
               (results @ [\<lparr>mappedEvent.time = noteEvent.time ev, duration = noteEvent.duration ev,
                            positions = best, chord = chord_or_null (noteEvent.chord ev)\<rparr>])
               best)"

definition fretboardMap :: "noteEvent list \<Rightarrow> tuning \<Rightarrow> error + mappedEvent list" where
  "fretboardMap events tun = fretboardMap_loop events tun [] []"

text \<open>The candidate sets of an event, and the events whose single pitch is reachable.\<close>

definition candidatesOf :: "noteEvent \<Rightarrow> tuning \<Rightarrow> position list list" where
  "candidatesOf ev tun = map (\<lambda>n. getCandidates n tun maxFret_default) (noteList (noteEvent.notes ev))"

definition single_reachable :: "tuning \<Rightarrow> noteEvent \<Rightarrow> bool" where
  "single_reachable tun ev = (length (candidatesOf ev tun) = 1 \<longrightarrow> candidatesOf ev tun ! 0 \<noteq> [])"

subsection \<open>The tab renderer\<close>

text \<open>
  \<^verbatim>\<open>String(n)\<close> for an integer: its decimal digits, with a minus sign when negative
  (JavaScript switches to exponent notation from \<open>10\<^sup>2\<^sup>1\<close> on, far beyond any fret).
  Strings are lists of bytes here; \<^verbatim>\<open>padEnd\<close> counts UTF-16 units, which agrees on
  ASCII labels.
\<close>

fun digits :: "nat \<Rightarrow> string" where
  "digits n = (if n < 10 then [''0123456789'' ! n]
               else digits (n div 10) @ [''0123456789'' ! (n mod 10)])"

declare digits.simps [simp del]

definition String :: "int \<Rightarrow> string" where
  "String n = (if n < 0 then ''-'' @ digits (nat (- n)) else digits (nat n))"

text \<open>\<^verbatim>\<open>s.padEnd(n, c)\<close>; a string of \<open>n\<close> characters or more is returned as it is.\<close>

definition padEnd :: "string \<Rightarrow> nat \<Rightarrow> char \<Rightarrow> string" where
  "padEnd s n c = s @ replicate (n - length s) c"

text \<open>\<^verbatim>\<open>lines.join("\n")\<close>.\<close>

fun join :: "string \<Rightarrow> string list \<Rightarrow> string" where
  "join sep [] = []"
| "join sep [x] = x"
| "join sep (x # y # ys) = x @ sep @ join sep (y # ys)"

text \<open>
  \<^verbatim>\<open>ev.positions.find(p => p.string === s)\<close>: the first position on string \<open>s\<close>, or
  \<^verbatim>\<open>undefined\<close>. The callback reads \<^verbatim>\<open>p.string\<close> and throws on an \<^verbatim>\<open>undefined\<close>
  element that it reaches.
\<close>

fun find_string :: "position option list \<Rightarrow> nat \<Rightarrow> error + position option" where
  "find_string [] s = Inr None"
| "find_string (None # ps) s = Inl TypeError"
| "find_string (Some p # ps) s = (if string p = s then Inr (Some p) else find_string ps s)"

text \<open>The loop \<^verbatim>\<open>for (const ev of slice)\<close> that extends \<^verbatim>\<open>row\<close>.\<close>

fun row_events :: "mappedEvent list \<Rightarrow> nat \<Rightarrow> string \<Rightarrow> error + string" where
  "row_events [] s row = Inr row"
| "row_events (ev # slice) s row =
     (case find_string (mappedEvent.positions ev) s of
        Inl e \<Rightarrow> Inl e
      | Inr pos \<Rightarrow>
          (let f = (case pos of Some p \<Rightarrow> String (fret p) | None \<Rightarrow> ''-'')
           in row_events slice s (row @ ''-'' @ padEnd f 5 (CHR ''-''))))"

text \<open>The loop \<^verbatim>\<open>for (let s = 0; s < 6; s++)\<close> that pushes one row per string.\<close>

function string_rows :: "mappedEvent list \<Rightarrow> nat \<Rightarrow> string list \<Rightarrow> error + string list" where
  "string_rows slice s lines =
     (if s < 6 then
        (case row_events slice s (STRING_LABELS ! s @ ''|'') of
           Inl e \<Rightarrow> Inl e
         | Inr row \<Rightarrow> string_rows slice (Suc s) (lines @ [row @ ''|'']))
      else Inr lines)"
  by pat_completeness auto
termination
  by (relation "measure (\<lambda>(slice, s, lines). 6 - s)") auto

declare string_rows.simps [simp del]

text \<open>\<^verbatim>\<open>e.chord\<close> as a condition, and \<^verbatim>\<open>e.chord || ""\<close>.\<close>

definition truthy :: "string option \<Rightarrow> bool" where
  "truthy c = (case c of None \<Rightarrow> False | Some s \<Rightarrow> s \<noteq> [])"

definition chord_or_empty :: "string option \<Rightarrow> string" where
  "chord_or_empty c = (case c of None \<Rightarrow> [] | Some s \<Rightarrow> s)"

text \<open>
  The loop \<^verbatim>\<open>for (let chunk = 0; chunk < tabEvents.length; chunk += PER_LINE)\<close> with
  \<^verbatim>\<open>PER_LINE = 8\<close>; \<^verbatim>\<open>tabEvents.slice(chunk, chunk + PER_LINE)\<close> is
  \<open>take 8 (drop chunk tabEvents)\<close>.
\<close>

function render_chunks :: "mappedEvent list \<Rightarrow> nat \<Rightarrow> string list \<Rightarrow> error + string list" where
  "render_chunks tabEvents chunk lines =
     (if chunk < length tabEvents then
        (let slice = take 8 (drop chunk tabEvents);
             lines1 = (if list_ex (\<lambda>e. truthy (mappedEvent.chord e)) slice
                       then lines @ [''    '' @ concat (map (\<lambda>e. padEnd (chord_or_empty (mappedEvent.chord e)) 6 (CHR '' '')) slice)]
                       else lines)
         in case string_rows slice 0 lines1 of
              Inl e \<Rightarrow> Inl e
            | Inr lines2 \<Rightarrow> render_chunks tabEvents (chunk + 8) (lines2 @ [[]]))
      else Inr lines)"
  by pat_completeness auto
termination
  by (relation "measure (\<lambda>(tabEvents, chunk, lines). length tabEvents - chunk)") auto

declare render_chunks.simps [simp del]

definition renderAsciiTab :: "mappedEvent list \<Rightarrow> error + string" where
  "renderAsciiTab tabEvents =
     (case render_chunks tabEvents 0 [] of
        Inl e \<Rightarrow> Inl e
      | Inr lines \<Rightarrow> Inr (join [CHR 0x0A] lines))"

subsection \<open>The tablature in the words of the specification\<close>

text \<open>
  The positions of a well-formed mapped event, the events that carry a label, the
  consecutive blocks of up to 8 events, the label row, the cell of one event in the row
  of one string, the row of a string, and the lines of a block.
\<close>

definition well_formed :: "mappedEvent \<Rightarrow> bool" where
  "well_formed ev = list_all (\<lambda>p. p \<noteq> None) (mappedEvent.positions ev)"

definition chosen :: "mappedEvent \<Rightarrow> position list" where
  "chosen ev = map the (mappedEvent.positions ev)"

definition has_label :: "mappedEvent \<Rightarrow> bool" where
  "has_label ev = (mappedEvent.chord ev \<noteq> None \<and> mappedEvent.chord ev \<noteq> Some [])"

fun spec_blocks :: "'a list \<Rightarrow> 'a list list" where
  "spec_blocks xs = (if xs = [] then [] else take 8 xs # spec_blocks (drop 8 xs))"

declare spec_blocks.simps [simp del]

definition spec_label_row :: "mappedEvent list \<Rightarrow> string" where
  "spec_label_row blk =
     ''    '' @ concat (map (\<lambda>ev. padEnd (case mappedEvent.chord ev of None \<Rightarrow> [] | Some l \<Rightarrow> l) 6 (CHR '' '')) blk)"

definition spec_cell :: "nat \<Rightarrow> mappedEvent \<Rightarrow> string" where
  "spec_cell s ev =
     ''-'' @ padEnd (case find (\<lambda>p. string p = s) (chosen ev) of
                       Some p \<Rightarrow> String (fret p)
                     | None \<Rightarrow> ''-'') 5 (CHR ''-'')"

definition spec_row :: "mappedEvent list \<Rightarrow> nat \<Rightarrow> string" where
  "spec_row blk s = [''eBGDAE'' ! s] @ ''|'' @ concat (map (spec_cell s) blk) @ ''|''"

definition spec_block_lines :: "mappedEvent list \<Rightarrow> string list" where
  "spec_block_lines blk =
     (if list_ex has_label blk then [spec_label_row blk] else [])
     @ map (spec_row blk) [0..<6] @ [[]]"

definition spec_render :: "mappedEvent list \<Rightarrow> string" where
  "spec_render evs = join [CHR 0x0A] (concat (map spec_block_lines (spec_blocks evs)))"

subsection \<open>Facts about the candidate generator\<close>

lemma getCandidates_loop_eq:
  "s \<le> 6 \<Longrightarrow> length opn = 6 \<Longrightarrow>
   getCandidates_loop p opn mf s acc =
     acc @ map (\<lambda>i. \<lparr>string = i, fret = p - opn ! i\<rparr>)
             (filter (\<lambda>i. 0 \<le> p - opn ! i \<and> p - opn ! i \<le> mf) [s..<6])"
proof (induction p opn mf s acc rule: getCandidates_loop.induct)
  case (1 midiNote opn maxFret s candidates)
  show ?case
  proof (cases "s < 6")
    case True
    then have up: "[s..<6] = s # [Suc s..<6]"
      by (simp add: upt_conv_Cons)
    from True "1.prems" have len: "s < length opn" by simp
    from True have le: "Suc s \<le> 6" by simp
    show ?thesis
      using True len "1.IH" [OF True refl le "1.prems"(2)]
      by (subst getCandidates_loop.simps) (simp add: up Let_def)
  next
    case False
    with "1.prems" have "s = 6" by simp
    then show ?thesis
      by (subst getCandidates_loop.simps) simp
  qed
qed

lemma getCandidates_open_eq:
  "length opn = 6 \<Longrightarrow>
   getCandidates_open p opn mf =
     map (\<lambda>i. \<lparr>string = i, fret = p - opn ! i\<rparr>)
       (filter (\<lambda>i. 0 \<le> p - opn ! i \<and> p - opn ! i \<le> mf) [0..<6])"
  by (simp add: getCandidates_open_def getCandidates_loop_eq)

lemma length_TUNINGS [simp]: "length (tuningEntry.notes (TUNINGS t)) = 6"
  by (cases t) (simp_all add: TUNINGS_def)

lemma getCandidates_eq:
  "getCandidates p t mf =
     map (\<lambda>i. \<lparr>string = i, fret = p - tuningEntry.notes (TUNINGS t) ! i\<rparr>)
       (filter (\<lambda>i. 0 \<le> p - tuningEntry.notes (TUNINGS t) ! i
                   \<and> p - tuningEntry.notes (TUNINGS t) ! i \<le> mf) [0..<6])"
  by (simp add: getCandidates_def getCandidates_open_eq)

lemma sorted_wrt_map_filter_upt:
  "sorted_wrt (<) (map string (map (\<lambda>i. \<lparr>string = i, fret = g i\<rparr>) (filter P [a..<b])))"
proof -
  have "map string (map (\<lambda>i. \<lparr>string = i, fret = g i\<rparr>) (filter P [a..<b])) = filter P [a..<b]"
    by (simp add: comp_def)
  moreover have "sorted_wrt (<) (filter P [a..<b])"
    by (rule sorted_wrt_filter) (simp add: sorted_wrt_upt)
  ultimately show ?thesis by simp
qed

text \<open>
  Claim C4. For every integer pitch, every tuning of six open-string pitches and every
  fret bound, the candidate generator returns exactly the positions \<open>(s, f)\<close> with
  \<open>f = p - open[s]\<close> and \<open>0 \<le> f \<le> maxFret\<close>, in ascending order of the string index,
  and the empty list when no string satisfies the bound. The named tunings of the
  table are instances.
\<close>

theorem getCandidates_exact:
  assumes "length opn = 6"
  shows "getCandidates_open p opn mf =
           map (\<lambda>s. \<lparr>string = s, fret = p - opn ! s\<rparr>)
             (filter (\<lambda>s. 0 \<le> p - opn ! s \<and> p - opn ! s \<le> mf) [0..<6])
       \<and> set (getCandidates_open p opn mf) =
           {\<lparr>string = s, fret = p - opn ! s\<rparr> | s. s < 6 \<and> 0 \<le> p - opn ! s \<and> p - opn ! s \<le> mf}
       \<and> sorted_wrt (<) (map string (getCandidates_open p opn mf))
       \<and> ((\<forall>s < 6. \<not> (0 \<le> p - opn ! s \<and> p - opn ! s \<le> mf))
            \<longrightarrow> getCandidates_open p opn mf = [])
       \<and> getCandidates p t mf = getCandidates_open p (tuningEntry.notes (TUNINGS t)) mf
       \<and> length (tuningEntry.notes (TUNINGS t)) = 6"
proof -
  note eq = getCandidates_open_eq [OF assms, of p mf]
  have 1: "set (getCandidates_open p opn mf) =
           {\<lparr>string = s, fret = p - opn ! s\<rparr> | s. s < 6 \<and> 0 \<le> p - opn ! s \<and> p - opn ! s \<le> mf}"
    unfolding eq by auto
  have 2: "sorted_wrt (<) (map string (getCandidates_open p opn mf))"
    unfolding eq by (rule sorted_wrt_map_filter_upt)
  have 3: "(\<forall>s < 6. \<not> (0 \<le> p - opn ! s \<and> p - opn ! s \<le> mf))
            \<longrightarrow> getCandidates_open p opn mf = []"
    unfolding eq by (auto simp: filter_empty_conv)
  show ?thesis
    using eq 1 2 3 by (simp add: getCandidates_def)
qed

theorem getCandidates_exact_witness:
  "length [64, 59, 55, 50, 45, 40 :: int] = 6
   \<and> getCandidates_open 59 [64, 59, 55, 50, 45, 40] 22 =
       [\<lparr>string = 1, fret = 0\<rparr>, \<lparr>string = 2, fret = 4\<rparr>, \<lparr>string = 3, fret = 9\<rparr>,
        \<lparr>string = 4, fret = 14\<rparr>, \<lparr>string = 5, fret = 19\<rparr>]
   \<and> getCandidates_open 30 [64, 59, 55, 50, 45, 40] 22 = []"
proof -
  have h: "length [64, 59, 55, 50, 45, 40 :: int] = 6" by simp
  have up: "[0..<6] = [0, 1, 2, 3, 4, 5]" by (simp add: upt_rec)
  from getCandidates_exact [OF h, of 59 22 standard]
  have a: "getCandidates_open 59 [64, 59, 55, 50, 45, 40] 22 =
       [\<lparr>string = 1, fret = 0\<rparr>, \<lparr>string = 2, fret = 4\<rparr>, \<lparr>string = 3, fret = 9\<rparr>,
        \<lparr>string = 4, fret = 14\<rparr>, \<lparr>string = 5, fret = 19\<rparr>]"
    by (simp add: up)
  from getCandidates_exact [OF h, of 30 22 standard]
  have b: "getCandidates_open 30 [64, 59, 55, 50, 45, 40] 22 = []"
    by (simp add: up)
  from h a b show ?thesis by simp
qed

subsection \<open>Facts about double-precision arithmetic\<close>

lemma pow2_bitlen:
  assumes "0 < (n::int)"
  shows "(2::rat) powi (bitlen n - 1) \<le> of_int n" and "of_int n < (2::rat) powi bitlen n"
proof -
  from bitlen_bounds [OF assms]
  have lo: "2 ^ nat (bitlen n - 1) \<le> n" and hi: "n < 2 ^ nat (bitlen n)" by simp_all
  from assms have b: "1 \<le> bitlen n"
    using bitlen_eq_zero_iff [of n] bitlen_nonneg [of n] by linarith
  have "(2::rat) powi (bitlen n - 1) = 2 ^ nat (bitlen n - 1)"
    using b by (simp add: power_int_def)
  also have "\<dots> = of_int (2 ^ nat (bitlen n - 1))" by simp
  also have "\<dots> \<le> of_int n" using lo by (simp only: of_int_le_iff)
  finally show "(2::rat) powi (bitlen n - 1) \<le> of_int n" .
  have "(of_int n :: rat) < of_int (2 ^ nat (bitlen n))" using hi by (simp only: of_int_less_iff)
  also have "\<dots> = 2 ^ nat (bitlen n)" by simp
  also have "\<dots> = (2::rat) powi bitlen n" using b by (simp add: power_int_def)
  finally show "of_int n < (2::rat) powi bitlen n" .
qed

lemma ilog2_bounds:
  assumes "0 < x"
  shows "2 powi ilog2 x \<le> x" and "x < 2 powi (ilog2 x + 1)"
proof -
  obtain p q where pq: "quotient_of x = (p, q)" by (cases "quotient_of x")
  then have q: "0 < q" by (rule quotient_of_denom_pos)
  from pq have x: "x = of_int p / of_int q" by (rule quotient_of_div)
  with assms q have p: "0 < p" by (simp add: zero_less_divide_iff)
  let ?e = "bitlen p - bitlen q"
  have qpos: "(0::rat) < of_int q" using q by simp
  have lower: "2 powi (?e - 1) < x"
  proof -
    have "(2::rat) powi (?e - 1) * of_int q < 2 powi (?e - 1) * 2 powi bitlen q"
      using pow2_bitlen(2) [OF q] by (simp add: mult_strict_left_mono)
    also have "\<dots> = 2 powi (bitlen p - 1)"
      by (simp add: power_int_add [symmetric])
    also have "\<dots> \<le> of_int p" using pow2_bitlen(1) [OF p] .
    finally show ?thesis using qpos by (simp add: x pos_less_divide_eq)
  qed
  have upper: "x < 2 powi (?e + 1)"
  proof -
    have "of_int p < (2::rat) powi bitlen p" using pow2_bitlen(2) [OF p] .
    also have "\<dots> = 2 powi (?e + 1) * 2 powi (bitlen q - 1)"
      by (simp add: power_int_add [symmetric])
    also have "\<dots> \<le> 2 powi (?e + 1) * of_int q"
      using pow2_bitlen(1) [OF q] by (simp add: mult_left_mono)
    finally show ?thesis using qpos by (simp add: x pos_divide_less_eq)
  qed
  show "2 powi ilog2 x \<le> x"
    using lower by (auto simp: ilog2_def pq Let_def)
  show "x < 2 powi (ilog2 x + 1)"
    using upper by (auto simp: ilog2_def pq Let_def not_le)
qed

lemma round_half_even_near: "\<bar>of_int (round_half_even q) - q\<bar> \<le> 1 / 2"
proof -
  have "of_int \<lfloor>q\<rfloor> \<le> q" "q < of_int \<lfloor>q\<rfloor> + 1" by linarith+
  then show ?thesis
    by (auto simp: round_half_even_def Let_def abs_le_iff)
qed

lemma round_half_even_ge: "of_int n \<le> q \<Longrightarrow> n \<le> round_half_even q"
proof -
  assume "of_int n \<le> q"
  then have "n \<le> \<lfloor>q\<rfloor>" by (simp add: le_floor_iff)
  then show ?thesis by (auto simp: round_half_even_def Let_def)
qed

lemma fl_pos: assumes "0 < x" shows "0 < fl x"
proof -
  let ?u = "(2::rat) powi (ilog2 x - 52)"
  have u: "0 < ?u" by simp
  have "?u * 2 ^ 52 = 2 powi ilog2 x" by (simp add: power_int_diff)
  also have "\<dots> \<le> x" using ilog2_bounds(1) [OF assms] .
  finally have "of_int (2 ^ 52) \<le> x / ?u"
    using u by (simp add: pos_le_divide_eq mult.commute)
  then have "2 ^ 52 \<le> round_half_even (x / ?u)" by (rule round_half_even_ge)
  then have "0 < round_half_even (x / ?u)" by simp
  then have "0 < (of_int (round_half_even (x / ?u)) :: rat) * ?u"
    using u by simp
  with assms show ?thesis by (simp add: fl_def Let_def)
qed

lemma fl_minus: "fl (- x) = - fl x"
  by (simp add: fl_def Let_def)

lemma fl_neg: "x < 0 \<Longrightarrow> fl x < 0"
  using fl_pos [of "- x"] by (simp add: fl_minus)

lemma fl_zero [simp]: "fl 0 = 0"
  by (simp add: fl_def)

lemma fl_less_zero_iff: "fl x < 0 \<longleftrightarrow> x < 0"
  using fl_pos [of x] fl_neg [of x] by (cases "x = 0"; cases "0 < x") (auto simp: not_less)

lemma fl_le_zero_iff: "fl x \<le> 0 \<longleftrightarrow> x \<le> 0"
  using fl_pos [of x] fl_neg [of x] by (cases "x = 0"; cases "0 < x") (auto simp: not_less)

lemma fl_error: "\<bar>fl x - x\<bar> \<le> \<bar>x\<bar> / 2 ^ 53"
proof (cases "x = 0")
  case True
  then show ?thesis by simp
next
  case False
  let ?u = "(2::rat) powi (ilog2 \<bar>x\<bar> - 52)"
  let ?n = "round_half_even (\<bar>x\<bar> / ?u)"
  have u: "0 < ?u" by simp
  from False have ax: "0 < \<bar>x\<bar>" by simp
  have "\<bar>fl x - x\<bar> = \<bar>sgn x * (of_int ?n * ?u - \<bar>x\<bar>)\<bar>"
    using False by (simp add: fl_def Let_def algebra_simps sgn_if)
  also have "\<dots> = \<bar>of_int ?n * ?u - \<bar>x\<bar>\<bar>"
    using False by (simp add: abs_mult sgn_if)
  also have "\<dots> = \<bar>of_int ?n - \<bar>x\<bar> / ?u\<bar> * ?u"
  proof -
    have "of_int ?n * ?u - \<bar>x\<bar> = (of_int ?n - \<bar>x\<bar> / ?u) * ?u"
      using u by (simp add: algebra_simps)
    then show ?thesis using u by (simp add: abs_mult)
  qed
  also have "\<dots> \<le> (1 / 2) * ?u"
    using round_half_even_near [of "\<bar>x\<bar> / ?u"] u by (intro mult_right_mono) simp_all
  also have "\<dots> = 2 powi ilog2 \<bar>x\<bar> / 2 ^ 53"
  proof -
    have "?u = 2 powi ilog2 \<bar>x\<bar> / 2 powi 52"
      by (simp add: power_int_diff)
    then show ?thesis by simp
  qed
  also have "\<dots> \<le> \<bar>x\<bar> / 2 ^ 53"
    using ilog2_bounds(1) [OF ax] by (simp add: divide_right_mono)
  finally show ?thesis .
qed


lemma ilog2_unique:
  assumes "0 < x" and "2 powi e \<le> x" and "x < 2 powi (e + 1)"
  shows "ilog2 x = e"
proof (rule ccontr)
  assume ne: "ilog2 x \<noteq> e"
  note b = ilog2_bounds [OF assms(1)]
  show False
  proof (cases "ilog2 x < e")
    case True
    then have "ilog2 x + 1 \<le> e" by simp
    then have "(2::rat) powi (ilog2 x + 1) \<le> 2 powi e"
      by (rule power_int_increasing) simp
    with assms(2) b(2) show False by simp
  next
    case False
    with ne have "e + 1 \<le> ilog2 x" by simp
    then have "(2::rat) powi (e + 1) \<le> 2 powi ilog2 x"
      by (rule power_int_increasing) simp
    with assms(3) b(1) show False by simp
  qed
qed

lemma round_half_even_eqI:
  assumes "\<bar>q - of_int n\<bar> * 2 < 1 \<or> (\<bar>q - of_int n\<bar> * 2 = 1 \<and> even n)"
  shows "round_half_even q = n"
proof (cases "of_int n \<le> q")
  case True
  with assms have "q < of_int n + 1" by auto
  with True have f: "\<lfloor>q\<rfloor> = n" by (simp add: floor_eq_iff)
  from assms True show ?thesis
    by (auto simp: round_half_even_def Let_def f)
next
  case False
  with assms have "of_int (n - 1) \<le> q" "q < of_int (n - 1) + 1" by auto
  then have f: "\<lfloor>q\<rfloor> = n - 1" by (simp add: floor_eq_iff)
  from assms False show ?thesis
    by (auto simp: round_half_even_def Let_def f)
qed

lemma fl_eqI:
  assumes "2 ^ 52 \<le> x * 2 ^ j" and "x * 2 ^ j < 2 ^ 53"
    and "\<bar>x * 2 ^ j - of_int n\<bar> * 2 < 1 \<or> (\<bar>x * 2 ^ j - of_int n\<bar> * 2 = 1 \<and> even n)"
    and "y = of_int n / 2 ^ j"
  shows "fl x = y"
proof -
  have p: "(0::rat) < 2 ^ j" by simp
  from assms(1) have "0 < x * 2 ^ j" by (rule less_le_trans [rotated]) simp
  with p have x: "0 < x" by (simp add: zero_less_mult_iff)
  have pj: "(2::rat) powi (52 - int j) = 2 ^ 52 / 2 ^ j"
    by (simp add: power_int_diff)
  have pj1: "(2::rat) powi (52 - int j + 1) = 2 ^ 53 / 2 ^ j"
  proof -
    have "(2::rat) powi (52 - int j + 1) = 2 powi (53 - int j)" by simp
    also have "\<dots> = 2 ^ 53 / 2 ^ j" by (simp add: power_int_diff)
    finally show ?thesis .
  qed
  have lo: "2 powi (52 - int j) \<le> x"
    unfolding pj using assms(1) p by (simp add: pos_divide_le_eq)
  have hi: "x < 2 powi (52 - int j + 1)"
    unfolding pj1 using assms(2) p by (simp add: pos_less_divide_eq)
  have e: "ilog2 x = 52 - int j"
    using x lo hi by (rule ilog2_unique)
  have u: "(2::rat) powi (ilog2 x - 52) = 1 / 2 ^ j"
    by (simp add: e power_int_minus_divide)
  have r: "round_half_even (x * 2 ^ j) = n"
    using assms(3) by (rule round_half_even_eqI)
  have "fl x = of_int (round_half_even (x / (1 / 2 ^ j))) * (1 / 2 ^ j)"
    using x by (simp add: fl_def Let_def u)
  also have "\<dots> = of_int n / 2 ^ j"
    using r by simp
  finally show ?thesis using assms(4) by simp
qed

lemma fl_eqI_neg:
  assumes "2 ^ 52 \<le> (- x) * 2 ^ j" and "(- x) * 2 ^ j < 2 ^ 53"
    and "\<bar>(- x) * 2 ^ j - of_int n\<bar> * 2 < 1 \<or> (\<bar>(- x) * 2 ^ j - of_int n\<bar> * 2 = 1 \<and> even n)"
    and "y = - (of_int n / 2 ^ j)"
  shows "fl x = y"
proof -
  have "fl (- x) = of_int n / 2 ^ j"
    using assms(1-3) by (rule fl_eqI) simp
  with fl_minus [of x] assms(4) show ?thesis by simp
qed

text \<open>
  The comparator \<^verbatim>\<open>a.cost - b.cost\<close> is negative, zero or positive as the difference
  is: the rounded difference of two doubles has the sign of the exact one. Sorting with
  it is the stable sort by cost.
\<close>

lemma byCost_le [simp]: "byCost a b \<le> 0 \<longleftrightarrow> cost a \<le> cost b"
  by (simp add: byCost_def dsub_def fl_le_zero_iff)

lemma insort_cmp_key:
  "(\<And>a b. cmp a b \<le> 0 \<longleftrightarrow> f a \<le> f b) \<Longrightarrow> insort_cmp cmp x xs = insort_key f x xs"
  by (induction xs) simp_all

lemma sort_cmp_key:
  "(\<And>a b. cmp a b \<le> 0 \<longleftrightarrow> f a \<le> f b) \<Longrightarrow> sort_cmp cmp xs = sort_key f xs"
  by (induction xs) (simp_all add: sort_cmp_def sort_key_def insort_cmp_key)

lemma sort_byCost: "sort_cmp byCost xs = sort_key cost xs"
  by (rule sort_cmp_key) simp

lemma dmul_commute: "dmul a b = dmul b a"
  by (simp add: dmul_def mult.commute)

subsection \<open>Facts about the beam search\<close>

lemma spanWith_chordSpan: "spanWith ps c = chordSpan (ps @ [c])"
  by (simp add: spanWith_def chordSpan_def)

lemma expand_state_eq:
  "expand_state st cs nxt = nxt @ map (child st) (filter (admissible st) cs)"
  by (induction cs arbitrary: nxt) (simp_all add: child_def admissible_def Let_def)

lemma expand_beam_eq:
  "expand_beam beam cs nxt =
     nxt @ concat (map (\<lambda>st. map (child st) (filter (admissible st) cs)) beam)"
  by (induction beam arbitrary: nxt) (simp_all add: expand_state_eq)

lemma beam_step_eq:
  "beam_step beam cs = take 20 (sort_key cost (expand_beam beam cs []))"
  by (simp add: beam_step_def sort_byCost)

lemma beam_loop_append:
  "beam_loop (css @ [cs]) beam = beam_step (beam_loop css beam) cs"
  by (induction css arbitrary: beam) (simp_all add: beam_step_def)

lemma beam_loop_foldl: "beam_loop css beam = foldl beam_step beam css"
  by (induction css arbitrary: beam) (simp_all add: beam_step_def)

lemma set_beam_step_subset:
  "set (beam_step beam cs) \<subseteq> {child st c | st c. st \<in> set beam \<and> c \<in> set cs \<and> admissible st c}"
proof -
  have "set (beam_step beam cs) \<subseteq> set (sort_key cost (expand_beam beam cs []))"
    unfolding beam_step_eq by (rule set_take_subset)
  also have "\<dots> = set (expand_beam beam cs [])" by simp
  also have "\<dots> \<subseteq> {child st c | st c. st \<in> set beam \<and> c \<in> set cs \<and> admissible st c}"
    by (auto simp: expand_beam_eq)
  finally show ?thesis .
qed

lemma Math_max_Max: "xs \<noteq> [] \<Longrightarrow> Math_max xs = Max (set xs)"
  by (cases xs) (simp_all add: Max.set_eq_fold [symmetric])

lemma Math_min_Min: "xs \<noteq> [] \<Longrightarrow> Math_min xs = Min (set xs)"
  by (cases xs) (simp_all add: Min.set_eq_fold [symmetric])

lemma chordSpan_Nil [simp]: "chordSpan [] = 0"
  by (simp add: chordSpan_def)

lemma state_inv_initial: "st \<in> set initialBeam \<Longrightarrow> state_inv [] st"
  by (simp add: initialBeam_def state_inv_def)

lemma child_simps [simp]:
  "beamState.positions (child st c) = beamState.positions st @ [c]"
  "used (child st c) = insert (string c) (used st)"
  by (simp_all add: child_def)

lemma state_inv_child:
  assumes "state_inv css st" and "c \<in> set cs" and "admissible st c"
  shows "state_inv (css @ [cs]) (child st c)"
proof -
  from assms(1) have a: "list_all2 (\<lambda>p cs. p \<in> set cs) (beamState.positions st) css"
    and u: "used st = set (map string (beamState.positions st))"
    and d: "distinct (map string (beamState.positions st))"
    by (simp_all add: state_inv_def)
  from assms(3) have n: "string c \<notin> used st" and sp: "spanWith (beamState.positions st) c \<le> 5"
    by (simp_all add: admissible_def)
  have "list_all2 (\<lambda>p cs. p \<in> set cs) (beamState.positions st @ [c]) (css @ [cs])"
    using a assms(2) by (simp add: list_all2_appendI)
  moreover have "distinct (map string (beamState.positions st @ [c]))"
    using d n u by simp
  moreover have "chordSpan (beamState.positions st @ [c]) \<le> 5"
    using sp by (simp add: spanWith_chordSpan)
  ultimately show ?thesis
    using u by (simp add: state_inv_def)
qed

lemma beam_step_inv:
  assumes "\<forall>st \<in> set beam. state_inv css st"
  shows "\<forall>st \<in> set (beam_step beam cs). state_inv (css @ [cs]) st"
proof
  fix st' assume "st' \<in> set (beam_step beam cs)"
  with set_beam_step_subset [of beam cs]
  obtain st c where "st' = child st c" "st \<in> set beam" "c \<in> set cs" "admissible st c"
    by blast
  with assms show "state_inv (css @ [cs]) st'"
    by (simp add: state_inv_child)
qed

lemma beam_loop_inv: "\<forall>st \<in> set (beam_loop css initialBeam). state_inv css st"
proof (induction css rule: rev_induct)
  case Nil
  show ?case by (simp add: state_inv_initial)
next
  case (snoc cs css)
  then show ?case
    unfolding beam_loop_append by (rule beam_step_inv)
qed

lemma state_inv_length: "state_inv css st \<Longrightarrow> length (beamState.positions st) = length css"
  by (auto simp: state_inv_def dest: list_all2_lengthD)

lemma distinct_strings_le6:
  assumes "distinct (map string ps)" and "\<forall>p \<in> set ps. string p < 6"
  shows "length ps \<le> 6"
proof -
  have "length ps = card (set (map string ps))"
    using assms(1) by (metis distinct_card length_map)
  also have "\<dots> \<le> card {..<6::nat}"
    by (rule card_mono) (use assms(2) in auto)
  finally show ?thesis by simp
qed

lemma state_inv_le6:
  assumes "state_inv css st" and "\<forall>cs \<in> set css. \<forall>c \<in> set cs. string c < 6"
  shows "length css \<le> 6"
proof -
  from assms(1) have a: "list_all2 (\<lambda>p cs. p \<in> set cs) (beamState.positions st) css"
    and d: "distinct (map string (beamState.positions st))"
    by (simp_all add: state_inv_def)
  have "\<forall>p \<in> set (beamState.positions st). string p < 6"
  proof
    fix p assume "p \<in> set (beamState.positions st)"
    then obtain i where i: "i < length (beamState.positions st)" "beamState.positions st ! i = p"
      by (auto simp: in_set_conv_nth)
    with a have "p \<in> set (css ! i)" "i < length css"
      by (auto simp: list_all2_conv_all_nth)
    with assms(2) show "string p < 6" by auto
  qed
  with d have "length (beamState.positions st) \<le> 6" by (rule distinct_strings_le6)
  with list_all2_lengthD [OF a] show ?thesis by simp
qed

lemma beam_empty_over6:
  assumes "6 < length css" and "\<forall>cs \<in> set css. \<forall>c \<in> set cs. string c < 6"
  shows "beam_loop css initialBeam = []"
proof (rule ccontr)
  assume "beam_loop css initialBeam \<noteq> []"
  then obtain st where "st \<in> set (beam_loop css initialBeam)"
    by (cases "beam_loop css initialBeam") auto
  with beam_loop_inv have "state_inv css st" by blast
  from state_inv_le6 [OF this assms(2)] assms(1) show False by simp
qed

lemma string_getCandidates: "c \<in> set (getCandidates p t mf) \<Longrightarrow> string c < 6"
  by (auto simp: getCandidates_eq)

lemma fret_getCandidates: "c \<in> set (getCandidates p t mf) \<Longrightarrow> 0 \<le> fret c \<and> fret c \<le> mf"
  by (auto simp: getCandidates_eq)

subsection \<open>The optimizer on concrete inputs\<close>

text \<open>
  The candidate sets of the pitches used below.
\<close>

lemma candidates_table:
  shows "getCandidates 69 standard 22 = [\<lparr>string = 0, fret = 5\<rparr>, \<lparr>string = 1, fret = 10\<rparr>, \<lparr>string = 2, fret = 14\<rparr>, \<lparr>string = 3, fret = 19\<rparr>]"
    and "getCandidates 64 standard 22 = [\<lparr>string = 0, fret = 0\<rparr>, \<lparr>string = 1, fret = 5\<rparr>, \<lparr>string = 2, fret = 9\<rparr>, \<lparr>string = 3, fret = 14\<rparr>, \<lparr>string = 4, fret = 19\<rparr>]"
    and "getCandidates 55 standard 22 = [\<lparr>string = 2, fret = 0\<rparr>, \<lparr>string = 3, fret = 5\<rparr>, \<lparr>string = 4, fret = 10\<rparr>, \<lparr>string = 5, fret = 15\<rparr>]"
    and "getCandidates 83 standard 22 = [\<lparr>string = 0, fret = 19\<rparr>]"
    and "getCandidates 50 standard 22 = [\<lparr>string = 3, fret = 0\<rparr>, \<lparr>string = 4, fret = 5\<rparr>, \<lparr>string = 5, fret = 10\<rparr>]"
    and "getCandidates 52 standard 22 = [\<lparr>string = 3, fret = 2\<rparr>, \<lparr>string = 4, fret = 7\<rparr>, \<lparr>string = 5, fret = 12\<rparr>]"
    and "getCandidates 59 standard 22 = [\<lparr>string = 1, fret = 0\<rparr>, \<lparr>string = 2, fret = 4\<rparr>, \<lparr>string = 3, fret = 9\<rparr>, \<lparr>string = 4, fret = 14\<rparr>, \<lparr>string = 5, fret = 19\<rparr>]"
    and "getCandidates 40 standard 22 = [\<lparr>string = 5, fret = 0\<rparr>]"
    and "getCandidates 47 standard 22 = [\<lparr>string = 4, fret = 2\<rparr>, \<lparr>string = 5, fret = 7\<rparr>]"
    and "getCandidates 30 standard 22 = []"
    and "getCandidates 56 dropD 22 = [\<lparr>string = 2, fret = 1\<rparr>, \<lparr>string = 3, fret = 6\<rparr>, \<lparr>string = 4, fret = 11\<rparr>, \<lparr>string = 5, fret = 18\<rparr>]"
    and "getCandidates 77 dropD 22 = [\<lparr>string = 0, fret = 13\<rparr>, \<lparr>string = 1, fret = 18\<rparr>, \<lparr>string = 2, fret = 22\<rparr>]"
    and "getCandidates 62 standard 22 = [\<lparr>string = 1, fret = 3\<rparr>, \<lparr>string = 2, fret = 7\<rparr>, \<lparr>string = 3, fret = 12\<rparr>, \<lparr>string = 4, fret = 17\<rparr>, \<lparr>string = 5, fret = 22\<rparr>]"
    and "getCandidates 57 standard 22 = [\<lparr>string = 2, fret = 2\<rparr>, \<lparr>string = 3, fret = 7\<rparr>, \<lparr>string = 4, fret = 12\<rparr>, \<lparr>string = 5, fret = 17\<rparr>]"
  by code_simp+

text \<open>
  Every operation on doubles that the evaluations below perform, with its rounded
  result: each line is checked against the definition of \<open>fl\<close> by \<open>fl_eqI\<close>.
\<close>

lemma double_table:
  shows "fl (1 / 20) = 3602879701896397 / 72057594037927936"
    and "dmul 5 (3602879701896397 / 72057594037927936) = 1 / 4"
    and "dadd 0 (1 / 4) = 1 / 4"
    and "fl (3 / 10) = 5404319552844595 / 18014398509481984"
    and "dmul 0 (5404319552844595 / 18014398509481984) = 0"
    and "dadd (1 / 4) 0 = 1 / 4"
    and "dmul 10 (3602879701896397 / 72057594037927936) = 1 / 2"
    and "dadd 0 (1 / 2) = 1 / 2"
    and "dadd (1 / 2) 0 = 1 / 2"
    and "dmul 14 (3602879701896397 / 72057594037927936) = 6305039478318695 / 9007199254740992"
    and "dadd 0 (6305039478318695 / 9007199254740992) = 6305039478318695 / 9007199254740992"
    and "dadd (6305039478318695 / 9007199254740992) 0 = 6305039478318695 / 9007199254740992"
    and "dmul 19 (3602879701896397 / 72057594037927936) = 8556839292003943 / 9007199254740992"
    and "dadd 0 (8556839292003943 / 9007199254740992) = 8556839292003943 / 9007199254740992"
    and "dadd (8556839292003943 / 9007199254740992) 0 = 8556839292003943 / 9007199254740992"
    and "dadd (1 / 4) (1 / 4) = 1 / 2"
    and "dmul 9 (3602879701896397 / 72057594037927936) = 8106479329266893 / 18014398509481984"
    and "dadd (1 / 4) (8106479329266893 / 18014398509481984) = 3152519739159347 / 4503599627370496"
    and "dmul 4 (5404319552844595 / 18014398509481984) = 5404319552844595 / 4503599627370496"
    and "dadd (3152519739159347 / 4503599627370496) (5404319552844595 / 4503599627370496) = 4278419646001971 / 2251799813685248"
    and "dmul 0 (3602879701896397 / 72057594037927936) = 0"
    and "fl (1 / 5) = 3602879701896397 / 18014398509481984"
    and "dsub (1 / 2) (3602879701896397 / 18014398509481984) = 5404319552844595 / 18014398509481984"
    and "dadd (1 / 2) (8106479329266893 / 18014398509481984) = 4278419646001971 / 4503599627370496"
    and "dmul 1 (5404319552844595 / 18014398509481984) = 5404319552844595 / 18014398509481984"
    and "dadd (4278419646001971 / 4503599627370496) (5404319552844595 / 18014398509481984) = 5 / 4"
    and "dadd (1 / 2) (6305039478318695 / 9007199254740992) = 1351079888211149 / 1125899906842624"
    and "dadd (1351079888211149 / 1125899906842624) (5404319552844595 / 4503599627370496) = 1351079888211149 / 562949953421312"
    and "dsub (6305039478318695 / 9007199254740992) (3602879701896397 / 18014398509481984) = 1 / 2"
    and "dadd (6305039478318695 / 9007199254740992) (6305039478318695 / 9007199254740992) = 6305039478318695 / 4503599627370496"
    and "dadd (6305039478318695 / 4503599627370496) 0 = 6305039478318695 / 4503599627370496"
    and "dadd (6305039478318695 / 9007199254740992) (8556839292003943 / 9007199254740992) = 7430939385161319 / 4503599627370496"
    and "dmul 5 (5404319552844595 / 18014398509481984) = 3 / 2"
    and "dadd (7430939385161319 / 4503599627370496) (3 / 2) = 1773292353277133 / 562949953421312"
    and "dsub (8556839292003943 / 9007199254740992) (3602879701896397 / 18014398509481984) = 3 / 4"
    and "dadd (8556839292003943 / 9007199254740992) (8556839292003943 / 9007199254740992) = 8556839292003943 / 4503599627370496"
    and "dadd (8556839292003943 / 4503599627370496) 0 = 8556839292003943 / 4503599627370496"
    and "dadd (5404319552844595 / 18014398509481984) 0 = 5404319552844595 / 18014398509481984"
    and "dsub (5404319552844595 / 18014398509481984) (3602879701896397 / 18014398509481984) = 900719925474099 / 9007199254740992"
    and "dadd (5404319552844595 / 18014398509481984) (1 / 4) = 2476979795053773 / 4503599627370496"
    and "dadd (2476979795053773 / 4503599627370496) (3 / 2) = 2308094809027379 / 1125899906842624"
    and "dadd (5404319552844595 / 18014398509481984) (1 / 2) = 3602879701896397 / 4503599627370496"
    and "dadd (3602879701896397 / 4503599627370496) 0 = 3602879701896397 / 4503599627370496"
    and "dmul 15 (3602879701896397 / 72057594037927936) = 3 / 4"
    and "dadd (5404319552844595 / 18014398509481984) (3 / 4) = 4728779608739021 / 4503599627370496"
    and "dadd (4728779608739021 / 4503599627370496) (3 / 2) = 2871044762448691 / 1125899906842624"
    and "dadd (1 / 2) (1 / 4) = 3 / 4"
    and "dadd (3 / 4) 0 = 3 / 4"
    and "dadd (1 / 2) (1 / 2) = 1"
    and "dadd 1 (3 / 2) = 5 / 2"
    and "dadd 1 (5404319552844595 / 4503599627370496) = 2476979795053773 / 1125899906842624"
    and "dadd (1 / 2) (3 / 4) = 5 / 4"
    and "dadd (5 / 4) (5404319552844595 / 18014398509481984) = 6980579422424269 / 4503599627370496"
    and "dsub (3 / 4) (3602879701896397 / 18014398509481984) = 2476979795053773 / 4503599627370496"
    and "dadd (3 / 4) (3 / 4) = 3 / 2"
    and "dadd (3 / 2) (5404319552844595 / 4503599627370496) = 3039929748475085 / 1125899906842624"
    and "dadd (5 / 4) (1 / 4) = 3 / 2"
    and "dadd (3 / 2) (3 / 2) = 3"
    and "dadd (5 / 4) (1 / 2) = 7 / 4"
    and "dadd (7 / 4) (5404319552844595 / 18014398509481984) = 2308094809027379 / 1125899906842624"
    and "dadd (6305039478318695 / 4503599627370496) (1 / 2) = 8556839292003943 / 4503599627370496"
    and "dadd (8556839292003943 / 4503599627370496) (5404319552844595 / 4503599627370496) = 6980579422424269 / 2251799813685248"
    and "dadd (6305039478318695 / 4503599627370496) (3 / 4) = 1210342399855821 / 562949953421312"
    and "dadd (1210342399855821 / 562949953421312) (5404319552844595 / 18014398509481984) = 2758454771764429 / 1125899906842624"
    and "dadd (4278419646001971 / 2251799813685248) (1 / 4) = 4841369599423283 / 2251799813685248"
    and "dadd (4841369599423283 / 2251799813685248) (5404319552844595 / 4503599627370496) = 1885882343961395 / 562949953421312"
    and "dadd (4278419646001971 / 2251799813685248) (1 / 2) = 5404319552844595 / 2251799813685248"
    and "dadd (5404319552844595 / 2251799813685248) (3 / 2) = 8782019273372467 / 2251799813685248"
    and "dsub (8556839292003943 / 4503599627370496) (3602879701896397 / 18014398509481984) = 1914029841632461 / 1125899906842624"
    and "dadd (8556839292003943 / 4503599627370496) (3 / 4) = 1491817376566477 / 562949953421312"
    and "dadd (1491817376566477 / 562949953421312) (5404319552844595 / 4503599627370496) = 4334714641344103 / 1125899906842624"
    and "dadd (1351079888211149 / 562949953421312) 0 = 1351079888211149 / 562949953421312"
    and "dadd (1351079888211149 / 562949953421312) (5404319552844595 / 4503599627370496) = 4053239664633447 / 1125899906842624"
    and "dsub (4053239664633447 / 1125899906842624) (3602879701896397 / 18014398509481984) = 1914029841632461 / 562949953421312"
    and "dadd (1351079888211149 / 562949953421312) (1 / 2) = 1632554864921805 / 562949953421312"
    and "dadd (1632554864921805 / 562949953421312) (5404319552844595 / 4503599627370496) = 4616189618054759 / 1125899906842624"
    and "dadd (1351079888211149 / 562949953421312) (3 / 4) = 1773292353277133 / 562949953421312"
    and "dadd (1773292353277133 / 562949953421312) (3 / 2) = 2617717283409101 / 562949953421312"
    and "dadd (1773292353277133 / 562949953421312) (3 / 4) = 2195504818343117 / 562949953421312"
    and "dadd (2195504818343117 / 562949953421312) (3 / 2) = 3039929748475085 / 562949953421312"
    and "dadd (1914029841632461 / 1125899906842624) (8556839292003943 / 9007199254740992) = 1491817376566477 / 562949953421312"
    and "dadd (1491817376566477 / 562949953421312) 0 = 1491817376566477 / 562949953421312"
    and "dadd (2758454771764429 / 1125899906842624) (8556839292003943 / 9007199254740992) = 1914029841632461 / 562949953421312"
    and "dadd (1914029841632461 / 562949953421312) (3 / 2) = 2758454771764429 / 562949953421312"
    and "dadd (4334714641344103 / 1125899906842624) (8556839292003943 / 9007199254740992) = 1351079888211149 / 281474976710656"
    and "dadd (1351079888211149 / 281474976710656) (5404319552844595 / 4503599627370496) = 6755399441055745 / 1125899906842624"
    and "dmul 2 (3602879701896397 / 72057594037927936) = 3602879701896397 / 36028797018963968"
    and "dadd 0 (3602879701896397 / 36028797018963968) = 3602879701896397 / 36028797018963968"
    and "dadd (3602879701896397 / 36028797018963968) 0 = 3602879701896397 / 36028797018963968"
    and "dmul 7 (3602879701896397 / 72057594037927936) = 6305039478318695 / 18014398509481984"
    and "dadd 0 (6305039478318695 / 18014398509481984) = 6305039478318695 / 18014398509481984"
    and "dadd (6305039478318695 / 18014398509481984) 0 = 6305039478318695 / 18014398509481984"
    and "dmul 12 (3602879701896397 / 72057594037927936) = 1351079888211149 / 2251799813685248"
    and "dadd 0 (1351079888211149 / 2251799813685248) = 1351079888211149 / 2251799813685248"
    and "dadd (1351079888211149 / 2251799813685248) 0 = 1351079888211149 / 2251799813685248"
    and "dsub (3602879701896397 / 36028797018963968) (3602879701896397 / 18014398509481984) = - (3602879701896397 / 36028797018963968)"
    and "dsub (6305039478318695 / 18014398509481984) (3602879701896397 / 18014398509481984) = 1351079888211149 / 9007199254740992"
    and "dadd (6305039478318695 / 18014398509481984) (1 / 4) = 1351079888211149 / 2251799813685248"
    and "dmul 2 (5404319552844595 / 18014398509481984) = 5404319552844595 / 9007199254740992"
    and "dadd (1351079888211149 / 2251799813685248) (5404319552844595 / 9007199254740992) = 1351079888211149 / 1125899906842624"
    and "dsub (1351079888211149 / 2251799813685248) (3602879701896397 / 18014398509481984) = 7205759403792795 / 18014398509481984"
    and "dadd (1351079888211149 / 2251799813685248) (1 / 2) = 2476979795053773 / 2251799813685248"
    and "dadd (2476979795053773 / 2251799813685248) (5404319552844595 / 9007199254740992) = 1914029841632461 / 1125899906842624"
    and "dadd (- (3602879701896397 / 36028797018963968)) 0 = - (3602879701896397 / 36028797018963968)"
    and "dsub (- (3602879701896397 / 36028797018963968)) (3602879701896397 / 18014398509481984) = - (1351079888211149 / 4503599627370496)"
    and "dadd (1351079888211149 / 9007199254740992) 0 = 1351079888211149 / 9007199254740992"
    and "dsub (1351079888211149 / 9007199254740992) (3602879701896397 / 18014398509481984) = - (900719925474099 / 18014398509481984)"
    and "dadd (1351079888211149 / 9007199254740992) (8106479329266893 / 18014398509481984) = 1351079888211149 / 2251799813685248"
    and "dadd (7205759403792795 / 18014398509481984) 0 = 7205759403792795 / 18014398509481984"
    and "dsub (7205759403792795 / 18014398509481984) (3602879701896397 / 18014398509481984) = 1801439850948199 / 9007199254740992"
    and "dadd (7205759403792795 / 18014398509481984) (8106479329266893 / 18014398509481984) = 1914029841632461 / 2251799813685248"
    and "dmul 3 (5404319552844595 / 18014398509481984) = 2026619832316723 / 2251799813685248"
    and "dadd (1914029841632461 / 2251799813685248) (2026619832316723 / 2251799813685248) = 7 / 4"
    and "dadd (7205759403792795 / 18014398509481984) (6305039478318695 / 9007199254740992) = 2476979795053773 / 2251799813685248"
    and "dadd (1351079888211149 / 1125899906842624) 0 = 1351079888211149 / 1125899906842624"
    and "dadd (1351079888211149 / 1125899906842624) (5404319552844595 / 9007199254740992) = 4053239664633447 / 2251799813685248"
    and "dsub (4053239664633447 / 2251799813685248) (3602879701896397 / 18014398509481984) = 7205759403792795 / 4503599627370496"
    and "dmul 4 (3602879701896397 / 72057594037927936) = 3602879701896397 / 18014398509481984"
    and "dadd (1351079888211149 / 1125899906842624) (3602879701896397 / 18014398509481984) = 6305039478318695 / 4503599627370496"
    and "dadd (6305039478318695 / 4503599627370496) (2026619832316723 / 2251799813685248) = 2589569785738035 / 1125899906842624"
    and "dadd (1914029841632461 / 1125899906842624) 0 = 1914029841632461 / 1125899906842624"
    and "dadd (1914029841632461 / 1125899906842624) (5404319552844595 / 9007199254740992) = 5179139571476071 / 2251799813685248"
    and "dsub (5179139571476071 / 2251799813685248) (3602879701896397 / 18014398509481984) = 4728779608739021 / 2251799813685248"
    and "dadd (1914029841632461 / 1125899906842624) (8106479329266893 / 18014398509481984) = 1210342399855821 / 562949953421312"
    and "dadd (1210342399855821 / 562949953421312) (2026619832316723 / 2251799813685248) = 6867989431740007 / 2251799813685248"
    and "dadd 0 0 = 0"
    and "dsub 0 (3602879701896397 / 18014398509481984) = - (3602879701896397 / 18014398509481984)"
    and "dadd 0 (3 / 4) = 3 / 4"
    and "dadd (- (3602879701896397 / 18014398509481984)) 0 = - (3602879701896397 / 18014398509481984)"
    and "dsub (- (3602879701896397 / 18014398509481984)) (3602879701896397 / 18014398509481984) = - (3602879701896397 / 9007199254740992)"
    and "dadd (- (3602879701896397 / 18014398509481984)) (8106479329266893 / 18014398509481984) = 1 / 4"
    and "dadd (- (3602879701896397 / 18014398509481984)) (6305039478318695 / 9007199254740992) = 1 / 2"
    and "dadd (- (3602879701896397 / 18014398509481984)) (8556839292003943 / 9007199254740992) = 3 / 4"
    and "dsub (1 / 4) (3602879701896397 / 18014398509481984) = 900719925474099 / 18014398509481984"
    and "dadd (1 / 4) (3602879701896397 / 18014398509481984) = 8106479329266893 / 18014398509481984"
    and "dadd (8106479329266893 / 18014398509481984) (5404319552844595 / 18014398509481984) = 3 / 4"
    and "dadd (3 / 4) (6305039478318695 / 9007199254740992) = 1632554864921805 / 1125899906842624"
    and "dadd (1632554864921805 / 1125899906842624) (5404319552844595 / 18014398509481984) = 7881299347898369 / 4503599627370496"
    and "dadd (- (3602879701896397 / 18014398509481984)) (3602879701896397 / 36028797018963968) = - (3602879701896397 / 36028797018963968)"
    and "dadd (- (3602879701896397 / 36028797018963968)) (3602879701896397 / 36028797018963968) = 0"
    and "dadd (- (3602879701896397 / 9007199254740992)) 0 = - (3602879701896397 / 9007199254740992)"
    and "dsub (- (3602879701896397 / 9007199254740992)) (3602879701896397 / 18014398509481984) = - (1351079888211149 / 2251799813685248)"
    and "fl (1 / 10) = 3602879701896397 / 36028797018963968"
    and "dmul 0 (3602879701896397 / 36028797018963968) = 0"
    and "dsub 0 (5404319552844595 / 18014398509481984) = - (5404319552844595 / 18014398509481984)"
    and "fl (1 / 2) = 1 / 2"
    and "dmul 13 (1 / 2) = 13 / 2"
    and "dadd 0 (13 / 2) = 13 / 2"
    and "dsub (13 / 2) (5404319552844595 / 18014398509481984) = 6980579422424269 / 1125899906842624"
    and "dmul 5 (3602879701896397 / 36028797018963968) = 1 / 2"
    and "dmul 6 (1 / 2) = 3"
    and "dadd (1 / 2) 3 = 7 / 2"
    and "dmul 9 (3602879701896397 / 36028797018963968) = 8106479329266893 / 9007199254740992"
    and "dmul 0 (1 / 2) = 0"
    and "dadd (8106479329266893 / 9007199254740992) 0 = 8106479329266893 / 9007199254740992"
    and "dmul 14 (3602879701896397 / 36028797018963968) = 6305039478318695 / 4503599627370496"
    and "dmul 7 (1 / 2) = 7 / 2"
    and "dadd (6305039478318695 / 4503599627370496) (7 / 2) = 2758454771764429 / 562949953421312"
    and "dmul 19 (3602879701896397 / 36028797018963968) = 8556839292003943 / 4503599627370496"
    and "dmul 14 (1 / 2) = 7"
    and "dadd (8556839292003943 / 4503599627370496) 7 = 5010254585449677 / 562949953421312"
    and "dmul 1 (3602879701896397 / 72057594037927936) = 3602879701896397 / 72057594037927936"
    and "dadd 0 (3602879701896397 / 72057594037927936) = 3602879701896397 / 72057594037927936"
    and "dadd (3602879701896397 / 72057594037927936) 0 = 3602879701896397 / 72057594037927936"
    and "dmul 6 (3602879701896397 / 72057594037927936) = 1351079888211149 / 4503599627370496"
    and "dadd 0 (1351079888211149 / 4503599627370496) = 1351079888211149 / 4503599627370496"
    and "dadd (1351079888211149 / 4503599627370496) 0 = 1351079888211149 / 4503599627370496"
    and "dmul 11 (3602879701896397 / 72057594037927936) = 2476979795053773 / 4503599627370496"
    and "dadd 0 (2476979795053773 / 4503599627370496) = 2476979795053773 / 4503599627370496"
    and "dadd (2476979795053773 / 4503599627370496) 0 = 2476979795053773 / 4503599627370496"
    and "dmul 18 (3602879701896397 / 72057594037927936) = 8106479329266893 / 9007199254740992"
    and "dadd 0 (8106479329266893 / 9007199254740992) = 8106479329266893 / 9007199254740992"
    and "dmul 13 (3602879701896397 / 72057594037927936) = 5854679515581645 / 9007199254740992"
    and "dadd (2476979795053773 / 4503599627370496) (5854679515581645 / 9007199254740992) = 1351079888211149 / 1125899906842624"
    and "dadd (8106479329266893 / 9007199254740992) (5854679515581645 / 9007199254740992) = 6980579422424269 / 4503599627370496"
    and "dadd (6980579422424269 / 4503599627370496) (3 / 2) = 3433994715870003 / 1125899906842624"
    and "dadd (8106479329266893 / 9007199254740992) (8106479329266893 / 9007199254740992) = 8106479329266893 / 4503599627370496"
    and "dadd (8106479329266893 / 4503599627370496) 0 = 8106479329266893 / 4503599627370496"
    and "dmul 22 (3602879701896397 / 72057594037927936) = 2476979795053773 / 2251799813685248"
    and "dadd (8106479329266893 / 9007199254740992) (2476979795053773 / 2251799813685248) = 2"
    and "dadd 2 (5404319552844595 / 4503599627370496) = 3602879701896397 / 1125899906842624"
    and "dmul 3 (3602879701896397 / 72057594037927936) = 1351079888211149 / 9007199254740992"
    and "dadd 0 (1351079888211149 / 9007199254740992) = 1351079888211149 / 9007199254740992"
    and "dmul 17 (3602879701896397 / 72057594037927936) = 1914029841632461 / 2251799813685248"
    and "dadd 0 (1914029841632461 / 2251799813685248) = 1914029841632461 / 2251799813685248"
    and "dadd (1914029841632461 / 2251799813685248) 0 = 1914029841632461 / 2251799813685248"
    and "dadd 0 (2476979795053773 / 2251799813685248) = 2476979795053773 / 2251799813685248"
    and "dadd (2476979795053773 / 2251799813685248) 0 = 2476979795053773 / 2251799813685248"
    and "dadd (1351079888211149 / 9007199254740992) (3602879701896397 / 36028797018963968) = 1 / 4"
    and "dadd (1 / 4) (5404319552844595 / 18014398509481984) = 2476979795053773 / 4503599627370496"
    and "dadd (1351079888211149 / 9007199254740992) (6305039478318695 / 18014398509481984) = 1 / 2"
    and "dadd (1 / 2) (5404319552844595 / 4503599627370496) = 7656119366529843 / 4503599627370496"
    and "dadd (6305039478318695 / 18014398509481984) (6305039478318695 / 18014398509481984) = 6305039478318695 / 9007199254740992"
    and "dadd (6305039478318695 / 18014398509481984) (1351079888211149 / 2251799813685248) = 1069604911500493 / 1125899906842624"
    and "dadd (1069604911500493 / 1125899906842624) (3 / 2) = 2758454771764429 / 1125899906842624"
    and "dadd (1351079888211149 / 2251799813685248) (1351079888211149 / 2251799813685248) = 1351079888211149 / 1125899906842624"
    and "dadd (1351079888211149 / 2251799813685248) (1914029841632461 / 2251799813685248) = 1632554864921805 / 1125899906842624"
    and "dadd (1632554864921805 / 1125899906842624) (3 / 2) = 3321404725185741 / 1125899906842624"
    and "dadd (1914029841632461 / 2251799813685248) (1914029841632461 / 2251799813685248) = 1914029841632461 / 1125899906842624"
    and "dadd (2476979795053773 / 4503599627370496) (1 / 4) = 3602879701896397 / 4503599627370496"
    and "dadd (3602879701896397 / 4503599627370496) (2026619832316723 / 2251799813685248) = 7656119366529843 / 4503599627370496"
    and "dadd (6305039478318695 / 9007199254740992) (1 / 4) = 8556839292003943 / 9007199254740992"
    and "dadd (8556839292003943 / 9007199254740992) (5404319552844595 / 9007199254740992) = 6980579422424269 / 4503599627370496"
    and "dadd (6305039478318695 / 9007199254740992) (1 / 2) = 1351079888211149 / 1125899906842624"
    and "dadd (1351079888211149 / 1125899906842624) (2026619832316723 / 2251799813685248) = 4728779608739021 / 2251799813685248"
    and "dadd (1351079888211149 / 1125899906842624) (1 / 2) = 1914029841632461 / 1125899906842624"
    and "dadd (1351079888211149 / 1125899906842624) (6305039478318695 / 9007199254740992) = 1069604911500493 / 562949953421312"
    and "dadd (1069604911500493 / 562949953421312) (5404319552844595 / 9007199254740992) = 5629499534213121 / 2251799813685248"
    and "dadd (7656119366529843 / 4503599627370496) (1 / 4) = 8782019273372467 / 4503599627370496"
    and "dadd (8782019273372467 / 4503599627370496) (5404319552844595 / 4503599627370496) = 7093169413108531 / 2251799813685248"
    and "dadd (1914029841632461 / 1125899906842624) (6305039478318695 / 9007199254740992) = 1351079888211149 / 562949953421312"
    and "dadd (1351079888211149 / 562949953421312) (2026619832316723 / 2251799813685248) = 7430939385161319 / 2251799813685248"
    and "dadd (1491817376566477 / 562949953421312) (5404319552844595 / 9007199254740992) = 7318349394477057 / 2251799813685248"
    and "dadd (2758454771764429 / 1125899906842624) (1 / 2) = 3321404725185741 / 1125899906842624"
    and "dadd (3321404725185741 / 1125899906842624) (3 / 2) = 5010254585449677 / 1125899906842624"
    and "dadd (3321404725185741 / 1125899906842624) (6305039478318695 / 9007199254740992) = 2054767329987789 / 562949953421312"
    and "dadd (2054767329987789 / 562949953421312) (3 / 2) = 2899192260119757 / 562949953421312"
    and "dadd (6980579422424269 / 4503599627370496) (1 / 4) = 8106479329266893 / 4503599627370496"
    and "dadd (8106479329266893 / 4503599627370496) (5404319552844595 / 9007199254740992) = 5404319552844595 / 2251799813685248"
    and "dadd (6980579422424269 / 4503599627370496) (1 / 2) = 2308094809027379 / 1125899906842624"
    and "dadd (2308094809027379 / 1125899906842624) (3 / 2) = 3996944669291315 / 1125899906842624"
    and "dadd (7656119366529843 / 4503599627370496) 0 = 7656119366529843 / 4503599627370496"
    and "dadd (7656119366529843 / 4503599627370496) (2026619832316723 / 2251799813685248) = 1463669878895411 / 562949953421312"
    and "dsub (1463669878895411 / 562949953421312) (3602879701896397 / 18014398509481984) = 2702159776422297 / 1125899906842624"
    and "dadd (8782019273372467 / 4503599627370496) (2026619832316723 / 2251799813685248) = 1604407367250739 / 562949953421312"
    and "dadd (4728779608739021 / 2251799813685248) (1 / 4) = 5291729562160333 / 2251799813685248"
    and "dadd (5291729562160333 / 2251799813685248) (3 / 2) = 8669429282688205 / 2251799813685248"
    and "dadd (4728779608739021 / 2251799813685248) (1 / 2) = 5854679515581645 / 2251799813685248"
    and "dadd (5854679515581645 / 2251799813685248) (2026619832316723 / 2251799813685248) = 7 / 2"
    and "dadd (5179139571476071 / 2251799813685248) (1 / 2) = 6305039478318695 / 2251799813685248"
    and "dadd (6305039478318695 / 2251799813685248) (5404319552844595 / 9007199254740992) = 1914029841632461 / 562949953421312"
    and "dadd (5629499534213121 / 2251799813685248) (1 / 2) = 6755399441055745 / 2251799813685248"
    and "dadd (6755399441055745 / 2251799813685248) (5404319552844595 / 4503599627370496) = 4728779608739021 / 1125899906842624"
    and "dadd (7093169413108531 / 2251799813685248) (1 / 4) = 7656119366529843 / 2251799813685248"
    and "dadd (7656119366529843 / 2251799813685248) (5404319552844595 / 4503599627370496) = 2589569785738035 / 562949953421312"
    and "dadd (7430939385161319 / 2251799813685248) 0 = 7430939385161319 / 2251799813685248"
    and "dadd (7430939385161319 / 2251799813685248) (2026619832316723 / 2251799813685248) = 4728779608739021 / 1125899906842624"
    and "dsub (4728779608739021 / 1125899906842624) (3602879701896397 / 18014398509481984) = 4"
    and "dadd (5010254585449677 / 1125899906842624) 0 = 5010254585449677 / 1125899906842624"
    and "dadd (5010254585449677 / 1125899906842624) (3 / 2) = 6699104445713613 / 1125899906842624"
    and "dsub (6699104445713613 / 1125899906842624) (3602879701896397 / 18014398509481984) = 23 / 4"
    and "dadd (5010254585449677 / 1125899906842624) (1 / 2) = 5573204538870989 / 1125899906842624"
    and "dadd (5573204538870989 / 1125899906842624) (3 / 2) = 7262054399134925 / 1125899906842624"
    and "dmul 7 (3602879701896397 / 36028797018963968) = 6305039478318695 / 9007199254740992"
    and "dmul 2 (1 / 2) = 1"
    and "dadd (6305039478318695 / 9007199254740992) 1 = 1914029841632461 / 1125899906842624"
    and "dmul 2 (3602879701896397 / 36028797018963968) = 3602879701896397 / 18014398509481984"
    and "dmul 3 (1 / 2) = 3 / 2"
    and "dadd (3602879701896397 / 18014398509481984) (3 / 2) = 7656119366529843 / 4503599627370496"
proof -
  show "fl (1 / 20) = 3602879701896397 / 72057594037927936"
    by (rule fl_eqI [where j = 57 and n = 7205759403792794]) simp_all
  show "dmul 5 (3602879701896397 / 72057594037927936) = 1 / 4"
    unfolding dmul_def by (rule fl_eqI [where j = 54 and n = 4503599627370496]) simp_all
  show "dadd 0 (1 / 4) = 1 / 4"
    unfolding dadd_def by (rule fl_eqI [where j = 54 and n = 4503599627370496]) simp_all
  show "fl (3 / 10) = 5404319552844595 / 18014398509481984"
    by (rule fl_eqI [where j = 54 and n = 5404319552844595]) simp_all
  show "dmul 0 (5404319552844595 / 18014398509481984) = 0"
    unfolding dmul_def by simp
  show "dadd (1 / 4) 0 = 1 / 4"
    unfolding dadd_def by (rule fl_eqI [where j = 54 and n = 4503599627370496]) simp_all
  show "dmul 10 (3602879701896397 / 72057594037927936) = 1 / 2"
    unfolding dmul_def by (rule fl_eqI [where j = 53 and n = 4503599627370496]) simp_all
  show "dadd 0 (1 / 2) = 1 / 2"
    unfolding dadd_def by (rule fl_eqI [where j = 53 and n = 4503599627370496]) simp_all
  show "dadd (1 / 2) 0 = 1 / 2"
    unfolding dadd_def by (rule fl_eqI [where j = 53 and n = 4503599627370496]) simp_all
  show "dmul 14 (3602879701896397 / 72057594037927936) = 6305039478318695 / 9007199254740992"
    unfolding dmul_def by (rule fl_eqI [where j = 53 and n = 6305039478318695]) simp_all
  show "dadd 0 (6305039478318695 / 9007199254740992) = 6305039478318695 / 9007199254740992"
    unfolding dadd_def by (rule fl_eqI [where j = 53 and n = 6305039478318695]) simp_all
  show "dadd (6305039478318695 / 9007199254740992) 0 = 6305039478318695 / 9007199254740992"
    unfolding dadd_def by (rule fl_eqI [where j = 53 and n = 6305039478318695]) simp_all
  show "dmul 19 (3602879701896397 / 72057594037927936) = 8556839292003943 / 9007199254740992"
    unfolding dmul_def by (rule fl_eqI [where j = 53 and n = 8556839292003943]) simp_all
  show "dadd 0 (8556839292003943 / 9007199254740992) = 8556839292003943 / 9007199254740992"
    unfolding dadd_def by (rule fl_eqI [where j = 53 and n = 8556839292003943]) simp_all
  show "dadd (8556839292003943 / 9007199254740992) 0 = 8556839292003943 / 9007199254740992"
    unfolding dadd_def by (rule fl_eqI [where j = 53 and n = 8556839292003943]) simp_all
  show "dadd (1 / 4) (1 / 4) = 1 / 2"
    unfolding dadd_def by (rule fl_eqI [where j = 53 and n = 4503599627370496]) simp_all
  show "dmul 9 (3602879701896397 / 72057594037927936) = 8106479329266893 / 18014398509481984"
    unfolding dmul_def by (rule fl_eqI [where j = 54 and n = 8106479329266893]) simp_all
  show "dadd (1 / 4) (8106479329266893 / 18014398509481984) = 3152519739159347 / 4503599627370496"
    unfolding dadd_def by (rule fl_eqI [where j = 53 and n = 6305039478318694]) simp_all
  show "dmul 4 (5404319552844595 / 18014398509481984) = 5404319552844595 / 4503599627370496"
    unfolding dmul_def by (rule fl_eqI [where j = 52 and n = 5404319552844595]) simp_all
  show "dadd (3152519739159347 / 4503599627370496) (5404319552844595 / 4503599627370496) = 4278419646001971 / 2251799813685248"
    unfolding dadd_def by (rule fl_eqI [where j = 52 and n = 8556839292003942]) simp_all
  show "dmul 0 (3602879701896397 / 72057594037927936) = 0"
    unfolding dmul_def by simp
  show "fl (1 / 5) = 3602879701896397 / 18014398509481984"
    by (rule fl_eqI [where j = 55 and n = 7205759403792794]) simp_all
  show "dsub (1 / 2) (3602879701896397 / 18014398509481984) = 5404319552844595 / 18014398509481984"
    unfolding dsub_def by (rule fl_eqI [where j = 54 and n = 5404319552844595]) simp_all
  show "dadd (1 / 2) (8106479329266893 / 18014398509481984) = 4278419646001971 / 4503599627370496"
    unfolding dadd_def by (rule fl_eqI [where j = 53 and n = 8556839292003942]) simp_all
  show "dmul 1 (5404319552844595 / 18014398509481984) = 5404319552844595 / 18014398509481984"
    unfolding dmul_def by (rule fl_eqI [where j = 54 and n = 5404319552844595]) simp_all
  show "dadd (4278419646001971 / 4503599627370496) (5404319552844595 / 18014398509481984) = 5 / 4"
    unfolding dadd_def by (rule fl_eqI [where j = 52 and n = 5629499534213120]) simp_all
  show "dadd (1 / 2) (6305039478318695 / 9007199254740992) = 1351079888211149 / 1125899906842624"
    unfolding dadd_def by (rule fl_eqI [where j = 52 and n = 5404319552844596]) simp_all
  show "dadd (1351079888211149 / 1125899906842624) (5404319552844595 / 4503599627370496) = 1351079888211149 / 562949953421312"
    unfolding dadd_def by (rule fl_eqI [where j = 51 and n = 5404319552844596]) simp_all
  show "dsub (6305039478318695 / 9007199254740992) (3602879701896397 / 18014398509481984) = 1 / 2"
    unfolding dsub_def by (rule fl_eqI [where j = 53 and n = 4503599627370496]) simp_all
  show "dadd (6305039478318695 / 9007199254740992) (6305039478318695 / 9007199254740992) = 6305039478318695 / 4503599627370496"
    unfolding dadd_def by (rule fl_eqI [where j = 52 and n = 6305039478318695]) simp_all
  show "dadd (6305039478318695 / 4503599627370496) 0 = 6305039478318695 / 4503599627370496"
    unfolding dadd_def by (rule fl_eqI [where j = 52 and n = 6305039478318695]) simp_all
  show "dadd (6305039478318695 / 9007199254740992) (8556839292003943 / 9007199254740992) = 7430939385161319 / 4503599627370496"
    unfolding dadd_def by (rule fl_eqI [where j = 52 and n = 7430939385161319]) simp_all
  show "dmul 5 (5404319552844595 / 18014398509481984) = 3 / 2"
    unfolding dmul_def by (rule fl_eqI [where j = 52 and n = 6755399441055744]) simp_all
  show "dadd (7430939385161319 / 4503599627370496) (3 / 2) = 1773292353277133 / 562949953421312"
    unfolding dadd_def by (rule fl_eqI [where j = 51 and n = 7093169413108532]) simp_all
  show "dsub (8556839292003943 / 9007199254740992) (3602879701896397 / 18014398509481984) = 3 / 4"
    unfolding dsub_def by (rule fl_eqI [where j = 53 and n = 6755399441055744]) simp_all
  show "dadd (8556839292003943 / 9007199254740992) (8556839292003943 / 9007199254740992) = 8556839292003943 / 4503599627370496"
    unfolding dadd_def by (rule fl_eqI [where j = 52 and n = 8556839292003943]) simp_all
  show "dadd (8556839292003943 / 4503599627370496) 0 = 8556839292003943 / 4503599627370496"
    unfolding dadd_def by (rule fl_eqI [where j = 52 and n = 8556839292003943]) simp_all
  show "dadd (5404319552844595 / 18014398509481984) 0 = 5404319552844595 / 18014398509481984"
    unfolding dadd_def by (rule fl_eqI [where j = 54 and n = 5404319552844595]) simp_all
  show "dsub (5404319552844595 / 18014398509481984) (3602879701896397 / 18014398509481984) = 900719925474099 / 9007199254740992"
    unfolding dsub_def by (rule fl_eqI [where j = 56 and n = 7205759403792792]) simp_all
  show "dadd (5404319552844595 / 18014398509481984) (1 / 4) = 2476979795053773 / 4503599627370496"
    unfolding dadd_def by (rule fl_eqI [where j = 53 and n = 4953959590107546]) simp_all
  show "dadd (2476979795053773 / 4503599627370496) (3 / 2) = 2308094809027379 / 1125899906842624"
    unfolding dadd_def by (rule fl_eqI [where j = 51 and n = 4616189618054758]) simp_all
  show "dadd (5404319552844595 / 18014398509481984) (1 / 2) = 3602879701896397 / 4503599627370496"
    unfolding dadd_def by (rule fl_eqI [where j = 53 and n = 7205759403792794]) simp_all
  show "dadd (3602879701896397 / 4503599627370496) 0 = 3602879701896397 / 4503599627370496"
    unfolding dadd_def by (rule fl_eqI [where j = 53 and n = 7205759403792794]) simp_all
  show "dmul 15 (3602879701896397 / 72057594037927936) = 3 / 4"
    unfolding dmul_def by (rule fl_eqI [where j = 53 and n = 6755399441055744]) simp_all
  show "dadd (5404319552844595 / 18014398509481984) (3 / 4) = 4728779608739021 / 4503599627370496"
    unfolding dadd_def by (rule fl_eqI [where j = 52 and n = 4728779608739021]) simp_all
  show "dadd (4728779608739021 / 4503599627370496) (3 / 2) = 2871044762448691 / 1125899906842624"
    unfolding dadd_def by (rule fl_eqI [where j = 51 and n = 5742089524897382]) simp_all
  show "dadd (1 / 2) (1 / 4) = 3 / 4"
    unfolding dadd_def by (rule fl_eqI [where j = 53 and n = 6755399441055744]) simp_all
  show "dadd (3 / 4) 0 = 3 / 4"
    unfolding dadd_def by (rule fl_eqI [where j = 53 and n = 6755399441055744]) simp_all
  show "dadd (1 / 2) (1 / 2) = 1"
    unfolding dadd_def by (rule fl_eqI [where j = 52 and n = 4503599627370496]) simp_all
  show "dadd 1 (3 / 2) = 5 / 2"
    unfolding dadd_def by (rule fl_eqI [where j = 51 and n = 5629499534213120]) simp_all
  show "dadd 1 (5404319552844595 / 4503599627370496) = 2476979795053773 / 1125899906842624"
    unfolding dadd_def by (rule fl_eqI [where j = 51 and n = 4953959590107546]) simp_all
  show "dadd (1 / 2) (3 / 4) = 5 / 4"
    unfolding dadd_def by (rule fl_eqI [where j = 52 and n = 5629499534213120]) simp_all
  show "dadd (5 / 4) (5404319552844595 / 18014398509481984) = 6980579422424269 / 4503599627370496"
    unfolding dadd_def by (rule fl_eqI [where j = 52 and n = 6980579422424269]) simp_all
  show "dsub (3 / 4) (3602879701896397 / 18014398509481984) = 2476979795053773 / 4503599627370496"
    unfolding dsub_def by (rule fl_eqI [where j = 53 and n = 4953959590107546]) simp_all
  show "dadd (3 / 4) (3 / 4) = 3 / 2"
    unfolding dadd_def by (rule fl_eqI [where j = 52 and n = 6755399441055744]) simp_all
  show "dadd (3 / 2) (5404319552844595 / 4503599627370496) = 3039929748475085 / 1125899906842624"
    unfolding dadd_def by (rule fl_eqI [where j = 51 and n = 6079859496950170]) simp_all
  show "dadd (5 / 4) (1 / 4) = 3 / 2"
    unfolding dadd_def by (rule fl_eqI [where j = 52 and n = 6755399441055744]) simp_all
  show "dadd (3 / 2) (3 / 2) = 3"
    unfolding dadd_def by (rule fl_eqI [where j = 51 and n = 6755399441055744]) simp_all
  show "dadd (5 / 4) (1 / 2) = 7 / 4"
    unfolding dadd_def by (rule fl_eqI [where j = 52 and n = 7881299347898368]) simp_all
  show "dadd (7 / 4) (5404319552844595 / 18014398509481984) = 2308094809027379 / 1125899906842624"
    unfolding dadd_def by (rule fl_eqI [where j = 51 and n = 4616189618054758]) simp_all
  show "dadd (6305039478318695 / 4503599627370496) (1 / 2) = 8556839292003943 / 4503599627370496"
    unfolding dadd_def by (rule fl_eqI [where j = 52 and n = 8556839292003943]) simp_all
  show "dadd (8556839292003943 / 4503599627370496) (5404319552844595 / 4503599627370496) = 6980579422424269 / 2251799813685248"
    unfolding dadd_def by (rule fl_eqI [where j = 51 and n = 6980579422424269]) simp_all
  show "dadd (6305039478318695 / 4503599627370496) (3 / 4) = 1210342399855821 / 562949953421312"
    unfolding dadd_def by (rule fl_eqI [where j = 51 and n = 4841369599423284]) simp_all
  show "dadd (1210342399855821 / 562949953421312) (5404319552844595 / 18014398509481984) = 2758454771764429 / 1125899906842624"
    unfolding dadd_def by (rule fl_eqI [where j = 51 and n = 5516909543528858]) simp_all
  show "dadd (4278419646001971 / 2251799813685248) (1 / 4) = 4841369599423283 / 2251799813685248"
    unfolding dadd_def by (rule fl_eqI [where j = 51 and n = 4841369599423283]) simp_all
  show "dadd (4841369599423283 / 2251799813685248) (5404319552844595 / 4503599627370496) = 1885882343961395 / 562949953421312"
    unfolding dadd_def by (rule fl_eqI [where j = 51 and n = 7543529375845580]) simp_all
  show "dadd (4278419646001971 / 2251799813685248) (1 / 2) = 5404319552844595 / 2251799813685248"
    unfolding dadd_def by (rule fl_eqI [where j = 51 and n = 5404319552844595]) simp_all
  show "dadd (5404319552844595 / 2251799813685248) (3 / 2) = 8782019273372467 / 2251799813685248"
    unfolding dadd_def by (rule fl_eqI [where j = 51 and n = 8782019273372467]) simp_all
  show "dsub (8556839292003943 / 4503599627370496) (3602879701896397 / 18014398509481984) = 1914029841632461 / 1125899906842624"
    unfolding dsub_def by (rule fl_eqI [where j = 52 and n = 7656119366529844]) simp_all
  show "dadd (8556839292003943 / 4503599627370496) (3 / 4) = 1491817376566477 / 562949953421312"
    unfolding dadd_def by (rule fl_eqI [where j = 51 and n = 5967269506265908]) simp_all
  show "dadd (1491817376566477 / 562949953421312) (5404319552844595 / 4503599627370496) = 4334714641344103 / 1125899906842624"
    unfolding dadd_def by (rule fl_eqI [where j = 51 and n = 8669429282688206]) simp_all
  show "dadd (1351079888211149 / 562949953421312) 0 = 1351079888211149 / 562949953421312"
    unfolding dadd_def by (rule fl_eqI [where j = 51 and n = 5404319552844596]) simp_all
  show "dadd (1351079888211149 / 562949953421312) (5404319552844595 / 4503599627370496) = 4053239664633447 / 1125899906842624"
    unfolding dadd_def by (rule fl_eqI [where j = 51 and n = 8106479329266894]) simp_all
  show "dsub (4053239664633447 / 1125899906842624) (3602879701896397 / 18014398509481984) = 1914029841632461 / 562949953421312"
    unfolding dsub_def by (rule fl_eqI [where j = 51 and n = 7656119366529844]) simp_all
  show "dadd (1351079888211149 / 562949953421312) (1 / 2) = 1632554864921805 / 562949953421312"
    unfolding dadd_def by (rule fl_eqI [where j = 51 and n = 6530219459687220]) simp_all
  show "dadd (1632554864921805 / 562949953421312) (5404319552844595 / 4503599627370496) = 4616189618054759 / 1125899906842624"
    unfolding dadd_def by (rule fl_eqI [where j = 50 and n = 4616189618054759]) simp_all
  show "dadd (1351079888211149 / 562949953421312) (3 / 4) = 1773292353277133 / 562949953421312"
    unfolding dadd_def by (rule fl_eqI [where j = 51 and n = 7093169413108532]) simp_all
  show "dadd (1773292353277133 / 562949953421312) (3 / 2) = 2617717283409101 / 562949953421312"
    unfolding dadd_def by (rule fl_eqI [where j = 50 and n = 5235434566818202]) simp_all
  show "dadd (1773292353277133 / 562949953421312) (3 / 4) = 2195504818343117 / 562949953421312"
    unfolding dadd_def by (rule fl_eqI [where j = 51 and n = 8782019273372468]) simp_all
  show "dadd (2195504818343117 / 562949953421312) (3 / 2) = 3039929748475085 / 562949953421312"
    unfolding dadd_def by (rule fl_eqI [where j = 50 and n = 6079859496950170]) simp_all
  show "dadd (1914029841632461 / 1125899906842624) (8556839292003943 / 9007199254740992) = 1491817376566477 / 562949953421312"
    unfolding dadd_def by (rule fl_eqI [where j = 51 and n = 5967269506265908]) simp_all
  show "dadd (1491817376566477 / 562949953421312) 0 = 1491817376566477 / 562949953421312"
    unfolding dadd_def by (rule fl_eqI [where j = 51 and n = 5967269506265908]) simp_all
  show "dadd (2758454771764429 / 1125899906842624) (8556839292003943 / 9007199254740992) = 1914029841632461 / 562949953421312"
    unfolding dadd_def by (rule fl_eqI [where j = 51 and n = 7656119366529844]) simp_all
  show "dadd (1914029841632461 / 562949953421312) (3 / 2) = 2758454771764429 / 562949953421312"
    unfolding dadd_def by (rule fl_eqI [where j = 50 and n = 5516909543528858]) simp_all
  show "dadd (4334714641344103 / 1125899906842624) (8556839292003943 / 9007199254740992) = 1351079888211149 / 281474976710656"
    unfolding dadd_def by (rule fl_eqI [where j = 50 and n = 5404319552844596]) simp_all
  show "dadd (1351079888211149 / 281474976710656) (5404319552844595 / 4503599627370496) = 6755399441055745 / 1125899906842624"
    unfolding dadd_def by (rule fl_eqI [where j = 50 and n = 6755399441055745]) simp_all
  show "dmul 2 (3602879701896397 / 72057594037927936) = 3602879701896397 / 36028797018963968"
    unfolding dmul_def by (rule fl_eqI [where j = 56 and n = 7205759403792794]) simp_all
  show "dadd 0 (3602879701896397 / 36028797018963968) = 3602879701896397 / 36028797018963968"
    unfolding dadd_def by (rule fl_eqI [where j = 56 and n = 7205759403792794]) simp_all
  show "dadd (3602879701896397 / 36028797018963968) 0 = 3602879701896397 / 36028797018963968"
    unfolding dadd_def by (rule fl_eqI [where j = 56 and n = 7205759403792794]) simp_all
  show "dmul 7 (3602879701896397 / 72057594037927936) = 6305039478318695 / 18014398509481984"
    unfolding dmul_def by (rule fl_eqI [where j = 54 and n = 6305039478318695]) simp_all
  show "dadd 0 (6305039478318695 / 18014398509481984) = 6305039478318695 / 18014398509481984"
    unfolding dadd_def by (rule fl_eqI [where j = 54 and n = 6305039478318695]) simp_all
  show "dadd (6305039478318695 / 18014398509481984) 0 = 6305039478318695 / 18014398509481984"
    unfolding dadd_def by (rule fl_eqI [where j = 54 and n = 6305039478318695]) simp_all
  show "dmul 12 (3602879701896397 / 72057594037927936) = 1351079888211149 / 2251799813685248"
    unfolding dmul_def by (rule fl_eqI [where j = 53 and n = 5404319552844596]) simp_all
  show "dadd 0 (1351079888211149 / 2251799813685248) = 1351079888211149 / 2251799813685248"
    unfolding dadd_def by (rule fl_eqI [where j = 53 and n = 5404319552844596]) simp_all
  show "dadd (1351079888211149 / 2251799813685248) 0 = 1351079888211149 / 2251799813685248"
    unfolding dadd_def by (rule fl_eqI [where j = 53 and n = 5404319552844596]) simp_all
  show "dsub (3602879701896397 / 36028797018963968) (3602879701896397 / 18014398509481984) = - (3602879701896397 / 36028797018963968)"
    unfolding dsub_def by (rule fl_eqI_neg [where j = 56 and n = 7205759403792794]) simp_all
  show "dsub (6305039478318695 / 18014398509481984) (3602879701896397 / 18014398509481984) = 1351079888211149 / 9007199254740992"
    unfolding dsub_def by (rule fl_eqI [where j = 55 and n = 5404319552844596]) simp_all
  show "dadd (6305039478318695 / 18014398509481984) (1 / 4) = 1351079888211149 / 2251799813685248"
    unfolding dadd_def by (rule fl_eqI [where j = 53 and n = 5404319552844596]) simp_all
  show "dmul 2 (5404319552844595 / 18014398509481984) = 5404319552844595 / 9007199254740992"
    unfolding dmul_def by (rule fl_eqI [where j = 53 and n = 5404319552844595]) simp_all
  show "dadd (1351079888211149 / 2251799813685248) (5404319552844595 / 9007199254740992) = 1351079888211149 / 1125899906842624"
    unfolding dadd_def by (rule fl_eqI [where j = 52 and n = 5404319552844596]) simp_all
  show "dsub (1351079888211149 / 2251799813685248) (3602879701896397 / 18014398509481984) = 7205759403792795 / 18014398509481984"
    unfolding dsub_def by (rule fl_eqI [where j = 54 and n = 7205759403792795]) simp_all
  show "dadd (1351079888211149 / 2251799813685248) (1 / 2) = 2476979795053773 / 2251799813685248"
    unfolding dadd_def by (rule fl_eqI [where j = 52 and n = 4953959590107546]) simp_all
  show "dadd (2476979795053773 / 2251799813685248) (5404319552844595 / 9007199254740992) = 1914029841632461 / 1125899906842624"
    unfolding dadd_def by (rule fl_eqI [where j = 52 and n = 7656119366529844]) simp_all
  show "dadd (- (3602879701896397 / 36028797018963968)) 0 = - (3602879701896397 / 36028797018963968)"
    unfolding dadd_def by (rule fl_eqI_neg [where j = 56 and n = 7205759403792794]) simp_all
  show "dsub (- (3602879701896397 / 36028797018963968)) (3602879701896397 / 18014398509481984) = - (1351079888211149 / 4503599627370496)"
    unfolding dsub_def by (rule fl_eqI_neg [where j = 54 and n = 5404319552844596]) simp_all
  show "dadd (1351079888211149 / 9007199254740992) 0 = 1351079888211149 / 9007199254740992"
    unfolding dadd_def by (rule fl_eqI [where j = 55 and n = 5404319552844596]) simp_all
  show "dsub (1351079888211149 / 9007199254740992) (3602879701896397 / 18014398509481984) = - (900719925474099 / 18014398509481984)"
    unfolding dsub_def by (rule fl_eqI_neg [where j = 57 and n = 7205759403792792]) simp_all
  show "dadd (1351079888211149 / 9007199254740992) (8106479329266893 / 18014398509481984) = 1351079888211149 / 2251799813685248"
    unfolding dadd_def by (rule fl_eqI [where j = 53 and n = 5404319552844596]) simp_all
  show "dadd (7205759403792795 / 18014398509481984) 0 = 7205759403792795 / 18014398509481984"
    unfolding dadd_def by (rule fl_eqI [where j = 54 and n = 7205759403792795]) simp_all
  show "dsub (7205759403792795 / 18014398509481984) (3602879701896397 / 18014398509481984) = 1801439850948199 / 9007199254740992"
    unfolding dsub_def by (rule fl_eqI [where j = 55 and n = 7205759403792796]) simp_all
  show "dadd (7205759403792795 / 18014398509481984) (8106479329266893 / 18014398509481984) = 1914029841632461 / 2251799813685248"
    unfolding dadd_def by (rule fl_eqI [where j = 53 and n = 7656119366529844]) simp_all
  show "dmul 3 (5404319552844595 / 18014398509481984) = 2026619832316723 / 2251799813685248"
    unfolding dmul_def by (rule fl_eqI [where j = 53 and n = 8106479329266892]) simp_all
  show "dadd (1914029841632461 / 2251799813685248) (2026619832316723 / 2251799813685248) = 7 / 4"
    unfolding dadd_def by (rule fl_eqI [where j = 52 and n = 7881299347898368]) simp_all
  show "dadd (7205759403792795 / 18014398509481984) (6305039478318695 / 9007199254740992) = 2476979795053773 / 2251799813685248"
    unfolding dadd_def by (rule fl_eqI [where j = 52 and n = 4953959590107546]) simp_all
  show "dadd (1351079888211149 / 1125899906842624) 0 = 1351079888211149 / 1125899906842624"
    unfolding dadd_def by (rule fl_eqI [where j = 52 and n = 5404319552844596]) simp_all
  show "dadd (1351079888211149 / 1125899906842624) (5404319552844595 / 9007199254740992) = 4053239664633447 / 2251799813685248"
    unfolding dadd_def by (rule fl_eqI [where j = 52 and n = 8106479329266894]) simp_all
  show "dsub (4053239664633447 / 2251799813685248) (3602879701896397 / 18014398509481984) = 7205759403792795 / 4503599627370496"
    unfolding dsub_def by (rule fl_eqI [where j = 52 and n = 7205759403792795]) simp_all
  show "dmul 4 (3602879701896397 / 72057594037927936) = 3602879701896397 / 18014398509481984"
    unfolding dmul_def by (rule fl_eqI [where j = 55 and n = 7205759403792794]) simp_all
  show "dadd (1351079888211149 / 1125899906842624) (3602879701896397 / 18014398509481984) = 6305039478318695 / 4503599627370496"
    unfolding dadd_def by (rule fl_eqI [where j = 52 and n = 6305039478318695]) simp_all
  show "dadd (6305039478318695 / 4503599627370496) (2026619832316723 / 2251799813685248) = 2589569785738035 / 1125899906842624"
    unfolding dadd_def by (rule fl_eqI [where j = 51 and n = 5179139571476070]) simp_all
  show "dadd (1914029841632461 / 1125899906842624) 0 = 1914029841632461 / 1125899906842624"
    unfolding dadd_def by (rule fl_eqI [where j = 52 and n = 7656119366529844]) simp_all
  show "dadd (1914029841632461 / 1125899906842624) (5404319552844595 / 9007199254740992) = 5179139571476071 / 2251799813685248"
    unfolding dadd_def by (rule fl_eqI [where j = 51 and n = 5179139571476071]) simp_all
  show "dsub (5179139571476071 / 2251799813685248) (3602879701896397 / 18014398509481984) = 4728779608739021 / 2251799813685248"
    unfolding dsub_def by (rule fl_eqI [where j = 51 and n = 4728779608739021]) simp_all
  show "dadd (1914029841632461 / 1125899906842624) (8106479329266893 / 18014398509481984) = 1210342399855821 / 562949953421312"
    unfolding dadd_def by (rule fl_eqI [where j = 51 and n = 4841369599423284]) simp_all
  show "dadd (1210342399855821 / 562949953421312) (2026619832316723 / 2251799813685248) = 6867989431740007 / 2251799813685248"
    unfolding dadd_def by (rule fl_eqI [where j = 51 and n = 6867989431740007]) simp_all
  show "dadd 0 0 = 0"
    unfolding dadd_def by simp
  show "dsub 0 (3602879701896397 / 18014398509481984) = - (3602879701896397 / 18014398509481984)"
    unfolding dsub_def by (rule fl_eqI_neg [where j = 55 and n = 7205759403792794]) simp_all
  show "dadd 0 (3 / 4) = 3 / 4"
    unfolding dadd_def by (rule fl_eqI [where j = 53 and n = 6755399441055744]) simp_all
  show "dadd (- (3602879701896397 / 18014398509481984)) 0 = - (3602879701896397 / 18014398509481984)"
    unfolding dadd_def by (rule fl_eqI_neg [where j = 55 and n = 7205759403792794]) simp_all
  show "dsub (- (3602879701896397 / 18014398509481984)) (3602879701896397 / 18014398509481984) = - (3602879701896397 / 9007199254740992)"
    unfolding dsub_def by (rule fl_eqI_neg [where j = 54 and n = 7205759403792794]) simp_all
  show "dadd (- (3602879701896397 / 18014398509481984)) (8106479329266893 / 18014398509481984) = 1 / 4"
    unfolding dadd_def by (rule fl_eqI [where j = 54 and n = 4503599627370496]) simp_all
  show "dadd (- (3602879701896397 / 18014398509481984)) (6305039478318695 / 9007199254740992) = 1 / 2"
    unfolding dadd_def by (rule fl_eqI [where j = 53 and n = 4503599627370496]) simp_all
  show "dadd (- (3602879701896397 / 18014398509481984)) (8556839292003943 / 9007199254740992) = 3 / 4"
    unfolding dadd_def by (rule fl_eqI [where j = 53 and n = 6755399441055744]) simp_all
  show "dsub (1 / 4) (3602879701896397 / 18014398509481984) = 900719925474099 / 18014398509481984"
    unfolding dsub_def by (rule fl_eqI [where j = 57 and n = 7205759403792792]) simp_all
  show "dadd (1 / 4) (3602879701896397 / 18014398509481984) = 8106479329266893 / 18014398509481984"
    unfolding dadd_def by (rule fl_eqI [where j = 54 and n = 8106479329266893]) simp_all
  show "dadd (8106479329266893 / 18014398509481984) (5404319552844595 / 18014398509481984) = 3 / 4"
    unfolding dadd_def by (rule fl_eqI [where j = 53 and n = 6755399441055744]) simp_all
  show "dadd (3 / 4) (6305039478318695 / 9007199254740992) = 1632554864921805 / 1125899906842624"
    unfolding dadd_def by (rule fl_eqI [where j = 52 and n = 6530219459687220]) simp_all
  show "dadd (1632554864921805 / 1125899906842624) (5404319552844595 / 18014398509481984) = 7881299347898369 / 4503599627370496"
    unfolding dadd_def by (rule fl_eqI [where j = 52 and n = 7881299347898369]) simp_all
  show "dadd (- (3602879701896397 / 18014398509481984)) (3602879701896397 / 36028797018963968) = - (3602879701896397 / 36028797018963968)"
    unfolding dadd_def by (rule fl_eqI_neg [where j = 56 and n = 7205759403792794]) simp_all
  show "dadd (- (3602879701896397 / 36028797018963968)) (3602879701896397 / 36028797018963968) = 0"
    unfolding dadd_def by simp
  show "dadd (- (3602879701896397 / 9007199254740992)) 0 = - (3602879701896397 / 9007199254740992)"
    unfolding dadd_def by (rule fl_eqI_neg [where j = 54 and n = 7205759403792794]) simp_all
  show "dsub (- (3602879701896397 / 9007199254740992)) (3602879701896397 / 18014398509481984) = - (1351079888211149 / 2251799813685248)"
    unfolding dsub_def by (rule fl_eqI_neg [where j = 53 and n = 5404319552844596]) simp_all
  show "fl (1 / 10) = 3602879701896397 / 36028797018963968"
    by (rule fl_eqI [where j = 56 and n = 7205759403792794]) simp_all
  show "dmul 0 (3602879701896397 / 36028797018963968) = 0"
    unfolding dmul_def by simp
  show "dsub 0 (5404319552844595 / 18014398509481984) = - (5404319552844595 / 18014398509481984)"
    unfolding dsub_def by (rule fl_eqI_neg [where j = 54 and n = 5404319552844595]) simp_all
  show "fl (1 / 2) = 1 / 2"
    by (rule fl_eqI [where j = 53 and n = 4503599627370496]) simp_all
  show "dmul 13 (1 / 2) = 13 / 2"
    unfolding dmul_def by (rule fl_eqI [where j = 50 and n = 7318349394477056]) simp_all
  show "dadd 0 (13 / 2) = 13 / 2"
    unfolding dadd_def by (rule fl_eqI [where j = 50 and n = 7318349394477056]) simp_all
  show "dsub (13 / 2) (5404319552844595 / 18014398509481984) = 6980579422424269 / 1125899906842624"
    unfolding dsub_def by (rule fl_eqI [where j = 50 and n = 6980579422424269]) simp_all
  show "dmul 5 (3602879701896397 / 36028797018963968) = 1 / 2"
    unfolding dmul_def by (rule fl_eqI [where j = 53 and n = 4503599627370496]) simp_all
  show "dmul 6 (1 / 2) = 3"
    unfolding dmul_def by (rule fl_eqI [where j = 51 and n = 6755399441055744]) simp_all
  show "dadd (1 / 2) 3 = 7 / 2"
    unfolding dadd_def by (rule fl_eqI [where j = 51 and n = 7881299347898368]) simp_all
  show "dmul 9 (3602879701896397 / 36028797018963968) = 8106479329266893 / 9007199254740992"
    unfolding dmul_def by (rule fl_eqI [where j = 53 and n = 8106479329266893]) simp_all
  show "dmul 0 (1 / 2) = 0"
    unfolding dmul_def by simp
  show "dadd (8106479329266893 / 9007199254740992) 0 = 8106479329266893 / 9007199254740992"
    unfolding dadd_def by (rule fl_eqI [where j = 53 and n = 8106479329266893]) simp_all
  show "dmul 14 (3602879701896397 / 36028797018963968) = 6305039478318695 / 4503599627370496"
    unfolding dmul_def by (rule fl_eqI [where j = 52 and n = 6305039478318695]) simp_all
  show "dmul 7 (1 / 2) = 7 / 2"
    unfolding dmul_def by (rule fl_eqI [where j = 51 and n = 7881299347898368]) simp_all
  show "dadd (6305039478318695 / 4503599627370496) (7 / 2) = 2758454771764429 / 562949953421312"
    unfolding dadd_def by (rule fl_eqI [where j = 50 and n = 5516909543528858]) simp_all
  show "dmul 19 (3602879701896397 / 36028797018963968) = 8556839292003943 / 4503599627370496"
    unfolding dmul_def by (rule fl_eqI [where j = 52 and n = 8556839292003943]) simp_all
  show "dmul 14 (1 / 2) = 7"
    unfolding dmul_def by (rule fl_eqI [where j = 50 and n = 7881299347898368]) simp_all
  show "dadd (8556839292003943 / 4503599627370496) 7 = 5010254585449677 / 562949953421312"
    unfolding dadd_def by (rule fl_eqI [where j = 49 and n = 5010254585449677]) simp_all
  show "dmul 1 (3602879701896397 / 72057594037927936) = 3602879701896397 / 72057594037927936"
    unfolding dmul_def by (rule fl_eqI [where j = 57 and n = 7205759403792794]) simp_all
  show "dadd 0 (3602879701896397 / 72057594037927936) = 3602879701896397 / 72057594037927936"
    unfolding dadd_def by (rule fl_eqI [where j = 57 and n = 7205759403792794]) simp_all
  show "dadd (3602879701896397 / 72057594037927936) 0 = 3602879701896397 / 72057594037927936"
    unfolding dadd_def by (rule fl_eqI [where j = 57 and n = 7205759403792794]) simp_all
  show "dmul 6 (3602879701896397 / 72057594037927936) = 1351079888211149 / 4503599627370496"
    unfolding dmul_def by (rule fl_eqI [where j = 54 and n = 5404319552844596]) simp_all
  show "dadd 0 (1351079888211149 / 4503599627370496) = 1351079888211149 / 4503599627370496"
    unfolding dadd_def by (rule fl_eqI [where j = 54 and n = 5404319552844596]) simp_all
  show "dadd (1351079888211149 / 4503599627370496) 0 = 1351079888211149 / 4503599627370496"
    unfolding dadd_def by (rule fl_eqI [where j = 54 and n = 5404319552844596]) simp_all
  show "dmul 11 (3602879701896397 / 72057594037927936) = 2476979795053773 / 4503599627370496"
    unfolding dmul_def by (rule fl_eqI [where j = 53 and n = 4953959590107546]) simp_all
  show "dadd 0 (2476979795053773 / 4503599627370496) = 2476979795053773 / 4503599627370496"
    unfolding dadd_def by (rule fl_eqI [where j = 53 and n = 4953959590107546]) simp_all
  show "dadd (2476979795053773 / 4503599627370496) 0 = 2476979795053773 / 4503599627370496"
    unfolding dadd_def by (rule fl_eqI [where j = 53 and n = 4953959590107546]) simp_all
  show "dmul 18 (3602879701896397 / 72057594037927936) = 8106479329266893 / 9007199254740992"
    unfolding dmul_def by (rule fl_eqI [where j = 53 and n = 8106479329266893]) simp_all
  show "dadd 0 (8106479329266893 / 9007199254740992) = 8106479329266893 / 9007199254740992"
    unfolding dadd_def by (rule fl_eqI [where j = 53 and n = 8106479329266893]) simp_all
  show "dmul 13 (3602879701896397 / 72057594037927936) = 5854679515581645 / 9007199254740992"
    unfolding dmul_def by (rule fl_eqI [where j = 53 and n = 5854679515581645]) simp_all
  show "dadd (2476979795053773 / 4503599627370496) (5854679515581645 / 9007199254740992) = 1351079888211149 / 1125899906842624"
    unfolding dadd_def by (rule fl_eqI [where j = 52 and n = 5404319552844596]) simp_all
  show "dadd (8106479329266893 / 9007199254740992) (5854679515581645 / 9007199254740992) = 6980579422424269 / 4503599627370496"
    unfolding dadd_def by (rule fl_eqI [where j = 52 and n = 6980579422424269]) simp_all
  show "dadd (6980579422424269 / 4503599627370496) (3 / 2) = 3433994715870003 / 1125899906842624"
    unfolding dadd_def by (rule fl_eqI [where j = 51 and n = 6867989431740006]) simp_all
  show "dadd (8106479329266893 / 9007199254740992) (8106479329266893 / 9007199254740992) = 8106479329266893 / 4503599627370496"
    unfolding dadd_def by (rule fl_eqI [where j = 52 and n = 8106479329266893]) simp_all
  show "dadd (8106479329266893 / 4503599627370496) 0 = 8106479329266893 / 4503599627370496"
    unfolding dadd_def by (rule fl_eqI [where j = 52 and n = 8106479329266893]) simp_all
  show "dmul 22 (3602879701896397 / 72057594037927936) = 2476979795053773 / 2251799813685248"
    unfolding dmul_def by (rule fl_eqI [where j = 52 and n = 4953959590107546]) simp_all
  show "dadd (8106479329266893 / 9007199254740992) (2476979795053773 / 2251799813685248) = 2"
    unfolding dadd_def by (rule fl_eqI [where j = 51 and n = 4503599627370496]) simp_all
  show "dadd 2 (5404319552844595 / 4503599627370496) = 3602879701896397 / 1125899906842624"
    unfolding dadd_def by (rule fl_eqI [where j = 51 and n = 7205759403792794]) simp_all
  show "dmul 3 (3602879701896397 / 72057594037927936) = 1351079888211149 / 9007199254740992"
    unfolding dmul_def by (rule fl_eqI [where j = 55 and n = 5404319552844596]) simp_all
  show "dadd 0 (1351079888211149 / 9007199254740992) = 1351079888211149 / 9007199254740992"
    unfolding dadd_def by (rule fl_eqI [where j = 55 and n = 5404319552844596]) simp_all
  show "dmul 17 (3602879701896397 / 72057594037927936) = 1914029841632461 / 2251799813685248"
    unfolding dmul_def by (rule fl_eqI [where j = 53 and n = 7656119366529844]) simp_all
  show "dadd 0 (1914029841632461 / 2251799813685248) = 1914029841632461 / 2251799813685248"
    unfolding dadd_def by (rule fl_eqI [where j = 53 and n = 7656119366529844]) simp_all
  show "dadd (1914029841632461 / 2251799813685248) 0 = 1914029841632461 / 2251799813685248"
    unfolding dadd_def by (rule fl_eqI [where j = 53 and n = 7656119366529844]) simp_all
  show "dadd 0 (2476979795053773 / 2251799813685248) = 2476979795053773 / 2251799813685248"
    unfolding dadd_def by (rule fl_eqI [where j = 52 and n = 4953959590107546]) simp_all
  show "dadd (2476979795053773 / 2251799813685248) 0 = 2476979795053773 / 2251799813685248"
    unfolding dadd_def by (rule fl_eqI [where j = 52 and n = 4953959590107546]) simp_all
  show "dadd (1351079888211149 / 9007199254740992) (3602879701896397 / 36028797018963968) = 1 / 4"
    unfolding dadd_def by (rule fl_eqI [where j = 54 and n = 4503599627370496]) simp_all
  show "dadd (1 / 4) (5404319552844595 / 18014398509481984) = 2476979795053773 / 4503599627370496"
    unfolding dadd_def by (rule fl_eqI [where j = 53 and n = 4953959590107546]) simp_all
  show "dadd (1351079888211149 / 9007199254740992) (6305039478318695 / 18014398509481984) = 1 / 2"
    unfolding dadd_def by (rule fl_eqI [where j = 53 and n = 4503599627370496]) simp_all
  show "dadd (1 / 2) (5404319552844595 / 4503599627370496) = 7656119366529843 / 4503599627370496"
    unfolding dadd_def by (rule fl_eqI [where j = 52 and n = 7656119366529843]) simp_all
  show "dadd (6305039478318695 / 18014398509481984) (6305039478318695 / 18014398509481984) = 6305039478318695 / 9007199254740992"
    unfolding dadd_def by (rule fl_eqI [where j = 53 and n = 6305039478318695]) simp_all
  show "dadd (6305039478318695 / 18014398509481984) (1351079888211149 / 2251799813685248) = 1069604911500493 / 1125899906842624"
    unfolding dadd_def by (rule fl_eqI [where j = 53 and n = 8556839292003944]) simp_all
  show "dadd (1069604911500493 / 1125899906842624) (3 / 2) = 2758454771764429 / 1125899906842624"
    unfolding dadd_def by (rule fl_eqI [where j = 51 and n = 5516909543528858]) simp_all
  show "dadd (1351079888211149 / 2251799813685248) (1351079888211149 / 2251799813685248) = 1351079888211149 / 1125899906842624"
    unfolding dadd_def by (rule fl_eqI [where j = 52 and n = 5404319552844596]) simp_all
  show "dadd (1351079888211149 / 2251799813685248) (1914029841632461 / 2251799813685248) = 1632554864921805 / 1125899906842624"
    unfolding dadd_def by (rule fl_eqI [where j = 52 and n = 6530219459687220]) simp_all
  show "dadd (1632554864921805 / 1125899906842624) (3 / 2) = 3321404725185741 / 1125899906842624"
    unfolding dadd_def by (rule fl_eqI [where j = 51 and n = 6642809450371482]) simp_all
  show "dadd (1914029841632461 / 2251799813685248) (1914029841632461 / 2251799813685248) = 1914029841632461 / 1125899906842624"
    unfolding dadd_def by (rule fl_eqI [where j = 52 and n = 7656119366529844]) simp_all
  show "dadd (2476979795053773 / 4503599627370496) (1 / 4) = 3602879701896397 / 4503599627370496"
    unfolding dadd_def by (rule fl_eqI [where j = 53 and n = 7205759403792794]) simp_all
  show "dadd (3602879701896397 / 4503599627370496) (2026619832316723 / 2251799813685248) = 7656119366529843 / 4503599627370496"
    unfolding dadd_def by (rule fl_eqI [where j = 52 and n = 7656119366529843]) simp_all
  show "dadd (6305039478318695 / 9007199254740992) (1 / 4) = 8556839292003943 / 9007199254740992"
    unfolding dadd_def by (rule fl_eqI [where j = 53 and n = 8556839292003943]) simp_all
  show "dadd (8556839292003943 / 9007199254740992) (5404319552844595 / 9007199254740992) = 6980579422424269 / 4503599627370496"
    unfolding dadd_def by (rule fl_eqI [where j = 52 and n = 6980579422424269]) simp_all
  show "dadd (6305039478318695 / 9007199254740992) (1 / 2) = 1351079888211149 / 1125899906842624"
    unfolding dadd_def by (rule fl_eqI [where j = 52 and n = 5404319552844596]) simp_all
  show "dadd (1351079888211149 / 1125899906842624) (2026619832316723 / 2251799813685248) = 4728779608739021 / 2251799813685248"
    unfolding dadd_def by (rule fl_eqI [where j = 51 and n = 4728779608739021]) simp_all
  show "dadd (1351079888211149 / 1125899906842624) (1 / 2) = 1914029841632461 / 1125899906842624"
    unfolding dadd_def by (rule fl_eqI [where j = 52 and n = 7656119366529844]) simp_all
  show "dadd (1351079888211149 / 1125899906842624) (6305039478318695 / 9007199254740992) = 1069604911500493 / 562949953421312"
    unfolding dadd_def by (rule fl_eqI [where j = 52 and n = 8556839292003944]) simp_all
  show "dadd (1069604911500493 / 562949953421312) (5404319552844595 / 9007199254740992) = 5629499534213121 / 2251799813685248"
    unfolding dadd_def by (rule fl_eqI [where j = 51 and n = 5629499534213121]) simp_all
  show "dadd (7656119366529843 / 4503599627370496) (1 / 4) = 8782019273372467 / 4503599627370496"
    unfolding dadd_def by (rule fl_eqI [where j = 52 and n = 8782019273372467]) simp_all
  show "dadd (8782019273372467 / 4503599627370496) (5404319552844595 / 4503599627370496) = 7093169413108531 / 2251799813685248"
    unfolding dadd_def by (rule fl_eqI [where j = 51 and n = 7093169413108531]) simp_all
  show "dadd (1914029841632461 / 1125899906842624) (6305039478318695 / 9007199254740992) = 1351079888211149 / 562949953421312"
    unfolding dadd_def by (rule fl_eqI [where j = 51 and n = 5404319552844596]) simp_all
  show "dadd (1351079888211149 / 562949953421312) (2026619832316723 / 2251799813685248) = 7430939385161319 / 2251799813685248"
    unfolding dadd_def by (rule fl_eqI [where j = 51 and n = 7430939385161319]) simp_all
  show "dadd (1491817376566477 / 562949953421312) (5404319552844595 / 9007199254740992) = 7318349394477057 / 2251799813685248"
    unfolding dadd_def by (rule fl_eqI [where j = 51 and n = 7318349394477057]) simp_all
  show "dadd (2758454771764429 / 1125899906842624) (1 / 2) = 3321404725185741 / 1125899906842624"
    unfolding dadd_def by (rule fl_eqI [where j = 51 and n = 6642809450371482]) simp_all
  show "dadd (3321404725185741 / 1125899906842624) (3 / 2) = 5010254585449677 / 1125899906842624"
    unfolding dadd_def by (rule fl_eqI [where j = 50 and n = 5010254585449677]) simp_all
  show "dadd (3321404725185741 / 1125899906842624) (6305039478318695 / 9007199254740992) = 2054767329987789 / 562949953421312"
    unfolding dadd_def by (rule fl_eqI [where j = 51 and n = 8219069319951156]) simp_all
  show "dadd (2054767329987789 / 562949953421312) (3 / 2) = 2899192260119757 / 562949953421312"
    unfolding dadd_def by (rule fl_eqI [where j = 50 and n = 5798384520239514]) simp_all
  show "dadd (6980579422424269 / 4503599627370496) (1 / 4) = 8106479329266893 / 4503599627370496"
    unfolding dadd_def by (rule fl_eqI [where j = 52 and n = 8106479329266893]) simp_all
  show "dadd (8106479329266893 / 4503599627370496) (5404319552844595 / 9007199254740992) = 5404319552844595 / 2251799813685248"
    unfolding dadd_def by (rule fl_eqI [where j = 51 and n = 5404319552844595]) simp_all
  show "dadd (6980579422424269 / 4503599627370496) (1 / 2) = 2308094809027379 / 1125899906842624"
    unfolding dadd_def by (rule fl_eqI [where j = 51 and n = 4616189618054758]) simp_all
  show "dadd (2308094809027379 / 1125899906842624) (3 / 2) = 3996944669291315 / 1125899906842624"
    unfolding dadd_def by (rule fl_eqI [where j = 51 and n = 7993889338582630]) simp_all
  show "dadd (7656119366529843 / 4503599627370496) 0 = 7656119366529843 / 4503599627370496"
    unfolding dadd_def by (rule fl_eqI [where j = 52 and n = 7656119366529843]) simp_all
  show "dadd (7656119366529843 / 4503599627370496) (2026619832316723 / 2251799813685248) = 1463669878895411 / 562949953421312"
    unfolding dadd_def by (rule fl_eqI [where j = 51 and n = 5854679515581644]) simp_all
  show "dsub (1463669878895411 / 562949953421312) (3602879701896397 / 18014398509481984) = 2702159776422297 / 1125899906842624"
    unfolding dsub_def by (rule fl_eqI [where j = 51 and n = 5404319552844594]) simp_all
  show "dadd (8782019273372467 / 4503599627370496) (2026619832316723 / 2251799813685248) = 1604407367250739 / 562949953421312"
    unfolding dadd_def by (rule fl_eqI [where j = 51 and n = 6417629469002956]) simp_all
  show "dadd (4728779608739021 / 2251799813685248) (1 / 4) = 5291729562160333 / 2251799813685248"
    unfolding dadd_def by (rule fl_eqI [where j = 51 and n = 5291729562160333]) simp_all
  show "dadd (5291729562160333 / 2251799813685248) (3 / 2) = 8669429282688205 / 2251799813685248"
    unfolding dadd_def by (rule fl_eqI [where j = 51 and n = 8669429282688205]) simp_all
  show "dadd (4728779608739021 / 2251799813685248) (1 / 2) = 5854679515581645 / 2251799813685248"
    unfolding dadd_def by (rule fl_eqI [where j = 51 and n = 5854679515581645]) simp_all
  show "dadd (5854679515581645 / 2251799813685248) (2026619832316723 / 2251799813685248) = 7 / 2"
    unfolding dadd_def by (rule fl_eqI [where j = 51 and n = 7881299347898368]) simp_all
  show "dadd (5179139571476071 / 2251799813685248) (1 / 2) = 6305039478318695 / 2251799813685248"
    unfolding dadd_def by (rule fl_eqI [where j = 51 and n = 6305039478318695]) simp_all
  show "dadd (6305039478318695 / 2251799813685248) (5404319552844595 / 9007199254740992) = 1914029841632461 / 562949953421312"
    unfolding dadd_def by (rule fl_eqI [where j = 51 and n = 7656119366529844]) simp_all
  show "dadd (5629499534213121 / 2251799813685248) (1 / 2) = 6755399441055745 / 2251799813685248"
    unfolding dadd_def by (rule fl_eqI [where j = 51 and n = 6755399441055745]) simp_all
  show "dadd (6755399441055745 / 2251799813685248) (5404319552844595 / 4503599627370496) = 4728779608739021 / 1125899906842624"
    unfolding dadd_def by (rule fl_eqI [where j = 50 and n = 4728779608739021]) simp_all
  show "dadd (7093169413108531 / 2251799813685248) (1 / 4) = 7656119366529843 / 2251799813685248"
    unfolding dadd_def by (rule fl_eqI [where j = 51 and n = 7656119366529843]) simp_all
  show "dadd (7656119366529843 / 2251799813685248) (5404319552844595 / 4503599627370496) = 2589569785738035 / 562949953421312"
    unfolding dadd_def by (rule fl_eqI [where j = 50 and n = 5179139571476070]) simp_all
  show "dadd (7430939385161319 / 2251799813685248) 0 = 7430939385161319 / 2251799813685248"
    unfolding dadd_def by (rule fl_eqI [where j = 51 and n = 7430939385161319]) simp_all
  show "dadd (7430939385161319 / 2251799813685248) (2026619832316723 / 2251799813685248) = 4728779608739021 / 1125899906842624"
    unfolding dadd_def by (rule fl_eqI [where j = 50 and n = 4728779608739021]) simp_all
  show "dsub (4728779608739021 / 1125899906842624) (3602879701896397 / 18014398509481984) = 4"
    unfolding dsub_def by (rule fl_eqI [where j = 50 and n = 4503599627370496]) simp_all
  show "dadd (5010254585449677 / 1125899906842624) 0 = 5010254585449677 / 1125899906842624"
    unfolding dadd_def by (rule fl_eqI [where j = 50 and n = 5010254585449677]) simp_all
  show "dadd (5010254585449677 / 1125899906842624) (3 / 2) = 6699104445713613 / 1125899906842624"
    unfolding dadd_def by (rule fl_eqI [where j = 50 and n = 6699104445713613]) simp_all
  show "dsub (6699104445713613 / 1125899906842624) (3602879701896397 / 18014398509481984) = 23 / 4"
    unfolding dsub_def by (rule fl_eqI [where j = 50 and n = 6473924464345088]) simp_all
  show "dadd (5010254585449677 / 1125899906842624) (1 / 2) = 5573204538870989 / 1125899906842624"
    unfolding dadd_def by (rule fl_eqI [where j = 50 and n = 5573204538870989]) simp_all
  show "dadd (5573204538870989 / 1125899906842624) (3 / 2) = 7262054399134925 / 1125899906842624"
    unfolding dadd_def by (rule fl_eqI [where j = 50 and n = 7262054399134925]) simp_all
  show "dmul 7 (3602879701896397 / 36028797018963968) = 6305039478318695 / 9007199254740992"
    unfolding dmul_def by (rule fl_eqI [where j = 53 and n = 6305039478318695]) simp_all
  show "dmul 2 (1 / 2) = 1"
    unfolding dmul_def by (rule fl_eqI [where j = 52 and n = 4503599627370496]) simp_all
  show "dadd (6305039478318695 / 9007199254740992) 1 = 1914029841632461 / 1125899906842624"
    unfolding dadd_def by (rule fl_eqI [where j = 52 and n = 7656119366529844]) simp_all
  show "dmul 2 (3602879701896397 / 36028797018963968) = 3602879701896397 / 18014398509481984"
    unfolding dmul_def by (rule fl_eqI [where j = 55 and n = 7205759403792794]) simp_all
  show "dmul 3 (1 / 2) = 3 / 2"
    unfolding dmul_def by (rule fl_eqI [where j = 52 and n = 6755399441055744]) simp_all
  show "dadd (3602879701896397 / 18014398509481984) (3 / 2) = 7656119366529843 / 4503599627370496"
    unfolding dadd_def by (rule fl_eqI [where j = 52 and n = 7656119366529843]) simp_all
qed

lemma take1_hd: "take 1 xs = [s] \<Longrightarrow> xs \<noteq> [] \<and> hd xs = s"
  by (cases xs) auto

lemma chord_result:
  assumes "2 \<le> length css" and "take 1 (beam_loop css initialBeam) = [st]"
  shows "optimizeChord css lastPositions = Inr (map Some (beamState.positions st))"
proof -
  have l: "length css \<noteq> 0" "length css \<noteq> 1" using assms(1) by auto
  from take1_hd [OF assms(2)] have ne: "beam_loop css initialBeam \<noteq> []"
    and h: "hd (beam_loop css initialBeam) = st" by simp_all
  from hd_conv_nth [OF ne] h have "beam_loop css initialBeam ! 0 = st" by simp
  then show ?thesis
    using l ne by (simp add: optimizeChord_def del: beam_loop.simps)
qed

lemma chord_fallback:
  assumes "2 \<le> length css" and "beam_loop css initialBeam = []"
  shows "optimizeChord css lastPositions = Inr (filter Boolean (map index0 css))"
proof -
  have l: "length css \<noteq> 0" "length css \<noteq> 1" using assms(1) by auto
  show ?thesis
    using l assms(2) by (simp add: optimizeChord_def del: beam_loop.simps)
qed

text \<open>
  The final beams of the chords used below (the first state, when there is one), the
  cost of the first-candidate assignment of the E minor chord, and three single notes.
\<close>

lemma beam_69_64_55_83_50:
  "beam_loop [getCandidates 69 standard 22, getCandidates 64 standard 22, getCandidates 55 standard 22, getCandidates 83 standard 22, getCandidates 50 standard 22] initialBeam = []"
  unfolding candidates_table
  by (simp add: initialBeam_def sort_byCost spanWith_def double_table Let_def)

lemma beam_52_55_59:
  "take 1 (beam_loop [getCandidates 52 standard 22, getCandidates 55 standard 22, getCandidates 59 standard 22] initialBeam) =
     [\<lparr>beamState.positions = [\<lparr>string = 3, fret = 2\<rparr>, \<lparr>string = 2, fret = 0\<rparr>, \<lparr>string = 1, fret = 0\<rparr>], cost = - (1351079888211149 / 4503599627370496), used = {1, 2, 3}\<rparr>]"
  unfolding candidates_table
  by (simp add: initialBeam_def sort_byCost spanWith_def double_table Let_def)

lemma beam_55_59:
  "take 1 (beam_loop [getCandidates 55 standard 22, getCandidates 59 standard 22] initialBeam) =
     [\<lparr>beamState.positions = [\<lparr>string = 2, fret = 0\<rparr>, \<lparr>string = 1, fret = 0\<rparr>], cost = - (3602879701896397 / 9007199254740992), used = {1, 2}\<rparr>]"
  unfolding candidates_table
  by (simp add: initialBeam_def sort_byCost spanWith_def double_table Let_def)

lemma beam_em7:
  "take 1 (beam_loop [getCandidates 40 standard 22, getCandidates 47 standard 22, getCandidates 52 standard 22, getCandidates 55 standard 22, getCandidates 59 standard 22, getCandidates 64 standard 22] initialBeam) =
     [\<lparr>beamState.positions = [\<lparr>string = 5, fret = 0\<rparr>, \<lparr>string = 4, fret = 2\<rparr>, \<lparr>string = 3, fret = 2\<rparr>, \<lparr>string = 2, fret = 0\<rparr>, \<lparr>string = 1, fret = 0\<rparr>, \<lparr>string = 0, fret = 0\<rparr>], cost = - (1351079888211149 / 2251799813685248), used = {0, 1, 2, 3, 4, 5}\<rparr>]"
  unfolding candidates_table
  by (simp add: initialBeam_def sort_byCost spanWith_def double_table Let_def)

lemma cost_em7_first_candidates:
  "assignmentCost (map hd [getCandidates 40 standard 22, getCandidates 47 standard 22, getCandidates 52 standard 22, getCandidates 55 standard 22, getCandidates 59 standard 22, getCandidates 64 standard 22]) = - (1351079888211149 / 2251799813685248)"
  unfolding candidates_table
  by (simp add: assignmentCost_def child_def spanWith_def double_table)

lemma single_40:
  "optimizeChord [getCandidates 40 standard 22] [] = Inr [Some \<lparr>string = 5, fret = 0\<rparr>]"
  unfolding candidates_table
  by (simp add: optimizeChord_def noteCost_def index0_def double_table)

lemma single_64_after_9:
  "optimizeChord [getCandidates 64 standard 22] [Some \<lparr>string = 2, fret = 9\<rparr>] = Inr [Some \<lparr>string = 2, fret = 9\<rparr>]"
  unfolding candidates_table
  by (simp add: optimizeChord_def noteCost_def index0_def double_table)

lemma single_64:
  "optimizeChord [getCandidates 64 standard 22] [] = Inr [Some \<lparr>string = 0, fret = 0\<rparr>]"
  unfolding candidates_table
  by (simp add: optimizeChord_def noteCost_def index0_def double_table)

lemma single_30:
  "optimizeChord [getCandidates 30 standard 22] [] = Inr [None]"
  unfolding candidates_table
  by (simp add: optimizeChord_def index0_def)

lemma single_40_after_undefined:
  "optimizeChord [getCandidates 40 standard 22] [None] = Inl TypeError"
  unfolding candidates_table
  by (simp add: optimizeChord_def noteCost_def index0_def)

text \<open>
  Costs that are equal as decimal fractions need not be equal as doubles, and the
  order of the beam and the choice of the single-note loop follow the doubles.
  \<^item> Pitches 56 and 77 in drop D tuning: the assignments \<open>(4, 11), (0, 13)\<close> and
    \<open>(5, 18), (1, 18)\<close> both cost \<open>1.8\<close> in decimals. As doubles the first costs
    \<open>1.8000000000000003\<close> and the second \<open>1.8\<close>, so the second is returned, though it is
    pushed later.
  \<^item> Pitches 62, 57, 69 and 50 in standard tuning: the assignments
    \<open>(2, 7), (3, 7), (0, 5), (4, 5)\<close> and \<open>(1, 3), (2, 2), (0, 5), (3, 0)\<close> both cost
    \<open>2.4\<close> in decimals. As doubles the first costs \<open>2.4\<close> and the
    second \<open>2.3999999999999995\<close>, so the second is returned.
  \<^item> A single note with the candidates \<open>(0, 7)\<close> and \<open>(0, 2)\<close> after the position
    \<open>(0, 5)\<close>: both cost \<open>1.7\<close> in decimals; as doubles \<open>0.7000000000000001 + 1\<close> is
    \<open>1.7000000000000002\<close> and \<open>0.2 + 1.5\<close> is \<open>1.7\<close>, so the second candidate is
    strictly cheaper and replaces the first.
\<close>

lemma beam_dropD_56_77:
  "take 1 (beam_loop [getCandidates 56 dropD 22, getCandidates 77 dropD 22] initialBeam) =
     [\<lparr>beamState.positions = [\<lparr>string = 5, fret = 18\<rparr>, \<lparr>string = 1, fret = 18\<rparr>], cost = 8106479329266893 / 4503599627370496, used = {1, 5}\<rparr>]"
  unfolding candidates_table
  by (simp add: initialBeam_def sort_byCost spanWith_def double_table Let_def)

lemma optimizeChord_dropD_56_77:
  "optimizeChord [getCandidates 56 dropD 22, getCandidates 77 dropD 22] [] =
     Inr [Some \<lparr>string = 5, fret = 18\<rparr>, Some \<lparr>string = 1, fret = 18\<rparr>]"
  using chord_result [OF _ beam_dropD_56_77, of "[]"] by simp

lemma beam_62_57_69_50:
  "take 1 (beam_loop [getCandidates 62 standard 22, getCandidates 57 standard 22, getCandidates 69 standard 22, getCandidates 50 standard 22] initialBeam) =
     [\<lparr>beamState.positions = [\<lparr>string = 1, fret = 3\<rparr>, \<lparr>string = 2, fret = 2\<rparr>, \<lparr>string = 0, fret = 5\<rparr>, \<lparr>string = 3, fret = 0\<rparr>], cost = 2702159776422297 / 1125899906842624, used = {3, 0, 2, 1}\<rparr>]"
  unfolding candidates_table
  by (simp add: initialBeam_def sort_byCost spanWith_def double_table Let_def)

lemma optimizeChord_62_57_69_50:
  "optimizeChord [getCandidates 62 standard 22, getCandidates 57 standard 22, getCandidates 69 standard 22, getCandidates 50 standard 22] [] =
     Inr [Some \<lparr>string = 1, fret = 3\<rparr>, Some \<lparr>string = 2, fret = 2\<rparr>, Some \<lparr>string = 0, fret = 5\<rparr>, Some \<lparr>string = 3, fret = 0\<rparr>]"
  using chord_result [OF _ beam_62_57_69_50, of "[]"] by simp

lemma single_tie_of_decimals:
  "optimizeChord [[\<lparr>string = 0, fret = 7\<rparr>, \<lparr>string = 0, fret = 2\<rparr>]] [Some \<lparr>string = 0, fret = 5\<rparr>] = Inr [Some \<lparr>string = 0, fret = 2\<rparr>]"
  by (simp add: optimizeChord_def noteCost_def index0_def double_table)

subsection \<open>The fallback of the chord path\<close>

lemma fallback_nonempty:
  "\<forall>cs \<in> set css. cs \<noteq> [] \<Longrightarrow> filter Boolean (map index0 css) = map (\<lambda>cs. Some (hd cs)) css"
  by (induction css) (auto simp: Boolean_def index0_def split: list.splits)

text \<open>
  Claim C6. A chord of seven pitches, each with a non-empty candidate set: no state of
  the beam survives the seven rounds (there are only six strings), and the optimizer
  returns the first candidate of every candidate set, seven positions, whatever
  their strings and frets are.
\<close>

theorem chord_of_seven_falls_back:
  assumes "length ps = 7" and "\<forall>p \<in> set ps. getCandidates p t mf \<noteq> []"
  shows "beam_loop (map (\<lambda>p. getCandidates p t mf) ps) initialBeam = []
       \<and> optimizeChord (map (\<lambda>p. getCandidates p t mf) ps) lastPositions =
           Inr (map (\<lambda>p. Some (hd (getCandidates p t mf))) ps)
       \<and> length (map (\<lambda>p. Some (hd (getCandidates p t mf))) ps) = 7"
proof -
  let ?css = "map (\<lambda>p. getCandidates p t mf) ps"
  have s: "\<forall>cs \<in> set ?css. \<forall>c \<in> set cs. string c < 6"
    by (auto dest: string_getCandidates)
  have len: "6 < length ?css" using assms(1) by simp
  have empty: "beam_loop ?css initialBeam = []"
    using len s by (rule beam_empty_over6)
  have ne: "\<forall>cs \<in> set ?css. cs \<noteq> []" using assms(2) by auto
  have "optimizeChord ?css lastPositions = Inr (filter Boolean (map index0 ?css))"
    using assms(1) empty by (simp add: optimizeChord_def)
  also have "filter Boolean (map index0 ?css) = map (\<lambda>cs. Some (hd cs)) ?css"
    using ne by (rule fallback_nonempty)
  finally show ?thesis using empty assms(1) by (simp add: comp_def)
qed

theorem chord_of_seven_falls_back_witness:
  "length [40, 45, 50, 55, 59, 64, 69 :: int] = 7
   \<and> beam_loop (map (\<lambda>p. getCandidates p standard 22) [40, 45, 50, 55, 59, 64, 69]) initialBeam = []
   \<and> optimizeChord (map (\<lambda>p. getCandidates p standard 22) [40, 45, 50, 55, 59, 64, 69]) [] =
       Inr [Some \<lparr>string = 5, fret = 0\<rparr>, Some \<lparr>string = 4, fret = 0\<rparr>,
            Some \<lparr>string = 3, fret = 0\<rparr>, Some \<lparr>string = 2, fret = 0\<rparr>,
            Some \<lparr>string = 1, fret = 0\<rparr>, Some \<lparr>string = 0, fret = 0\<rparr>,
            Some \<lparr>string = 0, fret = 5\<rparr>]"
proof -
  have h1: "length [40, 45, 50, 55, 59, 64, 69 :: int] = 7" by simp
  have h2: "\<forall>p \<in> set [40, 45, 50, 55, 59, 64, 69]. getCandidates p standard 22 \<noteq> []"
    by code_simp
  have e: "map (\<lambda>p. Some (hd (getCandidates p standard 22))) [40, 45, 50, 55, 59, 64, 69] =
       [Some \<lparr>string = 5, fret = 0\<rparr>, Some \<lparr>string = 4, fret = 0\<rparr>,
        Some \<lparr>string = 3, fret = 0\<rparr>, Some \<lparr>string = 2, fret = 0\<rparr>,
        Some \<lparr>string = 1, fret = 0\<rparr>, Some \<lparr>string = 0, fret = 0\<rparr>,
        Some \<lparr>string = 0, fret = 5\<rparr>]"
    by code_simp
  from chord_of_seven_falls_back [OF h1 h2, of "[]"] h1 h2 e show ?thesis
    by simp
qed

text \<open>
  Claim C5. A pitch with an empty candidate set should contribute nothing to the
  result, on the single-note path and on the chord path alike. On the single-note path
  the code returns \<^verbatim>\<open>[best]\<close> with \<^verbatim>\<open>best = candidateSets[0][0]\<close>, which is
  \<^verbatim>\<open>undefined\<close>: the result has one entry, and that entry is not a position. Pitch 30
  lies below every open string of the standard tuning. The entry then makes the next
  single-note event throw, since \<^verbatim>\<open>lp.fret\<close> is read from it.
\<close>

theorem unreachable_single_pitch_yields_undefined:
  "getCandidates 30 standard 22 = []
   \<and> optimizeChord [getCandidates 30 standard 22] [] = Inr [None]
   \<and> optimizeChord [getCandidates 40 standard 22] [None] = Inl TypeError"
proof (intro conjI)
  show "getCandidates 30 standard 22 = []" by code_simp
  show "optimizeChord [getCandidates 30 standard 22] [] = Inr [None]" by (rule single_30)
  show "optimizeChord [getCandidates 40 standard 22] [None] = Inl TypeError"
    by (rule single_40_after_undefined)
qed

text \<open>
  The chord path does drop such pitches: its fallback filters the first candidates
  with \<^verbatim>\<open>filter(Boolean)\<close>.
\<close>

lemma chord_path_drops_unreachable:
  assumes "2 \<le> length css"
  shows "\<exists>ps. optimizeChord css lastPositions = Inr (map Some ps)
            \<and> length ps \<le> length (filter (\<lambda>cs. cs \<noteq> []) css)"
proof (cases "beam_loop css initialBeam")
  case Nil
  have "filter Boolean (map index0 css) = map Some (map hd (filter (\<lambda>cs. cs \<noteq> []) css))"
    by (induction css) (auto simp: Boolean_def index0_def split: list.splits)
  with Nil assms
  have "optimizeChord css lastPositions = Inr (map Some (map hd (filter (\<lambda>cs. cs \<noteq> []) css)))"
    by (auto simp: optimizeChord_def)
  then show ?thesis
    by (intro exI [of _ "map hd (filter (\<lambda>cs. cs \<noteq> []) css)"]) simp
next
  case (Cons st rest)
  with beam_loop_inv [of css] have inv: "state_inv css st" by simp
  then have a: "list_all2 (\<lambda>p cs. p \<in> set cs) (beamState.positions st) css"
    by (simp add: state_inv_def)
  have "\<forall>cs \<in> set css. cs \<noteq> []"
  proof
    fix cs assume "cs \<in> set css"
    then obtain i where i: "i < length css" "css ! i = cs"
      by (auto simp: in_set_conv_nth)
    with a have "beamState.positions st ! i \<in> set cs"
      by (auto simp: list_all2_conv_all_nth)
    then show "cs \<noteq> []" by auto
  qed
  then have "filter (\<lambda>cs. cs \<noteq> []) css = css" by simp
  with Cons assms list_all2_lengthD [OF a] show ?thesis
    by (auto simp: optimizeChord_def)
qed

subsection \<open>The single-note path\<close>

lemma map_lastPositions_Some:
  "map_lastPositions c (map Some lps) =
     Inr (map (\<lambda>lp. \<bar>fret lp - fret c\<bar> + \<bar>int (string lp) - int (string c)\<bar> * 2) lps)"
  by (induction lps) simp_all

lemma Math_min_moveDistance:
  assumes "lps \<noteq> []"
  shows "Math_min (map (\<lambda>lp. \<bar>fret lp - fret c\<bar> + \<bar>int (string lp) - int (string c)\<bar> * 2) lps)
           = moveDistance c lps"
proof -
  let ?d = "\<lambda>lp. \<bar>fret lp - fret c\<bar> + \<bar>int (string lp) - int (string c)\<bar> * 2"
  have "Math_min (map ?d lps) = Min (set (map ?d lps))"
    using assms by (intro Math_min_Min) simp
  also have "\<dots> = moveDistance c lps"
    by (simp add: moveDistance_def mult.commute)
  finally show ?thesis .
qed

lemma noteCost_Some: "noteCost c (map Some lps) = Inr (spec_noteCost c lps)"
proof (cases "lps = []")
  case True
  then show ?thesis by (simp add: noteCost_def spec_noteCost_def)
next
  case False
  show ?thesis
    unfolding noteCost_def spec_noteCost_def map_lastPositions_Some
    using False
    by (simp add: Math_min_moveDistance [OF False] dmul_commute [of "fl (1 / 2)"] Let_def)
qed

lemma single_loop_result:
  assumes "\<forall>c \<in> set cs. noteCost c lastPositions = Inr (f c)"
  shows "\<exists>b' bc'. single_loop cs lastPositions (b, bc) = Inr (b', bc')
          \<and> ((b' = b \<and> bc' = bc \<and> (\<forall>c \<in> set cs. \<not> less_bestCost (f c) bc))
             \<or> (\<exists>i < length cs. b' = Some (cs ! i) \<and> bc' = Some (f (cs ! i))
                   \<and> less_bestCost (f (cs ! i)) bc
                   \<and> (\<forall>j < length cs. f (cs ! i) \<le> f (cs ! j))
                   \<and> (\<forall>j < i. f (cs ! i) < f (cs ! j))))"
  using assms
proof (induction cs arbitrary: b bc)
  case Nil
  then show ?case by simp
next
  case (Cons c cs)
  from Cons.prems have fc: "noteCost c lastPositions = Inr (f c)"
    and rest: "\<forall>c \<in> set cs. noteCost c lastPositions = Inr (f c)" by simp_all
  show ?case
  proof (cases "less_bestCost (f c) bc")
    case True
    from Cons.IH [OF rest, of "Some c" "Some (f c)"]
    obtain b' bc' where r: "single_loop cs lastPositions (Some c, Some (f c)) = Inr (b', bc')"
      and d: "(b' = Some c \<and> bc' = Some (f c) \<and> (\<forall>c' \<in> set cs. \<not> less_bestCost (f c') (Some (f c))))
             \<or> (\<exists>i < length cs. b' = Some (cs ! i) \<and> bc' = Some (f (cs ! i))
                   \<and> less_bestCost (f (cs ! i)) (Some (f c))
                   \<and> (\<forall>j < length cs. f (cs ! i) \<le> f (cs ! j))
                   \<and> (\<forall>j < i. f (cs ! i) < f (cs ! j)))"
      by blast
    have eq: "single_loop (c # cs) lastPositions (b, bc) = Inr (b', bc')"
      using fc True r by simp
    from d show ?thesis
    proof
      assume a: "b' = Some c \<and> bc' = Some (f c) \<and> (\<forall>c' \<in> set cs. \<not> less_bestCost (f c') (Some (f c)))"
      then have "\<forall>c' \<in> set cs. f c \<le> f c'"
        by (auto simp: not_less)
      then have "\<forall>j < length cs. f c \<le> f (cs ! j)"
        by simp
      then have min: "\<forall>j < length (c # cs). f c \<le> f ((c # cs) ! j)"
        by (auto simp: nth_Cons split: nat.splits)
      have "\<exists>i < length (c # cs). b' = Some ((c # cs) ! i) \<and> bc' = Some (f ((c # cs) ! i))
                   \<and> less_bestCost (f ((c # cs) ! i)) bc
                   \<and> (\<forall>j < length (c # cs). f ((c # cs) ! i) \<le> f ((c # cs) ! j))
                   \<and> (\<forall>j < i. f ((c # cs) ! i) < f ((c # cs) ! j))"
        using a True min by (intro exI [of _ 0]) simp
      with eq show ?thesis by blast
    next
      assume "\<exists>i < length cs. b' = Some (cs ! i) \<and> bc' = Some (f (cs ! i))
                   \<and> less_bestCost (f (cs ! i)) (Some (f c))
                   \<and> (\<forall>j < length cs. f (cs ! i) \<le> f (cs ! j))
                   \<and> (\<forall>j < i. f (cs ! i) < f (cs ! j))"
      then obtain i where i: "i < length cs" "b' = Some (cs ! i)" "bc' = Some (f (cs ! i))"
        and lt: "f (cs ! i) < f c"
        and min: "\<forall>j < length cs. f (cs ! i) \<le> f (cs ! j)"
        and first: "\<forall>j < i. f (cs ! i) < f (cs ! j)"
        by auto
      have l: "less_bestCost (f (cs ! i)) bc"
        using True lt by (cases bc) auto
      have min': "\<forall>j < length (c # cs). f (cs ! i) \<le> f ((c # cs) ! j)"
        using min lt by (auto simp: nth_Cons split: nat.splits)
      have first': "\<forall>j < Suc i. f (cs ! i) < f ((c # cs) ! j)"
        using first lt by (auto simp: nth_Cons split: nat.splits)
      have "\<exists>k < length (c # cs). b' = Some ((c # cs) ! k) \<and> bc' = Some (f ((c # cs) ! k))
                   \<and> less_bestCost (f ((c # cs) ! k)) bc
                   \<and> (\<forall>j < length (c # cs). f ((c # cs) ! k) \<le> f ((c # cs) ! j))
                   \<and> (\<forall>j < k. f ((c # cs) ! k) < f ((c # cs) ! j))"
        using i l min' first' by (intro exI [of _ "Suc i"]) simp
      with eq show ?thesis by blast
    qed
  next
    case False
    then obtain x where bc: "bc = Some x" and x: "x \<le> f c"
      by (cases bc) auto
    from Cons.IH [OF rest, of b bc]
    obtain b' bc' where r: "single_loop cs lastPositions (b, bc) = Inr (b', bc')"
      and d: "(b' = b \<and> bc' = bc \<and> (\<forall>c' \<in> set cs. \<not> less_bestCost (f c') bc))
             \<or> (\<exists>i < length cs. b' = Some (cs ! i) \<and> bc' = Some (f (cs ! i))
                   \<and> less_bestCost (f (cs ! i)) bc
                   \<and> (\<forall>j < length cs. f (cs ! i) \<le> f (cs ! j))
                   \<and> (\<forall>j < i. f (cs ! i) < f (cs ! j)))"
      by blast
    have eq: "single_loop (c # cs) lastPositions (b, bc) = Inr (b', bc')"
      using fc False r by simp
    from d show ?thesis
    proof
      assume "b' = b \<and> bc' = bc \<and> (\<forall>c' \<in> set cs. \<not> less_bestCost (f c') bc)"
      with False eq show ?thesis by auto
    next
      assume "\<exists>i < length cs. b' = Some (cs ! i) \<and> bc' = Some (f (cs ! i))
                   \<and> less_bestCost (f (cs ! i)) bc
                   \<and> (\<forall>j < length cs. f (cs ! i) \<le> f (cs ! j))
                   \<and> (\<forall>j < i. f (cs ! i) < f (cs ! j))"
      then obtain i where i: "i < length cs" "b' = Some (cs ! i)" "bc' = Some (f (cs ! i))"
        and l: "less_bestCost (f (cs ! i)) bc"
        and min: "\<forall>j < length cs. f (cs ! i) \<le> f (cs ! j)"
        and first: "\<forall>j < i. f (cs ! i) < f (cs ! j)"
        by auto
      from l bc x have lt: "f (cs ! i) < f c" by simp
      have min': "\<forall>j < length (c # cs). f (cs ! i) \<le> f ((c # cs) ! j)"
        using min lt by (auto simp: nth_Cons split: nat.splits)
      have first': "\<forall>j < Suc i. f (cs ! i) < f ((c # cs) ! j)"
        using first lt by (auto simp: nth_Cons split: nat.splits)
      have "\<exists>k < length (c # cs). b' = Some ((c # cs) ! k) \<and> bc' = Some (f ((c # cs) ! k))
                   \<and> less_bestCost (f ((c # cs) ! k)) bc
                   \<and> (\<forall>j < length (c # cs). f ((c # cs) ! k) \<le> f ((c # cs) ! j))
                   \<and> (\<forall>j < k. f ((c # cs) ! k) < f ((c # cs) ! j))"
        using i l min' first' by (intro exI [of _ "Suc i"]) simp
      with eq show ?thesis by blast
    qed
  qed
qed

text \<open>
  Claim C3. For a single candidate set that is not empty and prior positions \<open>prior\<close>,
  the loop gives each candidate the cost \<open>spec_noteCost\<close>, and the optimizer returns
  one candidate: its cost is minimal, and every candidate before it in generator order
  costs strictly more (the first one wins a tie). The costs are the doubles of the
  program, and a tie is an equality of doubles. Pitch 40 in standard tuning with no
  prior positions is mapped to string 5, fret 0.
\<close>

theorem single_note_min_cost:
  assumes "cs \<noteq> []"
  shows "(\<forall>c. noteCost c (map Some prior) = Inr (spec_noteCost c prior))
       \<and> (\<exists>i < length cs.
             optimizeChord [cs] (map Some prior) = Inr [Some (cs ! i)]
             \<and> (\<forall>j < length cs. spec_noteCost (cs ! i) prior \<le> spec_noteCost (cs ! j) prior)
             \<and> (\<forall>j < i. spec_noteCost (cs ! i) prior < spec_noteCost (cs ! j) prior))
       \<and> optimizeChord [getCandidates 40 standard 22] [] = Inr [Some \<lparr>string = 5, fret = 0\<rparr>]"
proof -
  have c: "\<forall>c \<in> set cs. noteCost c (map Some prior) = Inr (spec_noteCost c prior)"
    by (simp add: noteCost_Some)
  from single_loop_result [OF c, of "index0 cs" None]
  obtain b' bc' where r: "single_loop cs (map Some prior) (index0 cs, None) = Inr (b', bc')"
    and d: "(b' = index0 cs \<and> bc' = None \<and> (\<forall>c \<in> set cs. \<not> less_bestCost (spec_noteCost c prior) None))
            \<or> (\<exists>i < length cs. b' = Some (cs ! i) \<and> bc' = Some (spec_noteCost (cs ! i) prior)
                   \<and> less_bestCost (spec_noteCost (cs ! i) prior) None
                   \<and> (\<forall>j < length cs. spec_noteCost (cs ! i) prior \<le> spec_noteCost (cs ! j) prior)
                   \<and> (\<forall>j < i. spec_noteCost (cs ! i) prior < spec_noteCost (cs ! j) prior))"
    by blast
  from assms have "\<not> (\<forall>c \<in> set cs. \<not> less_bestCost (spec_noteCost c prior) None)"
    by (cases cs) auto
  with d obtain i where i: "i < length cs" "b' = Some (cs ! i)"
      and min: "\<forall>j < length cs. spec_noteCost (cs ! i) prior \<le> spec_noteCost (cs ! j) prior"
      and first: "\<forall>j < i. spec_noteCost (cs ! i) prior < spec_noteCost (cs ! j) prior"
    by blast
  have "optimizeChord [cs] (map Some prior) = Inr [Some (cs ! i)]"
    using r i by (simp add: optimizeChord_def)
  with i min first have 2: "\<exists>i < length cs.
             optimizeChord [cs] (map Some prior) = Inr [Some (cs ! i)]
             \<and> (\<forall>j < length cs. spec_noteCost (cs ! i) prior \<le> spec_noteCost (cs ! j) prior)
             \<and> (\<forall>j < i. spec_noteCost (cs ! i) prior < spec_noteCost (cs ! j) prior)"
    by blast
  have 3: "optimizeChord [getCandidates 40 standard 22] [] = Inr [Some \<lparr>string = 5, fret = 0\<rparr>]"
    by (rule single_40)
  from 2 3 show ?thesis by (simp add: noteCost_Some)
qed

theorem single_note_min_cost_witness:
  "getCandidates 64 standard 22 \<noteq> []
   \<and> optimizeChord [getCandidates 64 standard 22] (map Some [\<lparr>string = 2, fret = 9\<rparr>]) =
       Inr [Some \<lparr>string = 2, fret = 9\<rparr>]
   \<and> optimizeChord [getCandidates 64 standard 22] (map Some []) =
       Inr [Some \<lparr>string = 0, fret = 0\<rparr>]"
proof -
  have h: "getCandidates 64 standard 22 \<noteq> []" by code_simp
  have a: "optimizeChord [getCandidates 64 standard 22] (map Some [\<lparr>string = 2, fret = 9\<rparr>]) =
       Inr [Some \<lparr>string = 2, fret = 9\<rparr>]" by (simp add: single_64_after_9)
  have b: "optimizeChord [getCandidates 64 standard 22] (map Some []) =
       Inr [Some \<lparr>string = 0, fret = 0\<rparr>]" by (simp add: single_64)
  from single_note_min_cost [OF h, of "[\<lparr>string = 2, fret = 9\<rparr>]"] h a b show ?thesis by simp
qed

subsection \<open>The beam search follows the specification\<close>

lemma chordSpan_spec_span:
  assumes "\<forall>p \<in> set ps. 0 \<le> fret p"
  shows "chordSpan ps = spec_span ps"
proof -
  have f: "filter (\<lambda>f. f > 0) (map fret ps) = filter (\<lambda>f. f \<noteq> 0) (map fret ps)"
    by (rule filter_cong) (use assms in auto)
  show ?thesis
  proof (cases "filter (\<lambda>f. f \<noteq> 0) (map fret ps) = []")
    case True
    then show ?thesis by (simp add: chordSpan_def spec_span_def f)
  next
    case False
    then show ?thesis
      by (simp add: chordSpan_def spec_span_def f Math_max_Max Math_min_Min)
  qed
qed

lemma child_spec:
  assumes "\<forall>p \<in> set (beamState.positions st). 0 \<le> fret p" and "0 \<le> fret c"
  shows "child st c =
     \<lparr>beamState.positions = beamState.positions st @ [c],
       cost = spec_stepCost (cost st) (fret c) (spec_span (beamState.positions st @ [c])),
       used = insert (string c) (used st)\<rparr>"
proof -
  have "spanWith (beamState.positions st) c = spec_span (beamState.positions st @ [c])"
    unfolding spanWith_chordSpan by (rule chordSpan_spec_span) (use assms in auto)
  then show ?thesis by (simp add: child_def spec_stepCost_def Let_def)
qed

lemma admissible_spec:
  assumes "\<forall>p \<in> set (beamState.positions st). 0 \<le> fret p" and "0 \<le> fret c"
    and "used st = set (map string (beamState.positions st))"
  shows "admissible st c \<longleftrightarrow>
     string c \<notin> set (map string (beamState.positions st))
       \<and> spec_span (beamState.positions st @ [c]) \<le> 5"
proof -
  have "spanWith (beamState.positions st) c = spec_span (beamState.positions st @ [c])"
    unfolding spanWith_chordSpan by (rule chordSpan_spec_span) (use assms in auto)
  then show ?thesis using assms(3) by (auto simp: admissible_def)
qed



lemma expand_one_spec:
  assumes "state_nonneg st" and "used st = set (map string (beamState.positions st))"
    and "\<forall>c \<in> set cs. 0 \<le> fret c"
  shows "map (child st) (filter (admissible st) cs) =
     concat (map (\<lambda>c.
       if string c \<notin> set (map string (beamState.positions st))
            \<and> spec_span (beamState.positions st @ [c]) \<le> 5
       then [\<lparr>beamState.positions = beamState.positions st @ [c],
              cost = spec_stepCost (cost st) (fret c) (spec_span (beamState.positions st @ [c])),
              used = insert (string c) (used st)\<rparr>]
       else []) cs)"
  using assms(3)
proof (induction cs)
  case Nil
  show ?case by simp
next
  case (Cons c cs)
  from Cons.prems have c: "0 \<le> fret c" and rest: "\<forall>c \<in> set cs. 0 \<le> fret c" by simp_all
  from assms(1) have nn: "\<forall>p \<in> set (beamState.positions st). 0 \<le> fret p"
    by (simp add: state_nonneg_def)
  note a = admissible_spec [OF nn c assms(2)]
  note ch = child_spec [OF nn c]
  show ?case
    using Cons.IH [OF rest] a ch by simp
qed

lemma expand_beam_spec:
  assumes "\<forall>st \<in> set beam. state_nonneg st \<and> used st = set (map string (beamState.positions st))"
    and "\<forall>c \<in> set cs. 0 \<le> fret c"
  shows "expand_beam beam cs [] = spec_expansions beam cs"
proof -
  have "map (\<lambda>st. map (child st) (filter (admissible st) cs)) beam =
        map (\<lambda>st. concat (map (\<lambda>c.
       if string c \<notin> set (map string (beamState.positions st))
            \<and> spec_span (beamState.positions st @ [c]) \<le> 5
       then [\<lparr>beamState.positions = beamState.positions st @ [c],
              cost = spec_stepCost (cost st) (fret c) (spec_span (beamState.positions st @ [c])),
              used = insert (string c) (used st)\<rparr>]
       else []) cs)) beam"
    by (rule map_cong [OF refl]) (use assms in \<open>simp add: expand_one_spec\<close>)
  then show ?thesis
    unfolding expand_beam_eq spec_expansions_def by (simp only: append_Nil)
qed

lemma state_inv_nonneg:
  assumes "state_inv css st" and "nonneg_frets css"
  shows "state_nonneg st"
  unfolding state_nonneg_def
proof
  fix p assume "p \<in> set (beamState.positions st)"
  then obtain i where i: "i < length (beamState.positions st)" "beamState.positions st ! i = p"
    by (auto simp: in_set_conv_nth)
  from assms(1) have "list_all2 (\<lambda>p cs. p \<in> set cs) (beamState.positions st) css"
    by (simp add: state_inv_def)
  with i have "p \<in> set (css ! i)" "i < length css"
    by (auto simp: list_all2_conv_all_nth)
  with assms(2) show "0 \<le> fret p"
    by (auto simp: nonneg_frets_def list_all_iff)
qed

lemma spec_beam_snoc: "spec_beam (css @ [cs]) = spec_round (spec_beam css) cs"
  by (simp add: spec_beam_def)

lemma nonneg_frets_snoc:
  "nonneg_frets (css @ [cs]) \<longleftrightarrow> nonneg_frets css \<and> (\<forall>c \<in> set cs. 0 \<le> fret c)"
  by (auto simp: nonneg_frets_def list_all_iff)

lemma beam_step_spec:
  assumes "nonneg_frets (css @ [cs])"
  shows "beam_step (beam_loop css initialBeam) cs = spec_round (beam_loop css initialBeam) cs"
proof -
  from assms have n: "nonneg_frets css" and c: "\<forall>c \<in> set cs. 0 \<le> fret c"
    by (simp_all add: nonneg_frets_snoc)
  have "\<forall>st \<in> set (beam_loop css initialBeam).
          state_nonneg st \<and> used st = set (map string (beamState.positions st))"
  proof
    fix st assume "st \<in> set (beam_loop css initialBeam)"
    with beam_loop_inv have i: "state_inv css st" by blast
    from state_inv_nonneg [OF i n] i
    show "state_nonneg st \<and> used st = set (map string (beamState.positions st))"
      by (simp add: state_inv_def)
  qed
  from expand_beam_spec [OF this c] show ?thesis
    by (simp add: beam_step_eq spec_round_def)
qed

lemma beam_loop_spec: "nonneg_frets css \<Longrightarrow> beam_loop css initialBeam = spec_beam css"
proof (induction css rule: rev_induct)
  case Nil
  show ?case by (simp add: spec_beam_def)
next
  case (snoc cs css)
  from snoc.prems have "nonneg_frets css" by (simp add: nonneg_frets_snoc)
  with snoc.IH have "beam_loop css initialBeam = spec_beam css" by simp
  with beam_step_spec [OF snoc.prems] show ?case
    by (simp add: beam_loop_append spec_beam_snoc)
qed

lemma spec_round_sorted: "sorted (map cost (spec_round beam cs))"
proof -
  have "sorted (take 20 (map cost (sort_key cost (spec_expansions beam cs))))"
    by (intro sorted_wrt_take) simp
  then show ?thesis by (simp add: spec_round_def take_map)
qed

lemma spec_round_length: "length (spec_round beam cs) \<le> 20"
  by (simp add: spec_round_def)

lemma spec_round_lowest:
  assumes "k \<in> set (spec_round beam cs)"
    and "d \<in> set (drop 20 (sort_key cost (spec_expansions beam cs)))"
  shows "cost k \<le> cost d"
proof -
  let ?xs = "sort_key cost (spec_expansions beam cs)"
  have "sorted (map cost (take 20 ?xs @ drop 20 ?xs))" by simp
  then have "\<forall>x \<in> set (map cost (take 20 ?xs)). \<forall>y \<in> set (map cost (drop 20 ?xs)). x \<le> y"
    unfolding map_append sorted_append by blast
  with assms show ?thesis by (simp add: spec_round_def)
qed

lemma sorted_hd_least:
  assumes "sorted (map f xs)" and "x \<in> set xs"
  shows "f (hd xs) \<le> f x"
  using assms by (cases xs) auto

lemma spec_beam_hd_least:
  assumes "css \<noteq> []" and "st \<in> set (spec_beam css)"
  shows "cost (hd (spec_beam css)) \<le> cost st"
proof -
  from assms(1) obtain css' cs where "css = css' @ [cs]"
    by (cases css rule: rev_cases) auto
  then have "sorted (map cost (spec_beam css))"
    by (simp add: spec_beam_snoc spec_round_sorted)
  from sorted_hd_least [OF this assms(2)] show ?thesis .
qed


text \<open>
  Claim C2. For an event of at least two pitches (with frets that are not negative, as
  those of positions are), the loops of the chord path compute the beam of the
  specification: the candidate sets are folded in input order; a state is expanded with
  the candidates on strings it does not use; expansions with a span above 5 are left
  out; each expansion adds \<open>fret * 0.05 + span * 0.3\<close>, minus \<open>0.2\<close> for fret 0, in
  the double arithmetic of the program; each round keeps the first 20 states in
  ascending order of cost (the sort of the program, by the sign of the difference of
  two costs, is the stable sort by cost), none of them costlier than a state it drops;
  and when a state survives, the result is the positions of the first state of the
  final beam, whose cost is the least of the beam.
\<close>

theorem beam_search_follows_spec:
  assumes "2 \<le> length css" and "nonneg_frets css"
  shows "beam_loop css initialBeam = spec_beam css
       \<and> (\<forall>beam cs. length (spec_round beam cs) \<le> 20
             \<and> sorted (map cost (spec_round beam cs))
             \<and> (\<forall>k \<in> set (spec_round beam cs).
                  \<forall>d \<in> set (drop 20 (sort_key cost (spec_expansions beam cs))). cost k \<le> cost d))
       \<and> (spec_beam css \<noteq> [] \<longrightarrow>
             optimizeChord css lastPositions = Inr (map Some (beamState.positions (hd (spec_beam css))))
             \<and> (\<forall>st \<in> set (spec_beam css). cost (hd (spec_beam css)) \<le> cost st))"
proof -
  have 1: "beam_loop css initialBeam = spec_beam css"
    using assms(2) by (rule beam_loop_spec)
  have 2: "\<forall>beam cs. length (spec_round beam cs) \<le> 20
             \<and> sorted (map cost (spec_round beam cs))
             \<and> (\<forall>k \<in> set (spec_round beam cs).
                  \<forall>d \<in> set (drop 20 (sort_key cost (spec_expansions beam cs))). cost k \<le> cost d)"
    using spec_round_length spec_round_sorted spec_round_lowest by blast
  have ne: "css \<noteq> []" using assms(1) by auto
  have l: "length css \<noteq> 0" "length css \<noteq> 1" using assms(1) by auto
  have 3: "spec_beam css \<noteq> [] \<longrightarrow>
             optimizeChord css lastPositions = Inr (map Some (beamState.positions (hd (spec_beam css))))
             \<and> (\<forall>st \<in> set (spec_beam css). cost (hd (spec_beam css)) \<le> cost st)"
  proof
    assume b: "spec_beam css \<noteq> []"
    have "optimizeChord css lastPositions = Inr (map Some (beamState.positions (hd (spec_beam css))))"
      using l b 1 by (simp add: optimizeChord_def hd_conv_nth)
    moreover have "\<forall>st \<in> set (spec_beam css). cost (hd (spec_beam css)) \<le> cost st"
      using spec_beam_hd_least [OF ne] by blast
    ultimately show "optimizeChord css lastPositions = Inr (map Some (beamState.positions (hd (spec_beam css))))
             \<and> (\<forall>st \<in> set (spec_beam css). cost (hd (spec_beam css)) \<le> cost st)" by simp
  qed
  from 1 2 3 show ?thesis by blast
qed

theorem beam_search_follows_spec_witness:
  "2 \<le> length [getCandidates 55 standard 22, getCandidates 59 standard 22]
   \<and> nonneg_frets [getCandidates 55 standard 22, getCandidates 59 standard 22]
   \<and> spec_beam [getCandidates 55 standard 22, getCandidates 59 standard 22] \<noteq> []
   \<and> optimizeChord [getCandidates 55 standard 22, getCandidates 59 standard 22] [] =
       Inr [Some \<lparr>string = 2, fret = 0\<rparr>, Some \<lparr>string = 1, fret = 0\<rparr>]"
proof -
  let ?css = "[getCandidates 55 standard 22, getCandidates 59 standard 22]"
  have h1: "2 \<le> length ?css" by simp
  have h2: "nonneg_frets ?css" by code_simp
  from beam_search_follows_spec [OF h1 h2, of "[]"]
  have eq: "beam_loop ?css initialBeam = spec_beam ?css"
    and res: "spec_beam ?css \<noteq> [] \<longrightarrow>
       optimizeChord ?css [] = Inr (map Some (beamState.positions (hd (spec_beam ?css))))"
    by blast+
  have "beam_loop ?css initialBeam \<noteq> [] \<and> beamState.positions (hd (beam_loop ?css initialBeam)) =
              [\<lparr>string = 2, fret = 0\<rparr>, \<lparr>string = 1, fret = 0\<rparr>]"
    using take1_hd [OF beam_55_59] by (simp del: beam_loop.simps)
  then have h3: "spec_beam ?css \<noteq> []"
    and hd: "beamState.positions (hd (spec_beam ?css)) =
              [\<lparr>string = 2, fret = 0\<rparr>, \<lparr>string = 1, fret = 0\<rparr>]"
    unfolding eq by blast+
  from res h3 hd have "optimizeChord ?css [] =
       Inr [Some \<lparr>string = 2, fret = 0\<rparr>, Some \<lparr>string = 1, fret = 0\<rparr>]"
    by simp
  with h1 h2 h3 show ?thesis by simp
qed

subsection \<open>When the beam keeps a feasible chord\<close>

text \<open>
  The chord \<open>[69, 64, 55, 83, 50]\<close> in standard tuning can be played on five strings
  within a span of 5 (frets 14, 19, 15, 19 and the open D string). The beam holds 23
  states after the third pitch and keeps the 20 cheapest; the prefix of that
  assignment is the costliest of the 23 and is cut. Pitch 83 exists on string 0 at
  fret 19 only: three of the kept states can take it, and for each of the three every
  candidate of pitch 50 is on a used string or widens the span beyond 5. The beam is
  empty, and the fallback puts three pitches on string 0.
\<close>

theorem feasible_chord_lost_by_beam:
  "feasible
     [getCandidates 69 standard 22, getCandidates 64 standard 22, getCandidates 55 standard 22,
      getCandidates 83 standard 22, getCandidates 50 standard 22]
     [\<lparr>string = 2, fret = 14\<rparr>, \<lparr>string = 4, fret = 19\<rparr>, \<lparr>string = 5, fret = 15\<rparr>,
      \<lparr>string = 0, fret = 19\<rparr>, \<lparr>string = 3, fret = 0\<rparr>]
   \<and> optimizeChord
     [getCandidates 69 standard 22, getCandidates 64 standard 22, getCandidates 55 standard 22,
      getCandidates 83 standard 22, getCandidates 50 standard 22] [] =
     Inr [Some \<lparr>string = 0, fret = 5\<rparr>, Some \<lparr>string = 0, fret = 0\<rparr>,
          Some \<lparr>string = 2, fret = 0\<rparr>, Some \<lparr>string = 0, fret = 19\<rparr>,
          Some \<lparr>string = 3, fret = 0\<rparr>]
   \<and> \<not> distinct (map string
         [\<lparr>string = 0, fret = 5\<rparr>, \<lparr>string = 0, fret = 0\<rparr>, \<lparr>string = 2, fret = 0\<rparr>,
          \<lparr>string = 0, fret = 19\<rparr>, \<lparr>string = 3, fret = 0\<rparr>])"
proof -
  let ?css = "[getCandidates 69 standard 22, getCandidates 64 standard 22,
      getCandidates 55 standard 22, getCandidates 83 standard 22, getCandidates 50 standard 22]"
  have f: "feasible ?css
     [\<lparr>string = 2, fret = 14\<rparr>, \<lparr>string = 4, fret = 19\<rparr>, \<lparr>string = 5, fret = 15\<rparr>,
      \<lparr>string = 0, fret = 19\<rparr>, \<lparr>string = 3, fret = 0\<rparr>]"
    by code_simp
  have "optimizeChord ?css [] = Inr (filter Boolean (map index0 ?css))"
    by (rule chord_fallback [OF _ beam_69_64_55_83_50]) simp
  also have "filter Boolean (map index0 ?css) =
     [Some \<lparr>string = 0, fret = 5\<rparr>, Some \<lparr>string = 0, fret = 0\<rparr>,
      Some \<lparr>string = 2, fret = 0\<rparr>, Some \<lparr>string = 0, fret = 19\<rparr>,
      Some \<lparr>string = 3, fret = 0\<rparr>]"
    by (simp add: candidates_table Boolean_def index0_def)
  finally show ?thesis using f by simp
qed

lemma chordSpan_set:
  "chordSpan ps =
     (if filter (\<lambda>f. f > 0) (map fret ps) = [] then 0
      else Max (set (filter (\<lambda>f. f > 0) (map fret ps)))
           - Min (set (filter (\<lambda>f. f > 0) (map fret ps))))"
  by (simp add: chordSpan_def Math_max_Max Math_min_Min)

lemma chordSpan_mono: "chordSpan ps \<le> chordSpan (ps @ [c])"
proof (cases "fret c > 0")
  case False
  then show ?thesis by (simp add: chordSpan_set)
next
  case True
  let ?F = "filter (\<lambda>f. f > 0) (map fret ps)"
  show ?thesis
  proof (cases "?F = []")
    case True
    with \<open>fret c > 0\<close> show ?thesis by (simp add: chordSpan_set)
  next
    case False
    then have ne: "set ?F \<noteq> {}" by (simp only: set_empty not_False_eq_True)
    have "Max (set ?F) \<le> Max (insert (fret c) (set ?F))"
      by (rule Max_mono) (use ne in auto)
    moreover have "Min (insert (fret c) (set ?F)) \<le> Min (set ?F)"
      by (rule Min_antimono) (use ne in auto)
    ultimately show ?thesis
      using \<open>fret c > 0\<close> False unfolding chordSpan_set by simp
  qed
qed

lemma length_expand_beam: "length (expand_beam beam cs []) \<le> length beam * length cs"
proof -
  have "length (concat (map (\<lambda>st. map (child st) (filter (admissible st) cs)) beam))
          \<le> length beam * length cs"
  proof (induction beam)
    case Nil
    show ?case by simp
  next
    case (Cons st beam)
    from add_mono [OF length_filter_le [of "admissible st" cs] Cons]
    show ?case by simp
  qed
  then show ?thesis by (simp add: expand_beam_eq)
qed


lemma beam_step_no_cut:
  assumes "length beam * length cs \<le> 20"
  shows "set (beam_step beam cs) = set (expand_beam beam cs [])"
proof -
  have "length (sort_key cost (expand_beam beam cs [])) \<le> 20"
    using length_expand_beam [of beam cs] assms by simp
  then have "take 20 (sort_key cost (expand_beam beam cs [])) = sort_key cost (expand_beam beam cs [])"
    by (rule take_all)
  then show ?thesis by (simp add: beam_step_eq)
qed

lemma length_beam_step: "length (beam_step beam cs) \<le> length beam * length cs"
proof -
  have "length (beam_step beam cs) \<le> length (expand_beam beam cs [])"
    by (simp add: beam_step_eq)
  also note length_expand_beam [of beam cs]
  finally show ?thesis .
qed

lemma child_in_expand:
  assumes "st \<in> set beam" and "c \<in> set cs" and "admissible st c"
  shows "child st c \<in> set (expand_beam beam cs [])"
  using assms by (auto simp: expand_beam_eq)

lemma beam_complete:
  assumes "\<forall>cs \<in> set css. cs \<noteq> []" and "prod_list (map length css) \<le> 20"
  shows "length (beam_loop css initialBeam) \<le> prod_list (map length css)
       \<and> (\<forall>ps. list_all2 (\<lambda>p cs. p \<in> set cs) ps css \<and> distinct (map string ps)
                 \<and> chordSpan ps \<le> 5
              \<longrightarrow> (\<exists>st \<in> set (beam_loop css initialBeam). beamState.positions st = ps))"
  using assms
proof (induction css rule: rev_induct)
  case Nil
  show ?case by (simp add: initialBeam_def)
next
  case (snoc cs css)
  let ?B = "beam_loop css initialBeam"
  from snoc.prems(1) have ne: "cs \<noteq> []" and nes: "\<forall>cs \<in> set css. cs \<noteq> []" by simp_all
  from ne have pos: "1 \<le> length cs" by (cases cs) simp_all
  from snoc.prems(2) have pr: "prod_list (map length css) * length cs \<le> 20" by simp
  have "prod_list (map length css) * 1 \<le> prod_list (map length css) * length cs"
    using pos by (rule mult_le_mono2)
  also note pr
  finally have pr': "prod_list (map length css) \<le> 20" by simp
  from snoc.IH [OF nes pr']
  have len: "length ?B \<le> prod_list (map length css)"
    and all: "\<And>ps. list_all2 (\<lambda>p cs. p \<in> set cs) ps css \<Longrightarrow> distinct (map string ps)
                 \<Longrightarrow> chordSpan ps \<le> 5
              \<Longrightarrow> \<exists>st \<in> set ?B. beamState.positions st = ps"
    by blast+
  have "length ?B * length cs \<le> prod_list (map length css) * length cs"
    using len by (rule mult_le_mono1)
  also note pr
  finally have cut: "length ?B * length cs \<le> 20" .
  have 1: "length (beam_loop (css @ [cs]) initialBeam) \<le> prod_list (map length (css @ [cs]))"
  proof -
    have "length (beam_step ?B cs) \<le> length ?B * length cs"
      by (rule length_beam_step)
    also have "\<dots> \<le> prod_list (map length css) * length cs"
      using len by (rule mult_le_mono1)
    finally show ?thesis by (simp add: beam_loop_append)
  qed
  have 2: "\<forall>ps. list_all2 (\<lambda>p cs. p \<in> set cs) ps (css @ [cs]) \<and> distinct (map string ps)
                 \<and> chordSpan ps \<le> 5
              \<longrightarrow> (\<exists>st \<in> set (beam_loop (css @ [cs]) initialBeam). beamState.positions st = ps)"
  proof (intro allI impI)
    fix ps
    assume a: "list_all2 (\<lambda>p cs. p \<in> set cs) ps (css @ [cs]) \<and> distinct (map string ps)
                 \<and> chordSpan ps \<le> 5"
    then obtain qs c where ps: "ps = qs @ [c]"
      and q: "list_all2 (\<lambda>p cs. p \<in> set cs) qs css" and c: "c \<in> set cs"
      by (auto simp: list_all2_append2 list_all2_Cons2)
    from a ps have d: "distinct (map string qs)" and n: "string c \<notin> set (map string qs)"
      and sp: "chordSpan (qs @ [c]) \<le> 5" by auto
    from chordSpan_mono [of qs c] sp have "chordSpan qs \<le> 5" by simp
    from all [OF q d this] obtain st where st: "st \<in> set ?B" "beamState.positions st = qs"
      by blast
    with beam_loop_inv [of css] have "state_inv css st" by blast
    then have "used st = set (map string qs)"
      using st(2) by (simp add: state_inv_def)
    with n sp st(2) have "admissible st c"
      by (simp add: admissible_def spanWith_chordSpan)
    from child_in_expand [OF st(1) c this]
    have "child st c \<in> set (beam_step ?B cs)"
      by (simp add: beam_step_no_cut [OF cut])
    moreover have "beamState.positions (child st c) = ps"
      using st(2) ps by simp
    ultimately show "\<exists>st \<in> set (beam_loop (css @ [cs]) initialBeam). beamState.positions st = ps"
      unfolding beam_loop_append by blast
  qed
  from 1 2 show ?case by blast
qed


lemma nonneg_frets_getCandidates: "nonneg_frets (map (\<lambda>p. getCandidates p t mf) ps)"
  by (auto simp: nonneg_frets_def list_all_iff dest: fret_getCandidates)

lemma assignment_nonneg:
  assumes "list_all2 (\<lambda>p cs. p \<in> set cs) ps css" and "nonneg_frets css"
  shows "\<forall>p \<in> set ps. 0 \<le> fret p"
proof
  fix p assume "p \<in> set ps"
  then obtain i where i: "i < length ps" "ps ! i = p"
    by (auto simp: in_set_conv_nth)
  with assms(1) have "p \<in> set (css ! i)" "i < length css"
    by (auto simp: list_all2_conv_all_nth)
  with assms(2) show "0 \<le> fret p"
    by (auto simp: nonneg_frets_def list_all_iff)
qed

lemma state_inv_feasible:
  assumes "state_inv css st" and "nonneg_frets css"
  shows "feasible css (beamState.positions st)"
proof -
  from assms(1) have a: "list_all2 (\<lambda>p cs. p \<in> set cs) (beamState.positions st) css"
    and d: "distinct (map string (beamState.positions st))"
    and sp: "chordSpan (beamState.positions st) \<le> 5"
    by (simp_all add: state_inv_def)
  from chordSpan_spec_span [OF assignment_nonneg [OF a assms(2)]] sp
  have "spec_span (beamState.positions st) \<le> 5" by simp
  with a d show ?thesis by (simp add: feasible_def)
qed

lemma feasible_beam_nonempty:
  assumes "feasible (css @ [cs]) asg" and "nonneg_frets (css @ [cs])"
    and "prod_list (map length css) \<le> 20"
  shows "beam_loop (css @ [cs]) initialBeam \<noteq> []"
proof -
  from assms(1) have a: "list_all2 (\<lambda>p cs. p \<in> set cs) asg (css @ [cs])"
    and d: "distinct (map string asg)" and sp: "spec_span asg \<le> 5"
    by (simp_all add: feasible_def)
  from a obtain qs c where asg: "asg = qs @ [c]"
    and q: "list_all2 (\<lambda>p cs. p \<in> set cs) qs css" and c: "c \<in> set cs"
    by (auto simp: list_all2_append2 list_all2_Cons2)
  have ne: "\<forall>cs \<in> set css. cs \<noteq> []"
  proof
    fix cs' assume "cs' \<in> set css"
    then obtain i where i: "i < length css" "css ! i = cs'"
      by (auto simp: in_set_conv_nth)
    with q have "qs ! i \<in> set cs'"
      by (auto simp: list_all2_conv_all_nth)
    then show "cs' \<noteq> []" by auto
  qed
  from chordSpan_spec_span [OF assignment_nonneg [OF a assms(2)]] sp
  have sp': "chordSpan (qs @ [c]) \<le> 5" by (simp add: asg)
  from chordSpan_mono [of qs c] sp' have spq: "chordSpan qs \<le> 5" by simp
  from d asg have dq: "distinct (map string qs)" and n: "string c \<notin> set (map string qs)"
    by auto
  let ?B = "beam_loop css initialBeam"
  from beam_complete [OF ne assms(3)] q dq spq
  obtain st where st: "st \<in> set ?B" "beamState.positions st = qs" by blast
  with beam_loop_inv [of css] have "state_inv css st" by blast
  then have "used st = set (map string qs)"
    using st(2) by (simp add: state_inv_def)
  with n sp' st(2) have "admissible st c"
    by (simp add: admissible_def spanWith_chordSpan)
  from child_in_expand [OF st(1) c this]
  have "expand_beam ?B cs [] \<noteq> []" by auto
  then have "sort_key cost (expand_beam ?B cs []) \<noteq> []"
    by (metis length_sort length_0_conv)
  then have "take 20 (sort_key cost (expand_beam ?B cs [])) \<noteq> []"
    by simp
  then show ?thesis
    by (simp add: beam_loop_append beam_step_eq)
qed

text \<open>
  Claim C1, as amended. For a chord of at least two pitches that has an assignment on
  pairwise distinct strings with a span of at most 5: when the candidate sets of all
  pitches but the last have at most 20 combinations, the width of the beam discards
  nothing and a state survives the last pitch; and whenever a state survives the last
  pitch, the optimizer returns one position per pitch, on pairwise distinct strings,
  each from the candidate set of its pitch, with a span of at most 5.
\<close>

theorem feasible_chord_distinct_strings:
  assumes "2 \<le> length css" and "nonneg_frets css" and "feasible css asg"
  shows "(prod_list (map length (butlast css)) \<le> 20 \<longrightarrow> beam_loop css initialBeam \<noteq> [])
       \<and> (beam_loop css initialBeam \<noteq> [] \<longrightarrow>
            (\<exists>ps. optimizeChord css lastPositions = Inr (map Some ps)
                  \<and> length ps = length css
                  \<and> distinct (map string ps)
                  \<and> feasible css ps))"
proof -
  from assms(1) have ne: "css \<noteq> []" by auto
  then have split: "css = butlast css @ [last css]" by simp
  have 1: "prod_list (map length (butlast css)) \<le> 20 \<longrightarrow> beam_loop css initialBeam \<noteq> []"
  proof
    assume p: "prod_list (map length (butlast css)) \<le> 20"
    from assms(3) split have f: "feasible (butlast css @ [last css]) asg" by simp
    from assms(2) split have n: "nonneg_frets (butlast css @ [last css])" by simp
    from feasible_beam_nonempty [OF f n p] split
    show "beam_loop css initialBeam \<noteq> []" by simp
  qed
  have 2: "beam_loop css initialBeam \<noteq> [] \<longrightarrow>
            (\<exists>ps. optimizeChord css lastPositions = Inr (map Some ps)
                  \<and> length ps = length css
                  \<and> distinct (map string ps)
                  \<and> feasible css ps)"
  proof
    assume b: "beam_loop css initialBeam \<noteq> []"
    let ?st = "hd (beam_loop css initialBeam)"
    from b have "?st \<in> set (beam_loop css initialBeam)" by simp
    with beam_loop_inv [of css] have inv: "state_inv css ?st" by blast
    have l: "length css \<noteq> 0" "length css \<noteq> 1" using assms(1) by auto
    have r: "optimizeChord css lastPositions = Inr (map Some (beamState.positions ?st))"
      using l b by (simp add: optimizeChord_def hd_conv_nth)
    have "length (beamState.positions ?st) = length css"
      using inv by (rule state_inv_length)
    moreover have "distinct (map string (beamState.positions ?st))"
      using inv by (simp add: state_inv_def)
    moreover have "feasible css (beamState.positions ?st)"
      using inv assms(2) by (rule state_inv_feasible)
    ultimately show "\<exists>ps. optimizeChord css lastPositions = Inr (map Some ps)
                  \<and> length ps = length css
                  \<and> distinct (map string ps)
                  \<and> feasible css ps"
      using r by blast
  qed
  from 1 2 show ?thesis by blast
qed

theorem feasible_chord_distinct_strings_witness:
  "2 \<le> length [getCandidates 52 standard 22, getCandidates 55 standard 22, getCandidates 59 standard 22]
   \<and> nonneg_frets [getCandidates 52 standard 22, getCandidates 55 standard 22, getCandidates 59 standard 22]
   \<and> feasible [getCandidates 52 standard 22, getCandidates 55 standard 22, getCandidates 59 standard 22]
        [\<lparr>string = 3, fret = 2\<rparr>, \<lparr>string = 2, fret = 0\<rparr>, \<lparr>string = 1, fret = 0\<rparr>]
   \<and> prod_list (map length (butlast
        [getCandidates 52 standard 22, getCandidates 55 standard 22, getCandidates 59 standard 22])) \<le> 20
   \<and> beam_loop [getCandidates 52 standard 22, getCandidates 55 standard 22, getCandidates 59 standard 22]
        initialBeam \<noteq> []
   \<and> optimizeChord [getCandidates 52 standard 22, getCandidates 55 standard 22, getCandidates 59 standard 22] [] =
        Inr [Some \<lparr>string = 3, fret = 2\<rparr>, Some \<lparr>string = 2, fret = 0\<rparr>, Some \<lparr>string = 1, fret = 0\<rparr>]"
proof -
  let ?css = "[getCandidates 52 standard 22, getCandidates 55 standard 22, getCandidates 59 standard 22]"
  have h1: "2 \<le> length ?css" by simp
  have h2: "nonneg_frets ?css" by code_simp
  have h3: "feasible ?css [\<lparr>string = 3, fret = 2\<rparr>, \<lparr>string = 2, fret = 0\<rparr>, \<lparr>string = 1, fret = 0\<rparr>]"
    by code_simp
  have h4: "prod_list (map length (butlast ?css)) \<le> 20" by code_simp
  have r: "optimizeChord ?css [] =
        Inr [Some \<lparr>string = 3, fret = 2\<rparr>, Some \<lparr>string = 2, fret = 0\<rparr>, Some \<lparr>string = 1, fret = 0\<rparr>]"
    using chord_result [OF h1 beam_52_55_59, of "[]"] by simp
  from feasible_chord_distinct_strings [OF h1 h2 h3, of "[]"] h4
  have "beam_loop ?css initialBeam \<noteq> []" by blast
  with h1 h2 h3 h4 r show ?thesis by blast
qed

subsection \<open>The end-to-end fixture\<close>

text \<open>
  Claim C7. The chord \<open>[40, 47, 52, 55, 59, 64]\<close> in standard tuning with no prior
  positions: the optimizer returns six positions on six distinct strings, every fret
  between 0 and 22, from a final beam whose first state has that assignment; its cost,
  the double \<open>-0.6000000000000001\<close>, is not greater than the cost of taking the first
  candidate of every pitch, which is the same assignment.
\<close>

theorem em7_fixture:
  "optimizeChord
     [getCandidates 40 standard 22, getCandidates 47 standard 22, getCandidates 52 standard 22,
      getCandidates 55 standard 22, getCandidates 59 standard 22, getCandidates 64 standard 22] [] =
     Inr (map Some
       [\<lparr>string = 5, fret = 0\<rparr>, \<lparr>string = 4, fret = 2\<rparr>, \<lparr>string = 3, fret = 2\<rparr>,
        \<lparr>string = 2, fret = 0\<rparr>, \<lparr>string = 1, fret = 0\<rparr>, \<lparr>string = 0, fret = 0\<rparr>])
   \<and> length
       [\<lparr>string = 5, fret = 0\<rparr>, \<lparr>string = 4, fret = 2\<rparr>, \<lparr>string = 3, fret = 2\<rparr>,
        \<lparr>string = 2, fret = 0\<rparr>, \<lparr>string = 1, fret = 0\<rparr>, \<lparr>string = 0, fret = 0\<rparr>] = 6
   \<and> distinct (map string
       [\<lparr>string = 5, fret = 0\<rparr>, \<lparr>string = 4, fret = 2\<rparr>, \<lparr>string = 3, fret = 2\<rparr>,
        \<lparr>string = 2, fret = 0\<rparr>, \<lparr>string = 1, fret = 0\<rparr>, \<lparr>string = 0, fret = 0\<rparr>])
   \<and> list_all (\<lambda>p. 0 \<le> fret p \<and> fret p \<le> 22)
       [\<lparr>string = 5, fret = 0\<rparr>, \<lparr>string = 4, fret = 2\<rparr>, \<lparr>string = 3, fret = 2\<rparr>,
        \<lparr>string = 2, fret = 0\<rparr>, \<lparr>string = 1, fret = 0\<rparr>, \<lparr>string = 0, fret = 0\<rparr>]
   \<and> beamState.positions (hd (beam_loop
     [getCandidates 40 standard 22, getCandidates 47 standard 22, getCandidates 52 standard 22,
      getCandidates 55 standard 22, getCandidates 59 standard 22, getCandidates 64 standard 22]
        initialBeam)) =
       [\<lparr>string = 5, fret = 0\<rparr>, \<lparr>string = 4, fret = 2\<rparr>, \<lparr>string = 3, fret = 2\<rparr>,
        \<lparr>string = 2, fret = 0\<rparr>, \<lparr>string = 1, fret = 0\<rparr>, \<lparr>string = 0, fret = 0\<rparr>]
   \<and> cost (hd (beam_loop
     [getCandidates 40 standard 22, getCandidates 47 standard 22, getCandidates 52 standard 22,
      getCandidates 55 standard 22, getCandidates 59 standard 22, getCandidates 64 standard 22]
        initialBeam)) = - (1351079888211149 / 2251799813685248)
   \<and> assignmentCost (map hd
     [getCandidates 40 standard 22, getCandidates 47 standard 22, getCandidates 52 standard 22,
      getCandidates 55 standard 22, getCandidates 59 standard 22, getCandidates 64 standard 22])
      = - (1351079888211149 / 2251799813685248)
   \<and> cost (hd (beam_loop
     [getCandidates 40 standard 22, getCandidates 47 standard 22, getCandidates 52 standard 22,
      getCandidates 55 standard 22, getCandidates 59 standard 22, getCandidates 64 standard 22]
        initialBeam))
      \<le> assignmentCost (map hd
     [getCandidates 40 standard 22, getCandidates 47 standard 22, getCandidates 52 standard 22,
      getCandidates 55 standard 22, getCandidates 59 standard 22, getCandidates 64 standard 22])"
proof -
  let ?css = "[getCandidates 40 standard 22, getCandidates 47 standard 22,
      getCandidates 52 standard 22, getCandidates 55 standard 22, getCandidates 59 standard 22,
      getCandidates 64 standard 22]"
  have l: "2 \<le> length ?css" by simp
  note r = chord_result [OF l beam_em7, of "[]"]
  note h = take1_hd [OF beam_em7]
  note n = cost_em7_first_candidates
  from r h n show ?thesis by simp
qed

subsection \<open>The sequence mapper\<close>

lemma single_path_defined:
  assumes "cs \<noteq> []"
  shows "\<exists>c. optimizeChord [cs] (map Some prior) = Inr [Some c]"
proof -
  have c: "\<forall>c \<in> set cs. noteCost c (map Some prior) = Inr (spec_noteCost c prior)"
    by (simp add: noteCost_Some)
  from single_loop_result [OF c, of "index0 cs" None]
  obtain b' bc' where r: "single_loop cs (map Some prior) (index0 cs, None) = Inr (b', bc')"
    and d: "(b' = index0 cs \<and> bc' = None \<and> (\<forall>c \<in> set cs. \<not> less_bestCost (spec_noteCost c prior) None))
            \<or> (\<exists>i < length cs. b' = Some (cs ! i) \<and> bc' = Some (spec_noteCost (cs ! i) prior)
                   \<and> less_bestCost (spec_noteCost (cs ! i) prior) None
                   \<and> (\<forall>j < length cs. spec_noteCost (cs ! i) prior \<le> spec_noteCost (cs ! j) prior)
                   \<and> (\<forall>j < i. spec_noteCost (cs ! i) prior < spec_noteCost (cs ! j) prior))"
    by blast
  from assms have "\<not> (\<forall>c \<in> set cs. \<not> less_bestCost (spec_noteCost c prior) None)"
    by (cases cs) auto
  with d obtain i where "b' = Some (cs ! i)" by blast
  with r show ?thesis by (simp add: optimizeChord_def)
qed

lemma optimizeChord_defined:
  assumes "length css = 1 \<longrightarrow> css ! 0 \<noteq> []"
  shows "\<exists>ps. optimizeChord css (map Some prior) = Inr (map Some ps)"
proof -
  consider "length css = 0" | "length css = 1" | "2 \<le> length css" by linarith
  then show ?thesis
  proof cases
    case 1
    then have "optimizeChord css (map Some prior) = Inr (map Some [])"
      by (simp add: optimizeChord_def)
    then show ?thesis by blast
  next
    case 2
    then obtain cs where css: "css = [cs]"
      by (cases css) auto
    with assms have "cs \<noteq> []" by simp
    from single_path_defined [OF this, of prior] obtain c
      where "optimizeChord [cs] (map Some prior) = Inr (map Some [c])" by auto
    with css show ?thesis by blast
  next
    case 3
    from chord_path_drops_unreachable [OF 3, of "map Some prior"] show ?thesis by blast
  qed
qed

lemma fretboardMap_loop_frame:
  assumes "\<forall>ev \<in> set events. single_reachable tun ev"
  shows "\<exists>out. fretboardMap_loop events tun results (map Some prior) = Inr (results @ out)
          \<and> length out = length events
          \<and> (\<forall>i < length events.
                mappedEvent.time (out ! i) = noteEvent.time (events ! i)
              \<and> mappedEvent.duration (out ! i) = noteEvent.duration (events ! i)
              \<and> mappedEvent.chord (out ! i) = chord_or_null (noteEvent.chord (events ! i))
              \<and> optimizeChord (candidatesOf (events ! i) tun)
                   (if i = 0 then map Some prior else mappedEvent.positions (out ! (i - 1)))
                  = Inr (mappedEvent.positions (out ! i)))"
  using assms
proof (induction events arbitrary: results prior)
  case Nil
  show ?case by simp
next
  case (Cons ev events)
  from Cons.prems have ok: "single_reachable tun ev"
    and rest: "\<forall>ev \<in> set events. single_reachable tun ev" by simp_all
  from ok have "length (candidatesOf ev tun) = 1 \<longrightarrow> candidatesOf ev tun ! 0 \<noteq> []"
    by (simp add: single_reachable_def)
  from optimizeChord_defined [OF this, of prior]
  obtain ps where best: "optimizeChord (candidatesOf ev tun) (map Some prior) = Inr (map Some ps)"
    by blast
  let ?m = "\<lparr>mappedEvent.time = noteEvent.time ev, duration = noteEvent.duration ev,
             positions = map Some ps, chord = chord_or_null (noteEvent.chord ev)\<rparr>"
  from Cons.IH [OF rest, of "results @ [?m]" ps]
  obtain out where r: "fretboardMap_loop events tun (results @ [?m]) (map Some ps) =
        Inr ((results @ [?m]) @ out)"
    and len: "length out = length events"
    and props: "\<forall>i < length events.
                mappedEvent.time (out ! i) = noteEvent.time (events ! i)
              \<and> mappedEvent.duration (out ! i) = noteEvent.duration (events ! i)
              \<and> mappedEvent.chord (out ! i) = chord_or_null (noteEvent.chord (events ! i))
              \<and> optimizeChord (candidatesOf (events ! i) tun)
                   (if i = 0 then map Some ps else mappedEvent.positions (out ! (i - 1)))
                  = Inr (mappedEvent.positions (out ! i))"
    by blast
  have eq: "fretboardMap_loop (ev # events) tun results (map Some prior) = Inr (results @ (?m # out))"
    using best r by (simp add: candidatesOf_def)
  have all: "\<forall>i < length (ev # events).
                mappedEvent.time ((?m # out) ! i) = noteEvent.time ((ev # events) ! i)
              \<and> mappedEvent.duration ((?m # out) ! i) = noteEvent.duration ((ev # events) ! i)
              \<and> mappedEvent.chord ((?m # out) ! i) = chord_or_null (noteEvent.chord ((ev # events) ! i))
              \<and> optimizeChord (candidatesOf ((ev # events) ! i) tun)
                   (if i = 0 then map Some prior else mappedEvent.positions ((?m # out) ! (i - 1)))
                  = Inr (mappedEvent.positions ((?m # out) ! i))"
  proof (intro allI impI)
    fix i assume i: "i < length (ev # events)"
    show "mappedEvent.time ((?m # out) ! i) = noteEvent.time ((ev # events) ! i)
              \<and> mappedEvent.duration ((?m # out) ! i) = noteEvent.duration ((ev # events) ! i)
              \<and> mappedEvent.chord ((?m # out) ! i) = chord_or_null (noteEvent.chord ((ev # events) ! i))
              \<and> optimizeChord (candidatesOf ((ev # events) ! i) tun)
                   (if i = 0 then map Some prior else mappedEvent.positions ((?m # out) ! (i - 1)))
                  = Inr (mappedEvent.positions ((?m # out) ! i))"
    proof (cases i)
      case 0
      with best show ?thesis by simp
    next
      case (Suc j)
      with i have j: "j < length events" by simp
      from props j have p: "mappedEvent.time (out ! j) = noteEvent.time (events ! j)
              \<and> mappedEvent.duration (out ! j) = noteEvent.duration (events ! j)
              \<and> mappedEvent.chord (out ! j) = chord_or_null (noteEvent.chord (events ! j))
              \<and> optimizeChord (candidatesOf (events ! j) tun)
                   (if j = 0 then map Some ps else mappedEvent.positions (out ! (j - 1)))
                  = Inr (mappedEvent.positions (out ! j))" by blast
      show ?thesis
      proof (cases j)
        case 0
        with p Suc show ?thesis by simp
      next
        case (Suc k)
        with p \<open>i = Suc j\<close> show ?thesis by simp
      qed
    qed
  qed
  have "length (?m # out) = length (ev # events)" using len by simp
  with eq all show ?case by blast
qed


lemma chord_or_null_if: "chord_or_null c = (if c = Some [] then None else c)"
  by (cases c) (simp_all add: chord_or_null_def)

text \<open>
  An event whose label is the empty string comes out with no label: \<^verbatim>\<open>"" || null\<close>
  is \<^verbatim>\<open>null\<close>.
\<close>

theorem empty_label_becomes_null:
  "fretboardMap [\<lparr>noteEvent.time = 0, duration = 1, notes = Single 40, chord = Some []\<rparr>] standard =
     Inr [\<lparr>mappedEvent.time = 0, duration = 1, positions = [Some \<lparr>string = 5, fret = 0\<rparr>],
           chord = None\<rparr>]
   \<and> mappedEvent.chord \<lparr>mappedEvent.time = 0, duration = 1,
         positions = [Some \<lparr>string = 5, fret = 0\<rparr>], chord = None\<rparr>
       \<noteq> noteEvent.chord \<lparr>noteEvent.time = 0, duration = 1, notes = Single 40, chord = Some []\<rparr>"
  by (simp add: fretboardMap_def noteList_def maxFret_default_def single_40 chord_or_null_def)

text \<open>
  After a single-note event with an unreachable pitch, whose mapped positions are
  \<^verbatim>\<open>[undefined]\<close>, the next single-note event throws.
\<close>

lemma fretboardMap_throws_after_unreachable_single:
  "fretboardMap [\<lparr>noteEvent.time = 0, duration = 1, notes = Single 30, chord = None\<rparr>,
                 \<lparr>noteEvent.time = 1, duration = 1, notes = Single 40, chord = None\<rparr>] standard =
     Inl TypeError"
  by (simp add: fretboardMap_def noteList_def maxFret_default_def single_30
        single_40_after_undefined)

text \<open>
  Claim C9, as amended. For a sequence in which every single-note event has a reachable
  pitch, the mapper returns a sequence of the same length; the event at each index has
  the time and the duration of the input event; its label is the input label, except
  that an empty label becomes no label; its positions are what the optimizer returns
  for the candidate sets of the event and the positions of the event before it, the
  empty list for the first event.
\<close>

theorem fretboardMap_frame:
  assumes "\<forall>ev \<in> set events. single_reachable tun ev"
  shows "\<exists>results. fretboardMap events tun = Inr results
          \<and> length results = length events
          \<and> (\<forall>i < length events.
                mappedEvent.time (results ! i) = noteEvent.time (events ! i)
              \<and> mappedEvent.duration (results ! i) = noteEvent.duration (events ! i)
              \<and> mappedEvent.chord (results ! i) =
                  (if noteEvent.chord (events ! i) = Some [] then None
                   else noteEvent.chord (events ! i))
              \<and> optimizeChord (candidatesOf (events ! i) tun)
                   (if i = 0 then [] else mappedEvent.positions (results ! (i - 1)))
                  = Inr (mappedEvent.positions (results ! i)))"
  using fretboardMap_loop_frame [OF assms, of "[]" "[]"]
  by (simp only: fretboardMap_def chord_or_null_if list.map append_Nil)

theorem fretboardMap_frame_witness:
  "single_reachable standard
     \<lparr>noteEvent.time = 0, duration = 1 / 2, notes = Array [40, 47, 52, 55, 59, 64], chord = Some ''Em7''\<rparr>
   \<and> single_reachable standard
     \<lparr>noteEvent.time = 7 / 10, duration = 1 / 4, notes = Single 43, chord = None\<rparr>
   \<and> (\<exists>results. fretboardMap
        [\<lparr>noteEvent.time = 0, duration = 1 / 2, notes = Array [40, 47, 52, 55, 59, 64], chord = Some ''Em7''\<rparr>,
         \<lparr>noteEvent.time = 7 / 10, duration = 1 / 4, notes = Single 43, chord = None\<rparr>] standard
        = Inr results \<and> length results = 2)"
proof -
  have h1: "single_reachable standard
     \<lparr>noteEvent.time = 0, duration = 1 / 2, notes = Array [40, 47, 52, 55, 59, 64], chord = Some ''Em7''\<rparr>"
    by code_simp
  have h2: "single_reachable standard
     \<lparr>noteEvent.time = 7 / 10, duration = 1 / 4, notes = Single 43, chord = None\<rparr>"
    by code_simp
  from h1 h2 have h: "\<forall>ev \<in> set
        [\<lparr>noteEvent.time = 0, duration = 1 / 2, notes = Array [40, 47, 52, 55, 59, 64], chord = Some ''Em7''\<rparr>,
         \<lparr>noteEvent.time = 7 / 10, duration = 1 / 4, notes = Single 43, chord = None\<rparr>].
         single_reachable standard ev" by simp
  from fretboardMap_frame [OF h] h1 h2 show ?thesis by auto
qed

text \<open>
  An event with an empty pitch set is mapped to an event without positions, and a
  negative fret bound gives no candidate: neither is an error.
\<close>

theorem malformed_input_is_mapped:
  "fretboardMap [\<lparr>noteEvent.time = 0, duration = 1, notes = Array [], chord = None\<rparr>] standard =
     Inr [\<lparr>mappedEvent.time = 0, duration = 1, positions = [], chord = None\<rparr>]
   \<and> getCandidates 40 standard (- 1) = []"
  by code_simp

text \<open>
  Claim C10, as amended. The engine validates nothing. An event with an empty pitch
  set is mapped, without an error, to an event with no positions, alone or anywhere in
  a sequence whose single-note events have reachable pitches; with a negative fret
  bound the candidate generator returns the empty list for every pitch, so that the
  pitch is dropped like an unreachable one.
\<close>

theorem no_input_validation:
  "(noteList (noteEvent.notes ev) = [] \<longrightarrow>
      fretboardMap [ev] tun =
        Inr [\<lparr>mappedEvent.time = noteEvent.time ev, duration = noteEvent.duration ev,
              positions = [], chord = chord_or_null (noteEvent.chord ev)\<rparr>])
   \<and> ((\<forall>e \<in> set events. single_reachable tun e) \<longrightarrow>
        (\<exists>results. fretboardMap events tun = Inr results
           \<and> length results = length events
           \<and> (\<forall>i < length events. noteList (noteEvent.notes (events ! i)) = []
                 \<longrightarrow> mappedEvent.positions (results ! i) = [])))
   \<and> (mf < 0 \<longrightarrow> getCandidates p tun mf = [])"
proof -
  have 1: "noteList (noteEvent.notes ev) = [] \<longrightarrow>
      fretboardMap [ev] tun =
        Inr [\<lparr>mappedEvent.time = noteEvent.time ev, duration = noteEvent.duration ev,
              positions = [], chord = chord_or_null (noteEvent.chord ev)\<rparr>]"
    by (simp add: fretboardMap_def optimizeChord_def)
  have 2: "(\<forall>e \<in> set events. single_reachable tun e) \<longrightarrow>
        (\<exists>results. fretboardMap events tun = Inr results
           \<and> length results = length events
           \<and> (\<forall>i < length events. noteList (noteEvent.notes (events ! i)) = []
                 \<longrightarrow> mappedEvent.positions (results ! i) = []))"
  proof
    assume h: "\<forall>e \<in> set events. single_reachable tun e"
    from fretboardMap_loop_frame [OF h, of "[]" "[]"]
    obtain out where r: "fretboardMap_loop events tun [] [] = Inr out"
      and len: "length out = length events"
      and props: "\<forall>i < length events.
              optimizeChord (candidatesOf (events ! i) tun)
                   (if i = 0 then map Some [] else mappedEvent.positions (out ! (i - 1)))
                  = Inr (mappedEvent.positions (out ! i))"
      by auto
    have "\<forall>i < length events. noteList (noteEvent.notes (events ! i)) = []
                 \<longrightarrow> mappedEvent.positions (out ! i) = []"
    proof (intro allI impI)
      fix i assume i: "i < length events" and e: "noteList (noteEvent.notes (events ! i)) = []"
      from e have "candidatesOf (events ! i) tun = []" by (simp add: candidatesOf_def)
      with props i show "mappedEvent.positions (out ! i) = []"
        by (auto simp: optimizeChord_def)
    qed
    with r len show "\<exists>results. fretboardMap events tun = Inr results
           \<and> length results = length events
           \<and> (\<forall>i < length events. noteList (noteEvent.notes (events ! i)) = []
                 \<longrightarrow> mappedEvent.positions (results ! i) = [])"
      by (auto simp: fretboardMap_def)
  qed
  have 3: "mf < 0 \<longrightarrow> getCandidates p tun mf = []"
    by (auto simp: getCandidates_eq filter_empty_conv)
  from 1 2 3 show ?thesis by blast
qed

theorem no_input_validation_witness:
  "noteList (noteEvent.notes \<lparr>noteEvent.time = 2, duration = 1 / 2, notes = Array [], chord = Some ''G''\<rparr>) = []
   \<and> fretboardMap [\<lparr>noteEvent.time = 2, duration = 1 / 2, notes = Array [], chord = Some ''G''\<rparr>] dropD =
       Inr [\<lparr>mappedEvent.time = 2, duration = 1 / 2, positions = [], chord = Some ''G''\<rparr>]
   \<and> (- 3 :: int) < 0
   \<and> getCandidates 50 dropD (- 3) = []"
proof -
  have h: "noteList (noteEvent.notes \<lparr>noteEvent.time = 2, duration = 1 / 2, notes = Array [], chord = Some ''G''\<rparr>) = []"
    by (simp add: noteList_def)
  from no_input_validation [where ev = "\<lparr>noteEvent.time = 2, duration = 1 / 2, notes = Array [], chord = Some ''G''\<rparr>"
      and tun = dropD and events = "[]" and mf = "- 3" and p = 50] h
  show ?thesis by (simp add: chord_or_null_def)
qed

subsection \<open>The renderer follows the specification\<close>

lemma find_string_defined:
  "list_all (\<lambda>p. p \<noteq> None) ps \<Longrightarrow>
   find_string ps s = Inr (find (\<lambda>p. string p = s) (map the ps))"
proof (induction ps)
  case Nil
  show ?case by simp
next
  case (Cons p ps)
  then obtain q where "p = Some q" by (cases p) auto
  with Cons show ?case by simp
qed

lemma row_events_spec:
  "\<forall>ev \<in> set slice. well_formed ev \<Longrightarrow>
   row_events slice s row = Inr (row @ concat (map (spec_cell s) slice))"
proof (induction slice arbitrary: row)
  case Nil
  show ?case by simp
next
  case (Cons ev slice)
  from Cons.prems have wf: "list_all (\<lambda>p. p \<noteq> None) (mappedEvent.positions ev)"
    and rest: "\<forall>ev \<in> set slice. well_formed ev"
    by (simp_all add: well_formed_def)
  show ?case
    using Cons.IH [OF rest]
    by (simp add: find_string_defined [OF wf] spec_cell_def chosen_def Let_def)
qed

lemma STRING_LABELS_nth: "s < 6 \<Longrightarrow> STRING_LABELS ! s = [''eBGDAE'' ! s]"
proof -
  assume "s < 6"
  then consider "s = 0" | "s = 1" | "s = 2" | "s = 3" | "s = 4" | "s = 5" by linarith
  then show ?thesis by cases (simp_all add: STRING_LABELS_def)
qed

lemma string_rows_spec:
  "s \<le> 6 \<Longrightarrow> \<forall>ev \<in> set slice. well_formed ev \<Longrightarrow>
   string_rows slice s lines = Inr (lines @ map (spec_row slice) [s..<6])"
proof (induction slice s lines rule: string_rows.induct)
  case (1 slice s lines)
  show ?case
  proof (cases "s < 6")
    case True
    then have up: "[s..<6] = s # [Suc s..<6]" by (simp add: upt_conv_Cons)
    have row: "row_events slice s (STRING_LABELS ! s @ ''|'') =
                 Inr ((STRING_LABELS ! s @ ''|'') @ concat (map (spec_cell s) slice))"
      using "1.prems"(2) by (rule row_events_spec)
    from True have le: "Suc s \<le> 6" by simp
    from "1.IH" [OF True row le "1.prems"(2)]
    show ?thesis
      using True row
      by (subst string_rows.simps) (simp add: up spec_row_def STRING_LABELS_nth)
  next
    case False
    with "1.prems" have "s = 6" by simp
    then show ?thesis by (subst string_rows.simps) simp
  qed
qed

lemma truthy_has_label: "truthy (mappedEvent.chord e) = has_label e"
  by (cases "mappedEvent.chord e") (simp_all add: truthy_def has_label_def)

lemma label_row_spec:
  "''    '' @ concat (map (\<lambda>e. padEnd (chord_or_empty (mappedEvent.chord e)) 6 (CHR '' '')) slice)
     = spec_label_row slice"
  by (simp add: spec_label_row_def chord_or_empty_def)

lemma spec_blocks_drop:
  "chunk < length evs \<Longrightarrow>
   spec_blocks (drop chunk evs) = take 8 (drop chunk evs) # spec_blocks (drop (chunk + 8) evs)"
  by (subst spec_blocks.simps) (simp add: add.commute)

lemma spec_blocks_Nil [simp]: "spec_blocks [] = []"
  by (subst spec_blocks.simps) simp

lemma spec_blocks_done: "\<not> chunk < length evs \<Longrightarrow> spec_blocks (drop chunk evs) = []"
  by simp

lemma render_chunks_spec:
  "\<forall>ev \<in> set evs. well_formed ev \<Longrightarrow>
   render_chunks evs chunk lines =
     Inr (lines @ concat (map spec_block_lines (spec_blocks (drop chunk evs))))"
proof (induction evs chunk lines rule: render_chunks.induct)
  case (1 tabEvents chunk lines)
  show ?case
  proof (cases "chunk < length tabEvents")
    case False
    then show ?thesis
      by (subst render_chunks.simps) (simp add: spec_blocks_done)
  next
    case True
    let ?slice = "take 8 (drop chunk tabEvents)"
    let ?lines1 = "(if list_ex (\<lambda>e. truthy (mappedEvent.chord e)) ?slice
                    then lines @ [''    '' @ concat (map (\<lambda>e. padEnd (chord_or_empty (mappedEvent.chord e)) 6 (CHR '' '')) ?slice)]
                    else lines)"
    have wf: "\<forall>ev \<in> set ?slice. well_formed ev"
      using "1.prems" by (meson in_set_dropD in_set_takeD)
    have rows: "string_rows ?slice 0 ?lines1 = Inr (?lines1 @ map (spec_row ?slice) [0..<6])"
      by (rule string_rows_spec) (use wf in simp_all)
    from "1.IH" [OF True refl refl rows "1.prems"]
    have next_chunk: "render_chunks tabEvents (chunk + 8) ((?lines1 @ map (spec_row ?slice) [0..<6]) @ [[]]) =
       Inr (((?lines1 @ map (spec_row ?slice) [0..<6]) @ [[]])
            @ concat (map spec_block_lines (spec_blocks (drop (chunk + 8) tabEvents))))" .
    have l1: "?lines1 = lines @ (if list_ex has_label ?slice then [spec_label_row ?slice] else [])"
      unfolding truthy_has_label label_row_spec by simp
    have "render_chunks tabEvents chunk lines =
       render_chunks tabEvents (chunk + 8) ((?lines1 @ map (spec_row ?slice) [0..<6]) @ [[]])"
      using True rows by (subst render_chunks.simps) (simp add: Let_def)
    also note next_chunk
    finally show ?thesis
      unfolding l1 spec_blocks_drop [OF True]
      by (simp add: spec_block_lines_def [of "take 8 (drop chunk tabEvents)"])
  qed
qed

lemma renderAsciiTab_spec:
  "\<forall>ev \<in> set evs. well_formed ev \<Longrightarrow> renderAsciiTab evs = Inr (spec_render evs)"
  by (simp add: renderAsciiTab_def render_chunks_spec spec_render_def)

lemma concat_spec_blocks: "concat (spec_blocks xs) = xs"
proof (induction xs rule: spec_blocks.induct)
  case (1 xs)
  show ?case
  proof (cases "xs = []")
    case True
    then show ?thesis by (subst spec_blocks.simps) simp
  next
    case False
    with "1.IH" show ?thesis by (subst spec_blocks.simps) simp
  qed
qed

lemma spec_blocks_size: "blk \<in> set (spec_blocks xs) \<Longrightarrow> blk \<noteq> [] \<and> length blk \<le> 8"
proof (induction xs rule: spec_blocks.induct)
  case (1 xs)
  show ?case
  proof (cases "xs = []")
    case True
    with "1.prems" show ?thesis by (simp add: spec_blocks.simps)
  next
    case False
    from "1.prems" have "blk = take 8 xs \<or> blk \<in> set (spec_blocks (drop 8 xs))"
      using False by (subst (asm) spec_blocks.simps) simp
    then show ?thesis
    proof
      assume "blk = take 8 xs"
      with False show ?thesis by simp
    next
      assume "blk \<in> set (spec_blocks (drop 8 xs))"
      with "1.IH" [OF False] show ?thesis by blast
    qed
  qed
qed

lemma length_digits: "0 < k \<Longrightarrow> n < 10 ^ k \<Longrightarrow> length (digits n) \<le> k"
proof (induction k arbitrary: n)
  case 0
  then show ?case by simp
next
  case (Suc k)
  show ?case
  proof (cases "n < 10")
    case True
    then show ?thesis by (subst digits.simps) simp
  next
    case False
    with Suc.prems have k: "0 < k" by (cases k) auto
    from Suc.prems have "n div 10 < 10 ^ k"
      by (simp add: less_mult_imp_div_less mult.commute)
    from Suc.IH [OF k this] False show ?thesis
      by (subst digits.simps) simp
  qed
qed

lemma length_spec_cell:
  assumes "\<forall>p \<in> set (chosen ev). 0 \<le> fret p \<and> fret p < 100000"
  shows "length (spec_cell s ev) = 6"
proof (cases "find (\<lambda>p. string p = s) (chosen ev)")
  case None
  then show ?thesis by (simp add: spec_cell_def padEnd_def)
next
  case (Some p)
  then have "p \<in> set (chosen ev)"
    by (auto simp: find_Some_iff)
  with assms have f: "0 \<le> fret p" "fret p < 100000" by auto
  then have "nat (fret p) < 10 ^ 5" by simp
  from length_digits [OF _ this] have "length (digits (nat (fret p))) \<le> 5" by simp
  with f Some show ?thesis
    by (simp add: spec_cell_def padEnd_def String_def)
qed

lemma length_spec_row:
  assumes "\<forall>ev \<in> set blk. \<forall>p \<in> set (chosen ev). 0 \<le> fret p \<and> fret p < 100000"
  shows "length (spec_row blk s) = 3 + 6 * length blk"
proof -
  have "length (concat (map (spec_cell s) blk)) = 6 * length blk"
    using assms by (induction blk) (simp_all add: length_spec_cell)
  then show ?thesis by (simp add: spec_row_def)
qed

lemma spec_blocks_full: "blk \<in> set (butlast (spec_blocks xs)) \<Longrightarrow> length blk = 8"
proof (induction xs rule: spec_blocks.induct)
  case (1 xs)
  show ?case
  proof (cases "xs = []")
    case True
    with "1.prems" show ?thesis by simp
  next
    case False
    then have eq: "spec_blocks xs = take 8 xs # spec_blocks (drop 8 xs)"
      by (subst spec_blocks.simps) simp
    show ?thesis
    proof (cases "spec_blocks (drop 8 xs) = []")
      case True
      with "1.prems" eq show ?thesis by simp
    next
      case rest: False
      then have "drop 8 xs \<noteq> []" by auto
      then have full: "length (take 8 xs) = 8" by simp
      from "1.prems" eq rest
      have "blk = take 8 xs \<or> blk \<in> set (butlast (spec_blocks (drop 8 xs)))" by simp
      with full "1.IH" [OF False] show ?thesis by blast
    qed
  qed
qed

lemma spec_blocks_subset: "blk \<in> set (spec_blocks xs) \<Longrightarrow> set blk \<subseteq> set xs"
proof -
  assume "blk \<in> set (spec_blocks xs)"
  then have "set blk \<subseteq> set (concat (spec_blocks xs))" by auto
  then show ?thesis by (simp only: concat_spec_blocks)
qed

text \<open>
  Claim C8. For every sequence of mapped events (whose positions are positions), the
  renderer produces the text of the specification: the events are cut into consecutive
  blocks of 8, the last one possibly shorter; a block with a labelled event starts with
  a label row, four spaces and then every label padded to 6 characters; then come the
  six rows of the strings \<open>e, B, G, D, A, E\<close>, each the letter, a pipe, for every
  event a dash and the fret number or a dash, padded with dashes to 5 characters, and
  a closing pipe; the block ends with an empty line. With frets of at most five digits
  every event takes 6 columns. A single event with the position string 4, fret 3 gives
  the digit 3 in the row of string 4 and dashes in the other rows.
\<close>

theorem renderAsciiTab_layout:
  assumes "\<forall>ev \<in> set evs. well_formed ev"
  shows "renderAsciiTab evs = Inr (spec_render evs)
       \<and> concat (spec_blocks evs) = evs
       \<and> (\<forall>blk \<in> set (spec_blocks evs). blk \<noteq> [] \<and> length blk \<le> 8)
       \<and> (\<forall>blk \<in> set (butlast (spec_blocks evs)). length blk = 8)
       \<and> ((\<forall>ev \<in> set evs. \<forall>p \<in> set (chosen ev). 0 \<le> fret p \<and> fret p < 100000)
            \<longrightarrow> (\<forall>blk \<in> set (spec_blocks evs). \<forall>s < 6.
                   length (spec_row blk s) = 3 + 6 * length blk))
       \<and> renderAsciiTab
            [\<lparr>mappedEvent.time = 0, duration = 1,
              positions = [Some \<lparr>string = 4, fret = 3\<rparr>], chord = None\<rparr>] =
           Inr ''e|------|\<newline>B|------|\<newline>G|------|\<newline>D|------|\<newline>A|-3----|\<newline>E|------|\<newline>''"
proof -
  have 1: "renderAsciiTab evs = Inr (spec_render evs)"
    using assms by (rule renderAsciiTab_spec)
  have 2: "concat (spec_blocks evs) = evs"
    by (rule concat_spec_blocks)
  have 3: "\<forall>blk \<in> set (spec_blocks evs). blk \<noteq> [] \<and> length blk \<le> 8"
    using spec_blocks_size by blast
  have 4: "\<forall>blk \<in> set (butlast (spec_blocks evs)). length blk = 8"
    using spec_blocks_full by blast
  have 5: "(\<forall>ev \<in> set evs. \<forall>p \<in> set (chosen ev). 0 \<le> fret p \<and> fret p < 100000)
            \<longrightarrow> (\<forall>blk \<in> set (spec_blocks evs). \<forall>s < 6.
                   length (spec_row blk s) = 3 + 6 * length blk)"
  proof (intro impI ballI allI)
    fix blk s
    assume f: "\<forall>ev \<in> set evs. \<forall>p \<in> set (chosen ev). 0 \<le> fret p \<and> fret p < 100000"
      and b: "blk \<in> set (spec_blocks evs)"
    from spec_blocks_subset [OF b] f
    have "\<forall>ev \<in> set blk. \<forall>p \<in> set (chosen ev). 0 \<le> fret p \<and> fret p < 100000" by blast
    then show "length (spec_row blk s) = 3 + 6 * length blk"
      by (rule length_spec_row)
  qed
  have 6: "renderAsciiTab
            [\<lparr>mappedEvent.time = 0, duration = 1,
              positions = [Some \<lparr>string = 4, fret = 3\<rparr>], chord = None\<rparr>] =
           Inr ''e|------|\<newline>B|------|\<newline>G|------|\<newline>D|------|\<newline>A|-3----|\<newline>E|------|\<newline>''"
    by code_simp
  from 1 2 3 4 5 6 show ?thesis by blast
qed

theorem renderAsciiTab_layout_witness:
  "well_formed \<lparr>mappedEvent.time = 0, duration = 1 / 2,
       positions = [Some \<lparr>string = 5, fret = 0\<rparr>, Some \<lparr>string = 4, fret = 2\<rparr>], chord = Some ''Em''\<rparr>
   \<and> well_formed \<lparr>mappedEvent.time = 1, duration = 1 / 2,
       positions = [Some \<lparr>string = 1, fret = 12\<rparr>], chord = None\<rparr>
   \<and> renderAsciiTab
       [\<lparr>mappedEvent.time = 0, duration = 1 / 2,
          positions = [Some \<lparr>string = 5, fret = 0\<rparr>, Some \<lparr>string = 4, fret = 2\<rparr>], chord = Some ''Em''\<rparr>,
        \<lparr>mappedEvent.time = 1, duration = 1 / 2,
          positions = [Some \<lparr>string = 1, fret = 12\<rparr>], chord = None\<rparr>] =
       Inr ''    Em          \<newline>e|------------|\<newline>B|-------12---|\<newline>G|------------|\<newline>D|------------|\<newline>A|-2----------|\<newline>E|-0----------|\<newline>''"
proof -
  let ?e1 = "\<lparr>mappedEvent.time = 0, duration = 1 / 2,
       positions = [Some \<lparr>string = 5, fret = 0\<rparr>, Some \<lparr>string = 4, fret = 2\<rparr>], chord = Some ''Em''\<rparr>"
  let ?e2 = "\<lparr>mappedEvent.time = 1, duration = 1 / 2,
       positions = [Some \<lparr>string = 1, fret = 12\<rparr>], chord = None\<rparr>"
  have h1: "well_formed ?e1" by (simp add: well_formed_def)
  have h2: "well_formed ?e2" by (simp add: well_formed_def)
  from h1 h2 have h: "\<forall>ev \<in> set [?e1, ?e2]. well_formed ev" by simp
  have e: "spec_render [?e1, ?e2] =
       ''    Em          \<newline>e|------------|\<newline>B|-------12---|\<newline>G|------------|\<newline>D|------------|\<newline>A|-2----------|\<newline>E|-0----------|\<newline>''"
    by code_simp
  from renderAsciiTab_layout [OF h] have "renderAsciiTab [?e1, ?e2] = Inr (spec_render [?e1, ?e2])"
    by blast
  with h1 h2 e show ?thesis by simp
qed

end
